(* ===== verification/Py_Prelude.thy ===== *)
theory Py_Prelude
  imports Complex_Main
begin

text \<open>
  Shared vocabulary of the development: the Python values the tool layer builds and
  reads (\<open>pyval\<close>), Python truthiness, the insertion-ordered \<open>dict\<close> as an
  association list, the membership test and subscript of Python's \<open>in\<close> and \<open>[]\<close>,
  slicing \<open>xs[:n]\<close> with its negative-bound rule, and \<open>str.split\<close> with a one-character
  separator. The exceptions the modelled code raises or propagates are the one datatype
  \<open>error\<close>, so every raise of the source is an \<open>Inl\<close> of a result.
\<close>

named_theorems py_simps "evaluation rules of the Python value model"
named_theorems wf_intros "introduction rules for well-formed values"

section \<open>Exceptions\<close>

datatype error =
    InvalidResponseError
  | RemoteFetchError string
  | IndexOutOfRangeError
  | DecodingError string
  | TypeError string
  | KeyError string

text \<open>
  Sequencing of statements that may raise: the first exception propagates, as in Python.
\<close>

definition sum_bind :: "'e + 'a \<Rightarrow> ('a \<Rightarrow> 'e + 'b) \<Rightarrow> 'e + 'b" where
  "sum_bind m f = (case m of Inl e \<Rightarrow> Inl e | Inr a \<Rightarrow> f a)"

lemma sum_bind_simps [simp, py_simps]:
  "sum_bind (Inl e) f = Inl e"
  "sum_bind (Inr a) f = f a"
  by (simp_all add: sum_bind_def)

lemma sum_bind_eq_Inr:
  "sum_bind m f = Inr b \<longleftrightarrow> (\<exists>a. m = Inr a \<and> f a = Inr b)"
  by (cases m) auto

lemma map_sum_eq_Inr: "map_sum f g x = Inr y \<longleftrightarrow> (\<exists>b. x = Inr b \<and> y = g b)"
  by (cases x) auto

lemma map_sum_Some_eq_Inr [simp, py_simps]:
  "map_sum id Some m = Inr b \<longleftrightarrow> (\<exists>a. m = Inr a \<and> b = Some a)"
  by (cases m) auto

text \<open>\<open>[f(x) for x in xs]\<close> with an \<open>f\<close> that may raise: the first exception escapes.\<close>

fun py_map :: "('a \<Rightarrow> 'e + 'b) \<Rightarrow> 'a list \<Rightarrow> 'e + 'b list" where
  "py_map f [] = Inr []"
| "py_map f (x # xs) = sum_bind (f x) (\<lambda>y. sum_bind (py_map f xs) (\<lambda>ys. Inr (y # ys)))"

lemma py_map_total [simp]: "py_map (\<lambda>x. Inr (g x)) xs = Inr (map g xs)"
  by (induction xs) auto

lemma py_map_Inr_iff:
  "py_map f xs = Inr ys \<longleftrightarrow> list_all2 (\<lambda>x y. f x = Inr y) xs ys"
  by (induction xs arbitrary: ys) (auto simp: sum_bind_eq_Inr list_all2_Cons1)

text \<open>A map whose every call returns a value with property \<open>P\<close> returns the list of them.\<close>

lemma py_map_all_Inr:
  "\<forall>x\<in>set xs. \<exists>y. f x = Inr y \<and> P y \<Longrightarrow>
     \<exists>ys. py_map f xs = Inr ys \<and> length ys = length xs \<and> (\<forall>y\<in>set ys. P y)"
  by (induction xs) (auto simp: sum_bind_simps)

section \<open>Python values\<close>

text \<open>
  A value as the JSON decoder hands it to the code and as \<open>json.dumps\<close> receives it:
  \<open>None\<close>, booleans, unbounded integers, floats (carried as reals: the code only copies
  them), strings (one \<open>char\<close> per code point), lists and dicts. A dict is an association
  list in insertion order, the order in which \<open>json.dumps\<close> writes its keys.
\<close>

datatype pyval =
    PNone
  | PBool bool
  | PInt int
  | PFloat real
  | PStr string
  | PList "pyval list"
  | PDict "(string \<times> pyval) list"

type_synonym pydict = "(string \<times> pyval) list"

text \<open>Truthiness, as \<open>if x:\<close> decides it.\<close>

fun py_truthy :: "pyval \<Rightarrow> bool" where
  "py_truthy PNone = False"
| "py_truthy (PBool b) = b"
| "py_truthy (PInt i) = (i \<noteq> 0)"
| "py_truthy (PFloat r) = (r \<noteq> 0)"
| "py_truthy (PStr s) = (s \<noteq> [])"
| "py_truthy (PList xs) = (xs \<noteq> [])"
| "py_truthy (PDict d) = (d \<noteq> [])"

text \<open>\<open>d.get(k)\<close>: the value of a present key, \<open>None\<close> otherwise.\<close>

definition dict_get :: "pydict \<Rightarrow> string \<Rightarrow> pyval" where
  "dict_get d k = (case map_of d k of Some v \<Rightarrow> v | None \<Rightarrow> PNone)"

text \<open>\<open>x is not None\<close>.\<close>

definition is_not_none :: "pyval \<Rightarrow> bool" where
  "is_not_none v \<longleftrightarrow> v \<noteq> PNone"

lemma is_not_none_iff [simp, py_simps]: "is_not_none v \<longleftrightarrow> v \<noteq> PNone"
  by (simp add: is_not_none_def)

text \<open>
  A well-formed value is one a Python program can hold: every dict, at any depth, has
  each key once (the association list is a function).
\<close>

fun wf_pyval :: "pyval \<Rightarrow> bool" where
  "wf_pyval (PList vs) = (\<forall>v \<in> set vs. wf_pyval v)"
| "wf_pyval (PDict d) = (distinct (map fst d) \<and> (\<forall>(k, v) \<in> set d. wf_pyval v))"
| "wf_pyval _ = True"

section \<open>Dicts\<close>

text \<open>
  \<open>d[k] = v\<close>: an existing key keeps its position and takes the new value, a new key is
  appended at the end.
\<close>

fun dict_set :: "('k \<times> 'v) list \<Rightarrow> 'k \<Rightarrow> 'v \<Rightarrow> ('k \<times> 'v) list" where
  "dict_set [] k v = [(k, v)]"
| "dict_set ((k', v') # d) k v =
     (if k' = k then (k, v) # d else (k', v') # dict_set d k v)"

lemma map_of_dict_set [simp]: "map_of (dict_set d k v) = (map_of d)(k \<mapsto> v)"
  by (induction d) (auto simp: fun_eq_iff)

lemma keys_dict_set:
  "map fst (dict_set d k v) = (if k \<in> set (map fst d) then map fst d else map fst d @ [k])"
  by (induction d) (fastforce simp: image_iff)+

lemma distinct_keys_dict_set [simp]:
  "distinct (map fst d) \<Longrightarrow> distinct (map fst (dict_set d k v))"
  by (simp add: keys_dict_set)

lemma wf_dict_get [wf_intros]: "wf_pyval (PDict d) \<Longrightarrow> wf_pyval (dict_get d k)"
  by (auto simp: dict_get_def split: option.splits dest: map_of_SomeD)

lemma wf_dict_set [wf_intros]:
  "wf_pyval (PDict d) \<Longrightarrow> wf_pyval v \<Longrightarrow> wf_pyval (PDict (dict_set d k v))"
proof (induction d)
  case Nil
  then show ?case by simp
next
  case (Cons kv d)
  then show ?case using distinct_keys_dict_set [of d k v]
    by (cases kv) (auto simp: keys_dict_set)
qed

lemma length_dict_set:
  "length (dict_set d k v) = (if k \<in> set (map fst d) then length d else Suc (length d))"
  using keys_dict_set [of d k v] by (metis length_append_singleton length_map)

section \<open>The operators \<open>in\<close> and \<open>[]\<close>\<close>

text \<open>Substring test, as \<open>k in s\<close> decides it for two strings.\<close>

definition is_substr :: "string \<Rightarrow> string \<Rightarrow> bool" where
  "is_substr k s \<longleftrightarrow> list_ex (\<lambda>i. take (length k) (drop i s) = k) [0..<Suc (length s)]"

text \<open>
  \<open>k in x\<close> for a string key \<open>k\<close>: key membership in a dict, substring test in a
  string, element test in a list; any other operand raises \<open>TypeError\<close>.
\<close>

fun py_contains :: "string \<Rightarrow> pyval \<Rightarrow> error + bool" where
  "py_contains k (PDict d) = Inr (map_of d k \<noteq> None)"
| "py_contains k (PStr s) = Inr (is_substr k s)"
| "py_contains k (PList xs) = Inr (PStr k \<in> set xs)"
| "py_contains k _ = Inl (TypeError ''argument of type is not iterable'')"

text \<open>
  \<open>x[k]\<close> for a string key \<open>k\<close>: a dict lookup that raises \<open>KeyError\<close> when the key
  is absent; strings and lists take only integer indices, and the remaining values are
  not subscriptable: \<open>TypeError\<close>.
\<close>

fun py_getitem :: "pyval \<Rightarrow> string \<Rightarrow> error + pyval" where
  "py_getitem (PDict d) k = (case map_of d k of None \<Rightarrow> Inl (KeyError k) | Some v \<Rightarrow> Inr v)"
| "py_getitem _ k = Inl (TypeError ''indices must be integers'')"

lemma py_getitem_dict_present [simp]:
  "map_of d k = Some v \<Longrightarrow> py_getitem (PDict d) k = Inr v"
  by simp

section \<open>Slicing\<close>

text \<open>
  \<open>xs[:n]\<close>: a negative bound counts from the end, and a bound past either end is cut to
  it, so slicing never raises.
\<close>

definition py_slice_to :: "'a list \<Rightarrow> int \<Rightarrow> 'a list" where
  "py_slice_to xs n = take (nat (if n < 0 then int (length xs) + n else n)) xs"

lemma py_slice_to_nonneg [simp]: "0 \<le> n \<Longrightarrow> py_slice_to xs n = take (nat n) xs"
  by (simp add: py_slice_to_def)

lemma py_slice_to_neg: "n < 0 \<Longrightarrow> py_slice_to xs n = take (nat (int (length xs) + n)) xs"
  by (simp add: py_slice_to_def)

lemma length_py_slice_to_nonneg:
  "0 \<le> n \<Longrightarrow> length (py_slice_to xs n) = min (nat n) (length xs)"
  by simp

section \<open>\<open>str.split\<close> and \<open>str.join\<close> with a one-character separator\<close>

text \<open>
  \<open>s.split(c)\<close>: the pieces between separators, empty pieces kept, so the result is
  never empty (\<open>"".split(",") == [""]\<close>).
\<close>

fun py_split :: "char \<Rightarrow> string \<Rightarrow> string list" where
  "py_split c [] = [[]]"
| "py_split c (x # xs) =
     (let ws = py_split c xs in if x = c then [] # ws else (x # hd ws) # tl ws)"

fun py_join :: "char \<Rightarrow> string list \<Rightarrow> string" where
  "py_join c [] = []"
| "py_join c [w] = w"
| "py_join c (w # ws) = w @ c # py_join c ws"

lemma py_split_not_Nil [simp]: "py_split c s \<noteq> []"
  by (induction s) (auto simp: Let_def)

lemma py_join_Cons_nonempty:
  "ws \<noteq> [] \<Longrightarrow> py_join c (w # ws) = w @ c # py_join c ws"
  by (cases ws) auto

lemma py_join_hd_tl:
  "ws \<noteq> [] \<Longrightarrow> py_join c ws = hd ws @ (if tl ws = [] then [] else c # py_join c (tl ws))"
  by (induction c ws rule: py_join.induct) auto

lemma py_join_split [simp]: "py_join c (py_split c s) = s"
proof (induction s)
  case Nil
  then show ?case by simp
next
  case (Cons x xs)
  let ?ws = "py_split c xs"
  have ne: "?ws \<noteq> []" by simp
  show ?case
  proof (cases "x = c")
    case True
    with Cons.IH ne show ?thesis by (simp add: py_join_Cons_nonempty)
  next
    case False
    have "py_join c ((x # hd ?ws) # tl ?ws) = x # py_join c ?ws"
      using ne by (cases "tl ?ws") (simp_all add: py_join_hd_tl [of ?ws])
    with False Cons.IH show ?thesis by (simp add: Let_def)
  qed
qed

lemma py_split_pieces: "w \<in> set (py_split c s) \<Longrightarrow> c \<notin> set w"
proof (induction s arbitrary: w)
  case Nil
  then show ?case by simp
next
  case (Cons x xs)
  let ?ws = "py_split c xs"
  have ne: "?ws \<noteq> []" by simp
  then have hd_in: "hd ?ws \<in> set ?ws" and tl_sub: "set (tl ?ws) \<subseteq> set ?ws"
    by (simp_all add: list.set_sel(2) [of ?ws] subsetI)
  show ?case
  proof (cases "x = c")
    case True
    with Cons show ?thesis by (auto simp: Let_def)
  next
    case False
    with Cons.prems have "w = x # hd ?ws \<or> w \<in> set (tl ?ws)" by (auto simp: Let_def)
    with False hd_in tl_sub Cons.IH show ?thesis by auto
  qed
qed

lemma length_py_split: "length (py_split c s) = Suc (count_list s c)"
proof (induction s)
  case Nil
  then show ?case by simp
next
  case (Cons x xs)
  have ne: "py_split c xs \<noteq> []" by simp
  with Cons show ?case by (cases "py_split c xs") (auto simp: Let_def)
qed

end
