(* ===== verification/Objects.thy ===== *)
theory Objects
  imports Py_Prelude
begin

text \<open>
  The data objects the tool layer reads. \<open>Snippet\<close> and \<open>SnippetSearchResult\<close>
  (src/semanticscholar/SnippetSearchResult.py) are modelled with their constructors: each
  \<open>_init_attributes\<close> sets an attribute from a key when \<open>key in data\<close>, with
  Python's \<open>in\<close> and \<open>[]\<close> on whatever value \<open>data\<close> is, so a payload that is not a
  dict raises as the code would. \<open>Paper\<close>, \<open>Author\<close>, \<open>Tldr\<close>, the citation and
  reference items and \<open>datetime\<close> belong to the client library; only the attributes
  the tool layer reads are modelled, as records. Attribute names follow the source, except
  \<open>text\<close> and \<open>section\<close>, which are Isabelle keywords.
\<close>

section \<open>Attribute views of the client library's objects\<close>

record tldr =
  tldr_text :: pyval

record datetime =
  dt_year :: nat
  dt_month :: nat
  dt_day :: nat
  dt_hour :: nat
  dt_minute :: nat
  dt_second :: nat

record author =
  authorId :: pyval
  name :: pyval
  url :: pyval
  paperCount :: pyval
  citationCount :: pyval
  hIndex :: pyval
  affiliations :: pyval

record paper =
  paperId :: pyval
  title :: pyval
  abstract :: pyval
  year :: pyval
  citationCount :: pyval
  url :: pyval
  authors :: "author list option"
  externalIds :: pyval
  venue :: pyval
  publicationDate :: "datetime option"
  openAccessPdf :: pyval
  tldr :: "tldr option"

text \<open>
  \<open>str(dt.date())\<close>: the ISO form \<open>YYYY-MM-DD\<close>, each field in decimal, zero-padded
  to four, two and two digits (\<open>%04d-%02d-%02d\<close>).
\<close>

definition digit_char :: "nat \<Rightarrow> char" where
  "digit_char d = char_of (48 + d)"

fun dec_digits :: "nat \<Rightarrow> string" where
  "dec_digits n = (if n < 10 then [digit_char n] else dec_digits (n div 10) @ [digit_char (n mod 10)])"

declare dec_digits.simps [simp del]

definition zero_pad :: "nat \<Rightarrow> string \<Rightarrow> string" where
  "zero_pad w s = replicate (w - length s) (CHR ''0'') @ s"

definition date_isoformat :: "datetime \<Rightarrow> string" where
  "date_isoformat dt =
     zero_pad 4 (dec_digits (dt_year dt)) @ ''-'' @ zero_pad 2 (dec_digits (dt_month dt)) @ ''-'' @
     zero_pad 2 (dec_digits (dt_day dt))"

text \<open>A citation or reference item: the citing or cited paper, \<open>None\<close> when withheld.\<close>

record citation =
  paper :: "paper option"

record reference =
  paper :: "paper option"

section \<open>Snippet and SnippetSearchResult\<close>

record snippet =
  snippet_text :: pyval
  snippetKind :: pyval
  snippet_section :: pyval
  snippetOffset :: pyval
  annotations :: pyval
  snippet_data :: pyval

record snippet_search_result =
  paper :: "paper option"
  snippet :: "snippet option"
  score :: pyval
  ssr_data :: pyval

text \<open>
  \<open>if k in data: self._x = data[k]\<close>, the attribute starting as \<open>None\<close>.
\<close>

definition init_field :: "string \<Rightarrow> pyval \<Rightarrow> error + pyval" where
  "init_field k data = sum_bind (py_contains k data) (\<lambda>p. if p then py_getitem data k else Inr PNone)"

definition snippet_init :: "pyval \<Rightarrow> error + snippet" where
  "snippet_init data =
     sum_bind (init_field ''text'' data) (\<lambda>t.
     sum_bind (init_field ''snippetKind'' data) (\<lambda>k.
     sum_bind (init_field ''section'' data) (\<lambda>sc.
     sum_bind (init_field ''snippetOffset'' data) (\<lambda>off.
     sum_bind (init_field ''annotations'' data) (\<lambda>an.
       Inr \<lparr>snippet_text = t, snippetKind = k, snippet_section = sc, snippetOffset = off,
            annotations = an, snippet_data = data\<rparr>)))))"

text \<open>
  \<open>if k in data: if data[k] is not None: self._x = C(data[k])\<close>, the attribute starting
  as \<open>None\<close>.
\<close>

definition init_object :: "string \<Rightarrow> (pyval \<Rightarrow> error + 'o) \<Rightarrow> pyval \<Rightarrow> error + 'o option" where
  "init_object k mk data =
     sum_bind (py_contains k data) (\<lambda>p.
       if p then sum_bind (py_getitem data k) (\<lambda>v. if is_not_none v then map_sum id Some (mk v) else Inr None)
       else Inr None)"

text \<open>The paper constructor \<open>Paper(...)\<close> of the client library is a parameter.\<close>

definition snippet_search_result_init ::
  "(pyval \<Rightarrow> error + paper) \<Rightarrow> pyval \<Rightarrow> error + snippet_search_result"
where
  "snippet_search_result_init mk_paper data =
     sum_bind (init_object ''paper'' mk_paper data) (\<lambda>p.
     sum_bind (init_object ''snippet'' snippet_init data) (\<lambda>sn.
     sum_bind (init_field ''score'' data) (\<lambda>sc.
       Inr \<lparr>snippet_search_result.paper = p, snippet = sn, score = sc, ssr_data = data\<rparr>)))"

section \<open>Example objects\<close>

text \<open>A paper with only an id and a title, the shape the examples and witnesses use.\<close>

definition example_paper :: "string \<Rightarrow> paper" where
  "example_paper t =
     \<lparr>paperId = PStr t, title = PStr (''On '' @ t), abstract = PNone, year = PNone,
      paper.citationCount = PNone, paper.url = PNone, authors = None, externalIds = PNone,
      venue = PNone, publicationDate = None, openAccessPdf = PNone, tldr = None\<rparr>"

text \<open>A citation item whose citing paper is present unless its id is empty.\<close>

definition example_citation :: "string \<Rightarrow> citation" where
  "example_citation t = \<lparr>citation.paper = (if t = [] then None else Some (example_paper t))\<rparr>"

text \<open>An author with an id and a name.\<close>

definition example_author :: "string \<Rightarrow> author" where
  "example_author t =
     \<lparr>authorId = PStr t, name = PStr (''Author '' @ t), author.url = PNone, paperCount = PInt 0,
      author.citationCount = PNone, hIndex = PNone, affiliations = PNone\<rparr>"

text \<open>A reference item whose cited paper is present unless its id is empty.\<close>

definition example_reference :: "string \<Rightarrow> reference" where
  "example_reference t = \<lparr>reference.paper = (if t = [] then None else Some (example_paper t))\<rparr>"

section \<open>Specifications\<close>

text \<open>
  Reading an ISO date back: four, two and two decimal digits separated by dashes. A
  Python \<open>date\<close> has a year in 1..9999, a month in 1..12 and a day in 1..31.
\<close>

definition dec_value :: "string \<Rightarrow> nat" where
  "dec_value s = foldl (\<lambda>n c. 10 * n + (of_char c - 48)) 0 s"

definition is_dec :: "string \<Rightarrow> bool" where
  "is_dec s \<longleftrightarrow> s \<noteq> [] \<and> list_all (\<lambda>c. (48::nat) \<le> of_char c \<and> of_char c \<le> (57::nat)) s"

definition parse_isodate :: "string \<Rightarrow> (nat \<times> nat \<times> nat) option" where
  "parse_isodate s =
     (if length s = 10 \<and> s ! 4 = CHR ''-'' \<and> s ! 7 = CHR ''-'' \<and>
         is_dec (take 4 s) \<and> is_dec (take 2 (drop 5 s)) \<and> is_dec (drop 8 s)
      then Some (dec_value (take 4 s), dec_value (take 2 (drop 5 s)), dec_value (drop 8 s))
      else None)"

definition valid_date :: "datetime \<Rightarrow> bool" where
  "valid_date dt \<longleftrightarrow> 1 \<le> dt_year dt \<and> dt_year dt \<le> 9999 \<and> 1 \<le> dt_month dt \<and> dt_month dt \<le> 12 \<and>
     1 \<le> dt_day dt \<and> dt_day dt \<le> 31"

text \<open>
  A well-formed snippet-search result: every attribute search_snippets copies holds a
  well-formed value.
\<close>

definition snippet_result_wf :: "snippet_search_result \<Rightarrow> bool" where
  "snippet_result_wf r =
     (wf_pyval (score r) \<and>
      (case snippet_search_result.paper r of None \<Rightarrow> True
       | Some p \<Rightarrow> list_all wf_pyval [paperId p, title p, year p]) \<and>
      (case snippet r of None \<Rightarrow> True
       | Some sn \<Rightarrow> list_all wf_pyval [snippet_text sn, snippetKind sn, snippet_section sn]))"

definition snippet_search_result_keys :: "string list" where
  "snippet_search_result_keys = [''paper'', ''snippet'', ''score'']"

definition snippet_keys :: "string list" where
  "snippet_keys = [''text'', ''snippetKind'', ''section'', ''snippetOffset'', ''annotations'']"

section \<open>Lemmas\<close>

lemma init_field_dict [simp]: "init_field k (PDict d) = Inr (dict_get d k)"
  by (auto simp: init_field_def dict_get_def split: option.splits)

lemma init_object_dict:
  "init_object k mk (PDict d) =
     (if is_not_none (dict_get d k) then map_sum id Some (mk (dict_get d k)) else Inr None)"
  by (auto simp: init_object_def dict_get_def is_not_none_def split: option.splits)

subsection \<open>Well-formed payloads\<close>

text \<open>
  The constructors on a well-formed dict payload: \<open>Snippet(data)\<close> never raises, and
  \<open>SnippetSearchResult(data)\<close> does not either when the snippet value is \<open>None\<close> or
  a dict and the paper constructor accepts well-formed values; the attributes the tools
  copy are then well-formed.
\<close>

lemma snippet_init_dict_wf:
  "wf_pyval (PDict sd) \<Longrightarrow>
     \<exists>sn. snippet_init (PDict sd) = Inr sn \<and> list_all wf_pyval [snippet_text sn, snippetKind sn, snippet_section sn]"
  by (simp add: snippet_init_def sum_bind_simps wf_dict_get)

lemma init_object_paper_wf:
  assumes wf: "wf_pyval (PDict d)"
    and mk: "\<forall>v. wf_pyval v \<longrightarrow> (\<exists>p. mk v = Inr p \<and> list_all wf_pyval [paperId p, title p, year p])"
  shows "\<exists>po. init_object ''paper'' mk (PDict d) = Inr po \<and>
           (case po of None \<Rightarrow> True | Some p \<Rightarrow> list_all wf_pyval [paperId p, title p, year p])"
proof -
  obtain p where "mk (dict_get d ''paper'') = Inr p" "list_all wf_pyval [paperId p, title p, year p]"
    using mk wf_dict_get [OF wf] by blast
  then show ?thesis by (simp add: init_object_dict)
qed

lemma init_object_snippet_wf:
  assumes wf: "wf_pyval (PDict d)"
    and sn: "dict_get d ''snippet'' = PNone \<or> (\<exists>sd. dict_get d ''snippet'' = PDict sd)"
  shows "\<exists>so. init_object ''snippet'' snippet_init (PDict d) = Inr so \<and>
           (case so of None \<Rightarrow> True | Some sn \<Rightarrow> list_all wf_pyval [snippet_text sn, snippetKind sn, snippet_section sn])"
  using sn
proof
  assume "dict_get d ''snippet'' = PNone"
  then show ?thesis by (simp add: init_object_dict)
next
  assume "\<exists>sd. dict_get d ''snippet'' = PDict sd"
  then obtain sd where sd: "dict_get d ''snippet'' = PDict sd" ..
  then have "wf_pyval (PDict sd)" using wf_dict_get [OF wf, of "''snippet''"] by simp
  from snippet_init_dict_wf [OF this] sd show ?thesis by (auto simp: init_object_dict)
qed

lemma snippet_search_result_init_wf:
  assumes wf: "wf_pyval (PDict d)"
    and sn: "dict_get d ''snippet'' = PNone \<or> (\<exists>sd. dict_get d ''snippet'' = PDict sd)"
    and mk: "\<forall>v. wf_pyval v \<longrightarrow> (\<exists>p. mk v = Inr p \<and> list_all wf_pyval [paperId p, title p, year p])"
  shows "\<exists>r. snippet_search_result_init mk (PDict d) = Inr r \<and> snippet_result_wf r"
proof -
  obtain po where po: "init_object ''paper'' mk (PDict d) = Inr po"
    and pwf: "case po of None \<Rightarrow> True | Some p \<Rightarrow> list_all wf_pyval [paperId p, title p, year p]"
    using init_object_paper_wf [OF wf mk] by blast
  obtain so where so: "init_object ''snippet'' snippet_init (PDict d) = Inr so"
    and swf: "case so of None \<Rightarrow> True | Some sn \<Rightarrow> list_all wf_pyval [snippet_text sn, snippetKind sn, snippet_section sn]"
    using init_object_snippet_wf [OF wf sn] by blast
  show ?thesis
    using po pwf so swf wf_dict_get [OF wf, of "''score''"]
    by (simp add: snippet_search_result_init_def sum_bind_simps snippet_result_wf_def)
qed

subsection \<open>Decimal rendering\<close>

lemma of_char_digit_char [simp]: "d < 10 \<Longrightarrow> of_char (digit_char d) = 48 + d"
  by (simp add: digit_char_def)

lemma dec_value_snoc: "dec_value (xs @ [c]) = 10 * dec_value xs + (of_char c - 48)"
  by (simp add: dec_value_def)

lemma dec_value_dec_digits [simp]: "dec_value (dec_digits n) = n"
proof (induction n rule: dec_digits.induct)
  case (1 n)
  show ?case
  proof (cases "n < 10")
    case True
    then show ?thesis by (simp add: dec_value_def dec_digits.simps [of n])
  next
    case False
    with "1.IH" show ?thesis by (simp add: dec_value_snoc dec_digits.simps [of n])
  qed
qed

lemma dec_digits_is_dec: "is_dec (dec_digits n)"
proof (induction n rule: dec_digits.induct)
  case (1 n)
  then show ?case by (cases "n < 10") (simp_all add: is_dec_def dec_digits.simps [of n])
qed

lemma length_dec_digits: "n < 10 ^ w \<Longrightarrow> 0 < w \<Longrightarrow> length (dec_digits n) \<le> w"
proof (induction n arbitrary: w rule: dec_digits.induct)
  case (1 n)
  show ?case
  proof (cases "n < 10")
    case True
    with "1.prems" show ?thesis by (simp add: dec_digits.simps [of n])
  next
    case False
    have w: "1 < w"
    proof (rule ccontr)
      assume "\<not> 1 < w"
      with "1.prems" have "w = 1" by simp
      with "1.prems" False show False by simp
    qed
    obtain v where v: "w = Suc v" and v0: "0 < v" using w by (cases w) auto
    have "n < 10 ^ v * 10" using "1.prems" v by (simp add: mult.commute)
    then have "n div 10 < 10 ^ v" by (simp add: div_less_iff_less_mult)
    then have "length (dec_digits (n div 10)) \<le> v" using False v0 "1.IH" by simp
    with False v show ?thesis by (simp add: dec_digits.simps [of n])
  qed
qed

lemma dec_value_zeros: "dec_value (replicate k (CHR ''0'') @ s) = dec_value s"
proof -
  have "foldl (\<lambda>n c. 10 * n + (of_char c - 48)) (0::nat) (replicate k (CHR ''0'')) = 0"
    by (induction k) simp_all
  then show ?thesis by (simp add: dec_value_def)
qed

lemma is_dec_zero_pad: "is_dec s \<Longrightarrow> is_dec (zero_pad w s)"
proof -
  have z: "of_char (CHR ''0'') = (48::nat)" by simp
  show "is_dec s \<Longrightarrow> is_dec (zero_pad w s)"
    by (auto simp: is_dec_def zero_pad_def list_all_iff set_replicate_conv_if z)
qed

lemma length_zero_pad: "length s \<le> w \<Longrightarrow> length (zero_pad w s) = w"
  by (simp add: zero_pad_def)

lemma dec_value_zero_pad [simp]: "dec_value (zero_pad w s) = dec_value s"
  by (simp add: zero_pad_def dec_value_zeros)

lemma dec_digits_not_Nil [simp]: "dec_digits n \<noteq> []"
  by (simp add: dec_digits.simps [of n])

lemma padded_field:
  assumes "n < 10 ^ w" "0 < w"
  shows "length (zero_pad w (dec_digits n)) = w \<and> is_dec (zero_pad w (dec_digits n)) \<and>
         dec_value (zero_pad w (dec_digits n)) = n"
  using assms length_dec_digits [OF assms] by (simp add: length_zero_pad is_dec_zero_pad dec_digits_is_dec)

text \<open>
  C11. The publication date \<open>_paper_to_dict\<close> writes, \<open>str(date)\<close>, is ten
  characters and reads back as the date's year, month and day.
\<close>

theorem date_isoformat_roundtrip:
  assumes "valid_date dt"
  shows "length (date_isoformat dt) = 10 \<and>
         parse_isodate (date_isoformat dt) = Some (dt_year dt, dt_month dt, dt_day dt)"
proof -
  let ?y = "zero_pad 4 (dec_digits (dt_year dt))"
  let ?m = "zero_pad 2 (dec_digits (dt_month dt))"
  let ?d = "zero_pad 2 (dec_digits (dt_day dt))"
  have y: "length ?y = 4" "is_dec ?y" "dec_value ?y = dt_year dt"
    using padded_field [of "dt_year dt" 4] assms by (simp_all add: valid_date_def)
  have m: "length ?m = 2" "is_dec ?m" "dec_value ?m = dt_month dt"
    using padded_field [of "dt_month dt" 2] assms by (simp_all add: valid_date_def)
  have d: "length ?d = 2" "is_dec ?d" "dec_value ?d = dt_day dt"
    using padded_field [of "dt_day dt" 2] assms by (simp_all add: valid_date_def)
  have s: "date_isoformat dt = ?y @ CHR ''-'' # ?m @ CHR ''-'' # ?d" by (simp add: date_isoformat_def)
  have parts: "take 4 (date_isoformat dt) = ?y" "take 2 (drop 5 (date_isoformat dt)) = ?m"
    "drop 8 (date_isoformat dt) = ?d" "date_isoformat dt ! 4 = CHR ''-''"
    "date_isoformat dt ! 7 = CHR ''-''" "length (date_isoformat dt) = 10"
    using y(1) m(1) d(1) by (simp_all add: s nth_append)
  show ?thesis using y m d parts by (simp add: parse_isodate_def)
qed

theorem date_isoformat_roundtrip_witness:
  "valid_date \<lparr>dt_year = 2023, dt_month = 1, dt_day = 15, dt_hour = 0, dt_minute = 0, dt_second = 0\<rparr> \<and>
   date_isoformat \<lparr>dt_year = 2023, dt_month = 1, dt_day = 15, dt_hour = 0, dt_minute = 0, dt_second = 0\<rparr> = ''2023-01-15'' \<and>
   parse_isodate ''2023-01-15'' = Some (2023, 1, 15)"
proof -
  let ?dt = "\<lparr>dt_year = 2023, dt_month = 1, dt_day = 15, dt_hour = 0, dt_minute = 0, dt_second = 0\<rparr>"
  have v: "valid_date ?dt" by (simp add: valid_date_def)
  have e: "date_isoformat ?dt = ''2023-01-15''"
    by code_simp
  from date_isoformat_roundtrip [OF v] v e show ?thesis by simp
qed

subsection \<open>Constructors\<close>

text \<open>
  C12. \<open>Snippet(data)\<close> on a dict never raises, and each attribute is
  \<open>data.get(key)\<close>: the value of a present key, \<open>None\<close> for an absent one.
\<close>

theorem snippet_init_dict:
  "snippet_init (PDict d) =
     Inr \<lparr>snippet_text = dict_get d ''text'', snippetKind = dict_get d ''snippetKind'',
          snippet_section = dict_get d ''section'', snippetOffset = dict_get d ''snippetOffset'',
          annotations = dict_get d ''annotations'', snippet_data = PDict d\<rparr>"
  by (simp add: snippet_init_def)

text \<open>
  C13. \<open>Snippet(data)\<close> on a string payload raises \<open>TypeError\<close> as soon as one of
  its keys occurs in the string (\<open>key in data\<close> is then a substring test, and
  \<open>data[key]\<close> a string index by a string); on a string containing none of them it
  builds a snippet with every attribute \<open>None\<close>.
\<close>

theorem snippet_init_str:
  "snippet_init (PStr s) =
     (if list_ex (\<lambda>k. is_substr k s) snippet_keys then Inl (TypeError ''indices must be integers'')
      else Inr \<lparr>snippet_text = PNone, snippetKind = PNone, snippet_section = PNone,
                snippetOffset = PNone, annotations = PNone, snippet_data = PStr s\<rparr>)"
  by (simp add: snippet_init_def init_field_def snippet_keys_def)

text \<open>
  C14. \<open>SnippetSearchResult(data)\<close> on a dict: the score is \<open>data.get("score")\<close>,
  the paper is absent exactly when \<open>data.get("paper")\<close> is \<open>None\<close> (a present
  paper comes from a value that is not \<open>None\<close>) and is otherwise what the paper
  constructor builds from it, and likewise the snippet with \<open>Snippet(...)\<close>.
\<close>

theorem snippet_search_result_init_dict:
  assumes "snippet_search_result_init mk (PDict d) = Inr r"
  shows "score r = dict_get d ''score'' \<and> ssr_data r = PDict d \<and>
         (case snippet_search_result.paper r of
            None \<Rightarrow> dict_get d ''paper'' = PNone
          | Some p \<Rightarrow> dict_get d ''paper'' \<noteq> PNone \<and> mk (dict_get d ''paper'') = Inr p) \<and>
         (case snippet r of
            None \<Rightarrow> dict_get d ''snippet'' = PNone
          | Some sn \<Rightarrow> dict_get d ''snippet'' \<noteq> PNone \<and> snippet_init (dict_get d ''snippet'') = Inr sn)"
  using assms
  by (auto simp: snippet_search_result_init_def init_object_dict sum_bind_eq_Inr
      split: if_splits sum.splits option.splits)

theorem snippet_search_result_init_dict_witness:
  "snippet_search_result_init (\<lambda>_. Inl (KeyError ''paperId''))
     (PDict [(''score'', PInt 1), (''paper'', PNone), (''snippet'', PDict [(''text'', PStr ''matching text'')])]) =
   Inr \<lparr>snippet_search_result.paper = None,
        snippet = Some \<lparr>snippet_text = PStr ''matching text'', snippetKind = PNone, snippet_section = PNone,
                        snippetOffset = PNone, annotations = PNone,
                        snippet_data = PDict [(''text'', PStr ''matching text'')]\<rparr>,
        score = PInt 1,
        ssr_data = PDict [(''score'', PInt 1), (''paper'', PNone), (''snippet'', PDict [(''text'', PStr ''matching text'')])]\<rparr> \<and>
   score \<lparr>snippet_search_result.paper = None,
        snippet = Some \<lparr>snippet_text = PStr ''matching text'', snippetKind = PNone, snippet_section = PNone,
                        snippetOffset = PNone, annotations = PNone,
                        snippet_data = PDict [(''text'', PStr ''matching text'')]\<rparr>,
        score = PInt 1,
        ssr_data = PDict [(''score'', PInt 1), (''paper'', PNone), (''snippet'', PDict [(''text'', PStr ''matching text'')])]\<rparr> =
   dict_get [(''score'', PInt 1), (''paper'', PNone), (''snippet'', PDict [(''text'', PStr ''matching text'')])] ''score''"
proof -
  have r: "snippet_search_result_init (\<lambda>_. Inl (KeyError ''paperId''))
     (PDict [(''score'', PInt 1), (''paper'', PNone), (''snippet'', PDict [(''text'', PStr ''matching text'')])]) =
   Inr \<lparr>snippet_search_result.paper = None,
        snippet = Some \<lparr>snippet_text = PStr ''matching text'', snippetKind = PNone, snippet_section = PNone,
                        snippetOffset = PNone, annotations = PNone,
                        snippet_data = PDict [(''text'', PStr ''matching text'')]\<rparr>,
        score = PInt 1,
        ssr_data = PDict [(''score'', PInt 1), (''paper'', PNone), (''snippet'', PDict [(''text'', PStr ''matching text'')])]\<rparr>"
    by (simp add: snippet_search_result_init_def init_object_dict dict_get_def snippet_init_def)
  from snippet_search_result_init_dict [OF r] r show ?thesis by simp
qed

text \<open>
  C27. \<open>SnippetSearchResult(data)\<close> on a payload that is not a dict: \<open>None\<close>, a
  boolean or a number raises \<open>TypeError\<close> at the first \<open>key in data\<close>; a list or a
  string raises \<open>TypeError\<close> when one of its keys is an element (a substring) of it,
  since \<open>data[key]\<close> then indexes it by a string, and otherwise gives a result with no
  paper, no snippet and no score.
\<close>

theorem snippet_search_result_init_not_dict:
  "snippet_search_result_init mk PNone = Inl (TypeError ''argument of type is not iterable'') \<and>
   snippet_search_result_init mk (PBool b) = Inl (TypeError ''argument of type is not iterable'') \<and>
   snippet_search_result_init mk (PInt i) = Inl (TypeError ''argument of type is not iterable'') \<and>
   snippet_search_result_init mk (PFloat r) = Inl (TypeError ''argument of type is not iterable'') \<and>
   snippet_search_result_init mk (PList xs) =
     (if list_ex (\<lambda>k. PStr k \<in> set xs) snippet_search_result_keys
      then Inl (TypeError ''indices must be integers'')
      else Inr \<lparr>snippet_search_result.paper = None, snippet = None, score = PNone, ssr_data = PList xs\<rparr>) \<and>
   snippet_search_result_init mk (PStr s) =
     (if list_ex (\<lambda>k. is_substr k s) snippet_search_result_keys
      then Inl (TypeError ''indices must be integers'')
      else Inr \<lparr>snippet_search_result.paper = None, snippet = None, score = PNone, ssr_data = PStr s\<rparr>)"
  by (simp add: snippet_search_result_init_def init_object_def init_field_def snippet_search_result_keys_def)

end
