(* ===== verification/Helpers.thy ===== *)
theory Helpers
  imports Objects
begin

text \<open>
  The helpers of the tool layer, src/semanticscholar/mcp_server.py: \<open>_truncate\<close>,
  \<open>_paper_to_dict\<close> and \<open>_author_to_dict\<close>, which turn the client's objects into
  the plain dicts the tools answer with. Each is a chain of conditional assignments over
  an insertion-ordered dict; the chains are also given as tables of guarded entries, from
  which their keys and entries are proved.
\<close>

section \<open>Helpers\<close>

definition ABSTRACT_MAX :: int where
  "ABSTRACT_MAX = 300"

text \<open>
  \<open>_truncate(text, max_len)\<close>: \<open>if text and len(text) > max_len: return
  text[:max_len] + "..."\<close>. For a string this cuts and appends the ellipsis; \<open>len\<close>
  of a number or a boolean, and \<open>+ "..."\<close> on a list or dict, raise \<open>TypeError\<close>.
\<close>

fun truncate_text :: "pyval \<Rightarrow> int \<Rightarrow> error + pyval" where
  "truncate_text (PStr s) m =
     Inr (if s \<noteq> [] \<and> m < int (length s) then PStr (py_slice_to s m @ ''...'') else PStr s)"
| "truncate_text (PList xs) m =
     (if xs \<noteq> [] \<and> m < int (length xs) then Inl (TypeError ''can only concatenate list'')
      else Inr (PList xs))"
| "truncate_text (PDict d) m =
     (if d \<noteq> [] \<and> m < int (length d) then Inl (TypeError ''unhashable type: slice'')
      else Inr (PDict d))"
| "truncate_text v m =
     (if py_truthy v then Inl (TypeError ''object has no len()'') else Inr v)"

text \<open>\<open>if cond: d[k] = v\<close>.\<close>

definition set_if :: "bool \<Rightarrow> string \<Rightarrow> pyval \<Rightarrow> pydict \<Rightarrow> pydict" where
  "set_if c k v d = (if c then dict_set d k v else d)"

definition author_entry :: "author \<Rightarrow> pyval" where
  "author_entry a = PDict [(''authorId'', authorId a), (''name'', name a)]"

definition paper_to_dict :: "paper \<Rightarrow> error + pyval" where
  "paper_to_dict p =
     (let d1 = set_if (py_truthy (paperId p)) ''paperId'' (paperId p) [];
          d2 = set_if (py_truthy (title p)) ''title'' (title p) d1
      in sum_bind
           (if py_truthy (abstract p)
            then map_sum id (\<lambda>a. dict_set d2 ''abstract'' a) (truncate_text (abstract p) ABSTRACT_MAX)
            else Inr d2)
           (\<lambda>d3.
      let d4 = set_if (py_truthy (year p)) ''year'' (year p) d3;
          d5 = set_if (is_not_none (paper.citationCount p)) ''citationCount'' (paper.citationCount p) d4;
          d6 = set_if (py_truthy (paper.url p)) ''url'' (paper.url p) d5;
          d7 = (case authors p of
                  None \<Rightarrow> d6
                | Some as \<Rightarrow> set_if (as \<noteq> []) ''authors'' (PList (map author_entry as)) d6);
          d8 = set_if (py_truthy (externalIds p)) ''externalIds'' (externalIds p) d7;
          d9 = set_if (py_truthy (venue p)) ''venue'' (venue p) d8;
          d10 = (case publicationDate p of
                   None \<Rightarrow> d9
                 | Some dt \<Rightarrow> dict_set d9 ''publicationDate'' (PStr (date_isoformat dt)));
          d11 = set_if (py_truthy (openAccessPdf p)) ''openAccessPdf'' (openAccessPdf p) d10;
          d12 = (case tldr p of None \<Rightarrow> d11 | Some t \<Rightarrow> dict_set d11 ''tldr'' (tldr_text t))
      in Inr (PDict d12)))"

definition author_to_dict :: "author \<Rightarrow> pyval" where
  "author_to_dict a =
     (let d1 = set_if (py_truthy (authorId a)) ''authorId'' (authorId a) [];
          d2 = set_if (py_truthy (name a)) ''name'' (name a) d1;
          d3 = set_if (py_truthy (author.url a)) ''url'' (author.url a) d2;
          d4 = set_if (is_not_none (paperCount a)) ''paperCount'' (paperCount a) d3;
          d5 = set_if (is_not_none (author.citationCount a)) ''citationCount'' (author.citationCount a) d4;
          d6 = set_if (is_not_none (hIndex a)) ''hIndex'' (hIndex a) d5;
          d7 = set_if (py_truthy (affiliations a)) ''affiliations'' (affiliations a) d6
      in PDict d7)"

section \<open>The dicts the helpers build, as tables\<close>

text \<open>
  A chain of guarded assignments \<open>if c: d[k] = v\<close>, and the table of its entries: the
  guard, the key and the value of each assignment in source order.
\<close>

fun set_all :: "(bool \<times> string \<times> pyval) list \<Rightarrow> pydict \<Rightarrow> pydict" where
  "set_all [] d = d"
| "set_all ((c, k, v) # es) d = set_all es (set_if c k v d)"

definition guarded :: "(bool \<times> string \<times> pyval) list \<Rightarrow> pydict" where
  "guarded es = map snd (filter fst es)"

definition paper_entries :: "paper \<Rightarrow> pyval \<Rightarrow> (bool \<times> string \<times> pyval) list" where
  "paper_entries p ab =
     [(py_truthy (paperId p), ''paperId'', paperId p),
      (py_truthy (title p), ''title'', title p),
      (py_truthy (abstract p), ''abstract'', ab),
      (py_truthy (year p), ''year'', year p),
      (paper.citationCount p \<noteq> PNone, ''citationCount'', paper.citationCount p),
      (py_truthy (paper.url p), ''url'', paper.url p),
      (authors p \<noteq> None \<and> authors p \<noteq> Some [], ''authors'',
         PList (map author_entry (case authors p of None \<Rightarrow> [] | Some as \<Rightarrow> as))),
      (py_truthy (externalIds p), ''externalIds'', externalIds p),
      (py_truthy (venue p), ''venue'', venue p),
      (publicationDate p \<noteq> None, ''publicationDate'',
         (case publicationDate p of None \<Rightarrow> PNone | Some dt \<Rightarrow> PStr (date_isoformat dt))),
      (py_truthy (openAccessPdf p), ''openAccessPdf'', openAccessPdf p),
      (tldr p \<noteq> None, ''tldr'', (case tldr p of None \<Rightarrow> PNone | Some t \<Rightarrow> tldr_text t))]"

definition author_entries :: "author \<Rightarrow> (bool \<times> string \<times> pyval) list" where
  "author_entries a =
     [(py_truthy (authorId a), ''authorId'', authorId a),
      (py_truthy (name a), ''name'', name a),
      (py_truthy (author.url a), ''url'', author.url a),
      (paperCount a \<noteq> PNone, ''paperCount'', paperCount a),
      (author.citationCount a \<noteq> PNone, ''citationCount'', author.citationCount a),
      (hIndex a \<noteq> PNone, ''hIndex'', hIndex a),
      (py_truthy (affiliations a), ''affiliations'', affiliations a)]"

section \<open>Lemmas\<close>

subsection \<open>Guarded assignment chains\<close>

lemma dict_set_fresh: "k \<notin> fst ` set d \<Longrightarrow> dict_set d k v = d @ [(k, v)]"
  by (induction d) auto

lemma set_if_fresh: "k \<notin> fst ` set d \<Longrightarrow> set_if c k v d = d @ (if c then [(k, v)] else [])"
  by (simp add: set_if_def dict_set_fresh)

lemma disjoint_insert_subset: "C \<subseteq> insert k B \<Longrightarrow> k \<notin> A \<Longrightarrow> A \<inter> B = {} \<Longrightarrow> A \<inter> C = {}"
  by blast

lemma set_all_guarded:
  "distinct (map (fst \<circ> snd) es) \<Longrightarrow> set (map (fst \<circ> snd) es) \<inter> fst ` set d = {} \<Longrightarrow>
   set_all es d = d @ guarded es"
proof (induction es arbitrary: d)
  case Nil then show ?case by (simp add: guarded_def)
next
  case (Cons e es)
  obtain c k v where e: "e = (c, k, v)" by (cases e) auto
  with Cons.prems have fresh: "k \<notin> fst ` set d" by auto
  have keys: "fst ` set (set_if c k v d) \<subseteq> insert k (fst ` set d)"
    using fresh by (auto simp: set_if_fresh)
  have knew: "k \<notin> set (map (fst \<circ> snd) es)" using Cons.prems(1) e by simp
  have old: "set (map (fst \<circ> snd) es) \<inter> fst ` set d = {}" using Cons.prems(2) by auto
  have "set (map (fst \<circ> snd) es) \<inter> fst ` set (set_if c k v d) = {}"
    by (rule disjoint_insert_subset [OF keys knew old])
  with Cons.IH [of "set_if c k v d"] Cons.prems e fresh show ?case
    by (simp add: set_if_fresh guarded_def)
qed

lemma option_case_set_if:
  "(case x of None \<Rightarrow> d | Some y \<Rightarrow> dict_set d k (g y)) =
   set_if (x \<noteq> None) k (case x of None \<Rightarrow> PNone | Some y \<Rightarrow> g y) d"
  by (cases x) (simp_all add: set_if_def)

lemma option_list_case_set_if:
  "(case x of None \<Rightarrow> d | Some ys \<Rightarrow> set_if (ys \<noteq> []) k (g ys) d) =
   set_if (x \<noteq> None \<and> x \<noteq> Some []) k (g (case x of None \<Rightarrow> [] | Some ys \<Rightarrow> ys)) d"
  by (cases x) (simp_all add: set_if_def)

lemma paper_to_dict_set_all:
  assumes "truncate_text (abstract p) ABSTRACT_MAX = Inr ab \<or> \<not> py_truthy (abstract p)"
  shows "paper_to_dict p = Inr (PDict (set_all (paper_entries p ab) []))"
proof (cases "py_truthy (abstract p)")
  case True
  with assms have "truncate_text (abstract p) ABSTRACT_MAX = Inr ab" by simp
  with True show ?thesis
    by (simp add: paper_to_dict_def Let_def paper_entries_def option_case_set_if
        option_list_case_set_if set_if_def [of True])
next
  case False
  then show ?thesis
    by (simp add: paper_to_dict_def Let_def paper_entries_def option_case_set_if
        option_list_case_set_if set_if_def [of False])
qed

lemma paper_to_dict_guarded:
  assumes "truncate_text (abstract p) ABSTRACT_MAX = Inr ab \<or> \<not> py_truthy (abstract p)"
  shows "paper_to_dict p = Inr (PDict (guarded (paper_entries p ab)))"
proof -
  have "set_all (paper_entries p ab) [] = [] @ guarded (paper_entries p ab)"
    by (rule set_all_guarded) (simp_all add: paper_entries_def)
  then show ?thesis using paper_to_dict_set_all [OF assms] by simp
qed

lemma guarded_keys_cong:
  "map (\<lambda>(c, k, v). (c, k)) es = map (\<lambda>(c, k, v). (c, k)) es' \<Longrightarrow>
   map fst (guarded es) = map fst (guarded es')"
proof (induction es arbitrary: es')
  case Nil then show ?case by (simp add: guarded_def)
next
  case (Cons e es)
  then obtain e' es2 where es': "es' = e' # es2" by (cases es') auto
  with Cons show ?case by (cases e, cases e') (auto simp: guarded_def)
qed

lemma distinct_guarded_keys:
  "distinct (map (fst \<circ> snd) es) \<Longrightarrow> distinct (map fst (guarded es))"
  by (induction es) (auto simp: guarded_def)

lemma keys_guarded: "fst ` set (guarded es) \<subseteq> (fst \<circ> snd) ` set es"
  unfolding guarded_def by (auto intro!: rev_image_eqI)

lemma map_of_guarded:
  assumes "distinct (map (fst \<circ> snd) es)" and "(c, k, v) \<in> set es"
  shows "map_of (guarded es) k = (if c then Some v else None)"
  using assms
proof (induction es)
  case Nil then show ?case by simp
next
  case (Cons e es)
  obtain c' k' v' where e: "e = (c', k', v')" by (cases e) auto
  show ?case
  proof (cases "e = (c, k, v)")
    case True
    with Cons.prems have "k \<notin> (fst \<circ> snd) ` set es" by auto
    with keys_guarded [of es] have "k \<notin> fst ` set (guarded es)" by blast
    with True show ?thesis by (auto simp: guarded_def map_of_eq_None_iff)
  next
    case False
    with Cons.prems e have "k' \<noteq> k" by force
    with Cons e False show ?thesis by (auto simp: guarded_def)
  qed
qed

lemma author_to_dict_set_all: "author_to_dict a = PDict (set_all (author_entries a) [])"
  by (simp add: author_to_dict_def Let_def author_entries_def)

subsection \<open>Properties of the helpers\<close>

text \<open>
  C5. \<open>_truncate\<close> on a string with a non-negative bound \<open>m\<close>: a string of at most
  \<open>m\<close> characters comes back unchanged, a longer one as its first \<open>m\<close> characters and
  \<open>"..."\<close>; either way at most \<open>m + 3\<close> characters, and nothing is raised.
\<close>

theorem truncate_text_str:
  assumes "0 \<le> m"
  shows "\<exists>r. truncate_text (PStr s) m = Inr (PStr r) \<and> length r \<le> nat m + 3 \<and>
             (if nat m < length s then r = take (nat m) s @ ''...'' else r = s)"
proof -
  have "m < int (length s) \<longleftrightarrow> nat m < length s" using assms by linarith
  then show ?thesis using assms by auto
qed

theorem truncate_text_str_witness:
  "0 \<le> (3::int) \<and>
   truncate_text (PStr ''abstract'') 3 = Inr (PStr ''abs...'') \<and> length ''abs...'' \<le> nat 3 + 3"
  using truncate_text_str [of 3 "''abstract''"] by simp

text \<open>
  C6. \<open>_truncate\<close> raises exactly on a truthy value that is not a string and either has
  no length (a number or \<open>True\<close>) or is a list or dict longer than the bound, which
  cannot be concatenated with \<open>"..."\<close>; \<open>None\<close> and empty values come back unchanged.
\<close>

theorem truncate_text_raises:
  "(\<exists>e. truncate_text v m = Inl e) \<longleftrightarrow>
     py_truthy v \<and>
     (case v of PStr _ \<Rightarrow> False | PList xs \<Rightarrow> m < int (length xs)
              | PDict d \<Rightarrow> m < int (length d) | _ \<Rightarrow> True)"
  by (cases v) auto

text \<open>
  C7. \<open>_paper_to_dict\<close> never raises on a paper whose abstract is a string or \<open>None\<close>,
  and its dict has no repeated key and exactly the keys whose guards hold, in the order of
  the assignments in the source.
\<close>

theorem paper_to_dict_keys:
  assumes "abstract p = PNone \<or> (\<exists>s. abstract p = PStr s)"
  shows "\<exists>d. paper_to_dict p = Inr (PDict d) \<and> distinct (map fst d) \<and>
             map fst d = map (fst \<circ> snd) (filter fst (paper_entries p PNone))"
proof -
  define ab where "ab = projr (truncate_text (abstract p) ABSTRACT_MAX)"
  have ab: "truncate_text (abstract p) ABSTRACT_MAX = Inr ab \<or> \<not> py_truthy (abstract p)"
    using assms by (auto simp: ab_def)
  have keys: "map fst (guarded (paper_entries p ab)) = map fst (guarded (paper_entries p PNone))"
    by (rule guarded_keys_cong) (simp add: paper_entries_def)
  have "distinct (map fst (guarded (paper_entries p ab)))"
    by (rule distinct_guarded_keys) (simp add: paper_entries_def)
  moreover have "map fst (guarded (paper_entries p PNone)) = map (fst \<circ> snd) (filter fst (paper_entries p PNone))"
    by (simp add: guarded_def)
  ultimately show ?thesis using keys paper_to_dict_guarded [OF ab] by simp
qed

theorem paper_to_dict_keys_witness:
  "abstract \<lparr>paperId = PStr ''abc123'', title = PStr ''Test Paper'', abstract = PNone, year = PInt 2023,
      paper.citationCount = PInt 0, paper.url = PNone, authors = Some [], externalIds = PNone,
      venue = PNone, publicationDate = None, openAccessPdf = PNone, tldr = None\<rparr> = PNone \<and>
   paper_to_dict \<lparr>paperId = PStr ''abc123'', title = PStr ''Test Paper'', abstract = PNone, year = PInt 2023,
      paper.citationCount = PInt 0, paper.url = PNone, authors = Some [], externalIds = PNone,
      venue = PNone, publicationDate = None, openAccessPdf = PNone, tldr = None\<rparr> =
   Inr (PDict [(''paperId'', PStr ''abc123''), (''title'', PStr ''Test Paper''), (''year'', PInt 2023),
               (''citationCount'', PInt 0)])"
proof -
  let ?p = "\<lparr>paperId = PStr ''abc123'', title = PStr ''Test Paper'', abstract = PNone, year = PInt 2023,
      paper.citationCount = PInt 0, paper.url = PNone, authors = Some [], externalIds = PNone,
      venue = PNone, publicationDate = None, openAccessPdf = PNone, tldr = None\<rparr>"
  have "abstract ?p = PNone" by simp
  then obtain d where d: "paper_to_dict ?p = Inr (PDict d)"
    and "map fst d = map (fst \<circ> snd) (filter fst (paper_entries ?p PNone))"
    using paper_to_dict_keys [of ?p] by blast
  moreover have "paper_to_dict ?p = Inr (PDict [(''paperId'', PStr ''abc123''), (''title'', PStr ''Test Paper''),
      (''year'', PInt 2023), (''citationCount'', PInt 0)])"
    by (simp add: paper_to_dict_def set_if_def Let_def)
  ultimately show ?thesis by simp
qed

text \<open>
  C8. The abstract \<open>_paper_to_dict\<close> writes is the paper's abstract cut to
  \<open>ABSTRACT_MAX\<close> characters with \<open>"..."\<close> appended when longer: never more than
  303 characters.
\<close>

theorem paper_to_dict_abstract:
  assumes "abstract p = PStr s" and "s \<noteq> []"
  shows "\<exists>d r. paper_to_dict p = Inr (PDict d) \<and> map_of d ''abstract'' = Some (PStr r) \<and>
               length r \<le> 303 \<and> r = (if 300 < length s then take 300 s @ ''...'' else s)"
proof -
  let ?r = "if 300 < length s then take 300 s @ ''...'' else s"
  have tr: "truncate_text (abstract p) ABSTRACT_MAX = Inr (PStr ?r)"
    using assms by (auto simp: ABSTRACT_MAX_def)
  have "map_of (guarded (paper_entries p (PStr ?r))) ''abstract'' = Some (PStr ?r)"
    using assms by (subst map_of_guarded [where c = True and v = "PStr ?r"]) (simp_all add: paper_entries_def)
  then show ?thesis using paper_to_dict_guarded [of p "PStr ?r"] tr by auto
qed

theorem paper_to_dict_abstract_witness:
  "abstract \<lparr>paperId = PNone, title = PNone, abstract = PStr (replicate 350 CHR ''x''), year = PNone,
      paper.citationCount = PNone, paper.url = PNone, authors = None, externalIds = PNone,
      venue = PNone, publicationDate = None, openAccessPdf = PNone, tldr = None\<rparr> = PStr (replicate 350 CHR ''x'') \<and>
   replicate 350 CHR ''x'' \<noteq> [] \<and>
   (\<exists>d r. paper_to_dict \<lparr>paperId = PNone, title = PNone, abstract = PStr (replicate 350 CHR ''x''), year = PNone,
      paper.citationCount = PNone, paper.url = PNone, authors = None, externalIds = PNone,
      venue = PNone, publicationDate = None, openAccessPdf = PNone, tldr = None\<rparr> = Inr (PDict d) \<and>
      map_of d ''abstract'' = Some (PStr r) \<and> length r = 303)"
  using paper_to_dict_abstract [of "\<lparr>paperId = PNone, title = PNone, abstract = PStr (replicate 350 CHR ''x''), year = PNone,
      paper.citationCount = PNone, paper.url = PNone, authors = None, externalIds = PNone,
      venue = PNone, publicationDate = None, openAccessPdf = PNone, tldr = None\<rparr>" "replicate 350 CHR ''x''"]
  by auto

text \<open>
  C9. \<open>_author_to_dict\<close> writes the id, name, url and affiliations only when truthy,
  but the three counts whenever they are not \<open>None\<close>, zero included, each once and in
  source order.
\<close>

theorem author_to_dict_entries: "author_to_dict a = PDict (guarded (author_entries a))"
proof -
  have "set_all (author_entries a) [] = [] @ guarded (author_entries a)"
    by (rule set_all_guarded) (simp_all add: author_entries_def)
  then show ?thesis by (simp add: author_to_dict_set_all)
qed

end
