(* ===== verification/Paged_Result.thy ===== *)
theory Paged_Result
  imports Py_Prelude
begin

text \<open>
  The paginated result the client returns for a listing query (search, citations,
  references, an author's papers). Its class is not among the repository's sources; it is
  modelled from the contract the tool layer relies on: the first page is loaded when the
  query returns, \<open>total\<close> is fixed from that page, items are fetched page by page through
  the fetch capability when an index past the loaded ones is asked for, and every fetch
  appends a whole decoded page or nothing. The fetch count is an observation of the model
  (how many times the capability was called), not a field of the class.
\<close>

section \<open>Pages and the paged result\<close>

text \<open>
  One page as the fetch capability returns it; \<open>page_total\<close> and \<open>page_items\<close> are
  optional because a malformed payload lacks them.
\<close>

record ('r, 'c) page =
  page_total :: "nat option"
  page_items :: "'r list option"
  page_next :: "'c option"

type_synonym ('r, 'c) fetcher = "'c option \<Rightarrow> string + ('r, 'c) page"
type_synonym ('r, 'a) decoder = "'r \<Rightarrow> string + 'a"

record ('a, 'r, 'c) paged_result =
  pr_total :: nat
  loaded_items :: "'a list"
  next_cursor :: "'c option"
  page_fetcher :: "('r, 'c) fetcher"
  item_decoder :: "('r, 'a) decoder"
  fetch_calls :: nat

text \<open>Decoding a page: every item, or the error of the first malformed one.\<close>

fun decode_all :: "('r, 'a) decoder \<Rightarrow> 'r list \<Rightarrow> string + 'a list" where
  "decode_all d [] = Inr []"
| "decode_all d (r # rs) =
     (case d r of
        Inl e \<Rightarrow> Inl e
      | Inr a \<Rightarrow> (case decode_all d rs of Inl e \<Rightarrow> Inl e | Inr as \<Rightarrow> Inr (a # as)))"

section \<open>Operations\<close>

text \<open>
  Construction by the query: fetch the first page (no cursor), require its total and its
  item list, decode the items.
\<close>

definition pr_create :: "('r, 'c) fetcher \<Rightarrow> ('r, 'a) decoder \<Rightarrow> error + ('a, 'r, 'c) paged_result" where
  "pr_create f d =
     (case f None of
        Inl e \<Rightarrow> Inl (RemoteFetchError e)
      | Inr pg \<Rightarrow>
          (case (page_total pg, page_items pg) of
             (Some n, Some rs) \<Rightarrow>
               (case decode_all d rs of
                  Inl e \<Rightarrow> Inl (DecodingError e)
                | Inr xs \<Rightarrow> Inr \<lparr>pr_total = n, loaded_items = xs, next_cursor = page_next pg,
                                 page_fetcher = f, item_decoder = d, fetch_calls = 1\<rparr>)
           | _ \<Rightarrow> Inl InvalidResponseError))"

text \<open>
  One fetch with the current cursor. The call is counted whatever its outcome; the items
  and the cursor change only when the whole page decodes.
\<close>

definition pr_fetch_next :: "'c \<Rightarrow> ('a, 'r, 'c) paged_result \<Rightarrow> (error + unit) \<times> ('a, 'r, 'c) paged_result" where
  "pr_fetch_next c s =
     (let s1 = s\<lparr>fetch_calls := Suc (fetch_calls s)\<rparr> in
      case page_fetcher s (Some c) of
        Inl e \<Rightarrow> (Inl (RemoteFetchError e), s1)
      | Inr pg \<Rightarrow>
          (case page_items pg of
             None \<Rightarrow> (Inl InvalidResponseError, s1)
           | Some rs \<Rightarrow>
               (case decode_all (item_decoder s) rs of
                  Inl e \<Rightarrow> (Inl (DecodingError e), s1)
                | Inr xs \<Rightarrow> (Inr (), s1\<lparr>loaded_items := loaded_items s @ xs,
                                          next_cursor := page_next pg\<rparr>))))"

text \<open>
  The fetch loop behind \<open>get(i)\<close>: fetch pages until index \<open>i\<close> is loaded or the cursor
  is gone. A remote that hands out cursors forever makes it run forever, so it is a
  \<open>partial_function (option)\<close>: \<open>None\<close> is "does not return".
\<close>

partial_function (option) pr_fill ::
  "nat \<Rightarrow> ('a, 'r, 'c) paged_result \<Rightarrow> ((error + unit) \<times> ('a, 'r, 'c) paged_result) option"
where
  "pr_fill i s =
     (if i < length (loaded_items s) then Some (Inr (), s)
      else case next_cursor s of
        None \<Rightarrow> Some (Inl IndexOutOfRangeError, s)
      | Some c \<Rightarrow>
          (case pr_fetch_next c s of
             (Inl e, s') \<Rightarrow> Some (Inl e, s')
           | (Inr _, s') \<Rightarrow> pr_fill i s'))"

declare pr_fill.simps [code]

definition pr_get :: "nat \<Rightarrow> ('a, 'r, 'c) paged_result \<Rightarrow> ((error + 'a) \<times> ('a, 'r, 'c) paged_result) option" where
  "pr_get i s =
     map_option (\<lambda>(r, s'). (case r of Inl e \<Rightarrow> Inl e | Inr _ \<Rightarrow> Inr (loaded_items s' ! i), s'))
       (pr_fill i s)"

text \<open>\<open>len(results)\<close>: the items loaded so far.\<close>

definition pr_len :: "('a, 'r, 'c) paged_result \<Rightarrow> nat" where
  "pr_len s = length (loaded_items s)"

text \<open>
  Iteration from index \<open>i\<close> as a consumer drives it: at most \<open>k\<close> steps, each a
  \<open>get\<close>, and none at or past \<open>total\<close>. A consumer that stops early stops the fetching.
\<close>

fun pr_iter_from ::
  "nat \<Rightarrow> nat \<Rightarrow> ('a, 'r, 'c) paged_result \<Rightarrow> ((error + 'a list) \<times> ('a, 'r, 'c) paged_result) option"
where
  "pr_iter_from i 0 s = Some (Inr [], s)"
| "pr_iter_from i (Suc k) s =
     (if pr_total s \<le> i then Some (Inr [], s)
      else case pr_get i s of
        None \<Rightarrow> None
      | Some (Inl e, s') \<Rightarrow> Some (Inl e, s')
      | Some (Inr x, s') \<Rightarrow>
          (case pr_iter_from (Suc i) k s' of
             None \<Rightarrow> None
           | Some (Inl e, s'') \<Rightarrow> Some (Inl e, s'')
           | Some (Inr xs, s'') \<Rightarrow> Some (Inr (x # xs), s'')))"

text \<open>\<open>list(results)\<close>: iteration from the start, consumed to the end.\<close>

definition pr_list :: "('a, 'r, 'c) paged_result \<Rightarrow> ((error + 'a list) \<times> ('a, 'r, 'c) paged_result) option" where
  "pr_list s = pr_iter_from 0 (pr_total s) s"

text \<open>\<open>slice(start, stop)\<close> of the contract: out of range when \<open>stop > total\<close>.\<close>

definition pr_slice ::
  "nat \<Rightarrow> nat \<Rightarrow> ('a, 'r, 'c) paged_result \<Rightarrow> ((error + 'a list) \<times> ('a, 'r, 'c) paged_result) option"
where
  "pr_slice start stop s =
     (if pr_total s < stop then Some (Inl IndexOutOfRangeError, s)
      else pr_iter_from start (stop - start) s)"

text \<open>
  \<open>results[:n]\<close> with ordinary sequence semantics over the \<open>total\<close> items: a negative
  bound counts from the end and a bound past the end is cut to it.
\<close>

definition pr_slice_to ::
  "int \<Rightarrow> ('a, 'r, 'c) paged_result \<Rightarrow> ((error + 'a list) \<times> ('a, 'r, 'c) paged_result) option"
where
  "pr_slice_to n s =
     pr_iter_from 0 (nat (if n < 0 then int (pr_total s) + n else min n (int (pr_total s)))) s"

section \<open>A consistent remote listing\<close>

text \<open>
  The remote listing behind the capability: the items \<open>xs\<close>, served \<open>psize\<close> at a time
  from an offset cursor, the first page at offset 0, the next offset announced while items
  remain, and the total on every page. This is how the API pages citations, references
  and search results.
\<close>

definition offset_fetcher :: "nat \<Rightarrow> 'r list \<Rightarrow> ('r, nat) fetcher" where
  "offset_fetcher psize xs c =
     (let off = (case c of None \<Rightarrow> 0 | Some k \<Rightarrow> k) in
      Inr \<lparr>page_total = Some (length xs), page_items = Some (take psize (drop off xs)),
           page_next = (if off + psize < length xs then Some (off + psize) else None)\<rparr>)"

text \<open>
  The service answering a listing query whose results are \<open>xs\<close>: a request for a page
  size below 1 is refused, any other is paged at that size and decoded by \<open>f\<close>.
\<close>

definition api_listing :: "('r \<Rightarrow> 'a) \<Rightarrow> 'r list \<Rightarrow> int \<Rightarrow> error + ('a, 'r, nat) paged_result" where
  "api_listing f xs page_size =
     (if page_size < 1 then Inl (RemoteFetchError ''limit must be positive'')
      else pr_create (offset_fetcher (nat page_size) xs) (\<lambda>r. Inr (f r)))"

text \<open>Pages of \<open>psize\<close> items needed to hold the first \<open>n\<close> items.\<close>

definition pages_for :: "nat \<Rightarrow> nat \<Rightarrow> nat" where
  "pages_for psize n = (n + psize - 1) div psize"

text \<open>
  The abstraction: a paged result over the listing \<open>xs\<close>, with item constructor \<open>f\<close>,
  after \<open>fetch_calls\<close> fetches has loaded exactly the first pages and holds the offset of
  the next one while items remain.
\<close>

definition pr_inv :: "nat \<Rightarrow> 'r list \<Rightarrow> ('r \<Rightarrow> 'a) \<Rightarrow> ('a, 'r, nat) paged_result \<Rightarrow> bool" where
  "pr_inv psize xs f s \<longleftrightarrow>
     0 < psize \<and> page_fetcher s = offset_fetcher psize xs \<and> item_decoder s = (\<lambda>r. Inr (f r)) \<and>
     pr_total s = length xs \<and> 0 < fetch_calls s \<and>
     loaded_items s = map f (take (fetch_calls s * psize) xs) \<and>
     next_cursor s = (if fetch_calls s * psize < length xs then Some (fetch_calls s * psize) else None)"

text \<open>
  One state extends another: same total, capability and decoder, the earlier items kept
  in place as a prefix, no fetch undone.
\<close>

definition pr_extends :: "('a, 'r, 'c) paged_result \<Rightarrow> ('a, 'r, 'c) paged_result \<Rightarrow> bool" where
  "pr_extends s s' \<longleftrightarrow>
     pr_total s' = pr_total s \<and> (\<exists>ys. loaded_items s' = loaded_items s @ ys) \<and>
     page_fetcher s' = page_fetcher s \<and> item_decoder s' = item_decoder s \<and>
     fetch_calls s \<le> fetch_calls s'"

text \<open>
  One state is reached from another by page fetches only: each step fetches with the
  current cursor, whatever the fetch returns.
\<close>

inductive pr_fetches :: "('a, 'r, 'c) paged_result \<Rightarrow> ('a, 'r, 'c) paged_result \<Rightarrow> bool" where
  pr_fetches_refl: "pr_fetches s s"
| pr_fetches_step: "next_cursor s = Some c \<Longrightarrow> snd (pr_fetch_next c s) = s1 \<Longrightarrow> pr_fetches s1 s2 \<Longrightarrow> pr_fetches s s2"

section \<open>Example listings\<close>

text \<open>
  A listing of \<open>xs\<close> served two per page, as the query returns it: the first page
  loaded, the next offset announced while items remain.
\<close>

definition example_listing :: "('r \<Rightarrow> 'a) \<Rightarrow> 'r list \<Rightarrow> ('a, 'r, nat) paged_result" where
  "example_listing f xs =
     \<lparr>pr_total = length xs, loaded_items = map f (take 2 xs),
      next_cursor = (if 2 < length xs then Some 2 else None), page_fetcher = offset_fetcher 2 xs,
      item_decoder = (\<lambda>r. Inr (f r)), fetch_calls = 1\<rparr>"

section \<open>Lemmas\<close>

subsection \<open>Decoding and page arithmetic\<close>

lemma decode_all_total [simp]: "decode_all (\<lambda>r. Inr (f r)) rs = Inr (map f rs)"
  by (induction rs) auto

lemma decode_all_Inr_length:
  "decode_all d rs = Inr as \<Longrightarrow> length as = length rs"
  by (induction rs arbitrary: as) (auto split: sum.splits)

lemma pages_for_le_iff:
  "0 < p \<Longrightarrow> pages_for p n \<le> k \<longleftrightarrow> n \<le> k * p"
proof -
  assume p: "0 < p"
  have "pages_for p n < Suc k \<longleftrightarrow> n + p - 1 < Suc k * p"
    unfolding pages_for_def using p by (rule div_less_iff_less_mult)
  also have "\<dots> \<longleftrightarrow> n \<le> k * p" using p by auto
  finally show ?thesis by (simp only: less_Suc_eq_le)
qed

lemma pages_for_Suc: "0 < p \<Longrightarrow> pages_for p (Suc i) = Suc (i div p)"
  by (simp add: pages_for_def div_add_self2 [symmetric] add.commute)

lemma pages_for_mono: "n \<le> m \<Longrightarrow> pages_for p n \<le> pages_for p m"
  by (simp add: pages_for_def div_le_mono)

lemma less_mult_iff_div: "0 < (p::nat) \<Longrightarrow> i < k * p \<longleftrightarrow> i div p < k"
  using div_less_iff_less_mult [of p i k] by simp

subsection \<open>Construction and one fetch on the listing\<close>

lemma pr_create_offset:
  assumes "0 < psize"
  shows "\<exists>s. pr_create (offset_fetcher psize xs) (\<lambda>r. Inr (f r)) = Inr s \<and>
             pr_inv psize xs f s \<and> fetch_calls s = 1"
  using assms by (simp add: pr_create_def offset_fetcher_def pr_inv_def)

lemma api_listing_ok:
  assumes "0 < page_size"
  shows "\<exists>s. api_listing f xs page_size = Inr s \<and> pr_inv (nat page_size) xs f s \<and> fetch_calls s = 1"
  using assms pr_create_offset [of "nat page_size" xs f] by (simp add: api_listing_def)

lemma take_add_page:
  "take k xs @ take p (drop k xs) = take (p + k) xs"
  by (simp add: take_add add.commute)

lemma pr_fetch_next_offset:
  assumes inv: "pr_inv psize xs f s" and c: "next_cursor s = Some c"
  shows "\<exists>s'. pr_fetch_next c s = (Inr (), s') \<and> pr_inv psize xs f s' \<and>
              fetch_calls s' = Suc (fetch_calls s)"
proof -
  from inv c have cc: "c = fetch_calls s * psize" and lt: "fetch_calls s * psize < length xs"
    by (auto simp: pr_inv_def split: if_splits)
  have step: "pr_fetch_next c s = (Inr (), s\<lparr>fetch_calls := Suc (fetch_calls s),
      loaded_items := loaded_items s @ map f (take psize (drop c xs)),
      next_cursor := (if c + psize < length xs then Some (c + psize) else None)\<rparr>)"
    using inv by (simp add: pr_fetch_next_def pr_inv_def offset_fetcher_def)
  show ?thesis
    using inv cc lt unfolding step
    by (simp add: pr_inv_def take_add_page add.commute map_append [symmetric] del: map_append)
qed

subsection \<open>Fetching until an index is loaded, on the listing\<close>

lemma pr_fill_offset:
  assumes "pr_inv psize xs f s"
  shows "\<exists>s'. pr_fill i s = Some (if i < length xs then Inr () else Inl IndexOutOfRangeError, s') \<and>
     pr_inv psize xs f s' \<and>
     fetch_calls s' = max (fetch_calls s) (pages_for psize (if i < length xs then Suc i else length xs))"
  using assms
proof (induction "length xs - fetch_calls s * psize" arbitrary: s rule: less_induct)
  case less
  note inv = less.prems
  have p: "0 < psize" using inv by (simp add: pr_inv_def)
  have len: "length (loaded_items s) = min (fetch_calls s * psize) (length xs)"
    using inv by (simp add: pr_inv_def)
  show ?case
  proof (cases "i < length (loaded_items s)")
    case True
    then have i: "i < length xs" and "Suc i \<le> fetch_calls s * psize" using len by auto
    then have "pages_for psize (Suc i) \<le> fetch_calls s" using p by (simp add: pages_for_le_iff)
    with True i inv show ?thesis by (simp add: pr_fill.simps [of i s] max_def)
  next
    case False
    show ?thesis
    proof (cases "next_cursor s")
      case None
      then have full: "length xs \<le> fetch_calls s * psize"
        using inv by (auto simp: pr_inv_def split: if_splits)
      then have i: "\<not> i < length xs" using False len by auto
      have "pages_for psize (length xs) \<le> fetch_calls s" using full p by (simp add: pages_for_le_iff)
      with False None i inv show ?thesis by (simp add: pr_fill.simps [of i s] max_def)
    next
      case (Some c)
      from pr_fetch_next_offset [OF inv Some] obtain s1 where
        step: "pr_fetch_next c s = (Inr (), s1)" and inv1: "pr_inv psize xs f s1"
        and fc1: "fetch_calls s1 = Suc (fetch_calls s)" by blast
      have lt: "fetch_calls s * psize < length xs"
        using inv Some by (auto simp: pr_inv_def split: if_splits)
      have "length xs - fetch_calls s1 * psize < length xs - fetch_calls s * psize"
        using fc1 lt p by simp
      from less.hyps [OF this inv1] obtain s' where
        rec: "pr_fill i s1 = Some (if i < length xs then Inr () else Inl IndexOutOfRangeError, s')"
        and inv': "pr_inv psize xs f s'"
        and fc': "fetch_calls s' = max (fetch_calls s1)
                    (pages_for psize (if i < length xs then Suc i else length xs))" by blast
      have eq: "pr_fill i s = pr_fill i s1"
        using False Some step by (simp add: pr_fill.simps [of i s])
      have "\<not> pages_for psize (if i < length xs then Suc i else length xs) \<le> fetch_calls s"
        using False len lt p by (simp add: pages_for_le_iff)
      then have "max (fetch_calls s1) (pages_for psize (if i < length xs then Suc i else length xs))
          = max (fetch_calls s) (pages_for psize (if i < length xs then Suc i else length xs))"
        using fc1 by simp
      with eq rec inv' fc' show ?thesis by auto
    qed
  qed
qed

subsection \<open>Get, iteration and slicing on the listing\<close>

lemma pr_get_offset:
  assumes inv: "pr_inv psize xs f s"
  shows "\<exists>s'. pr_get i s = Some (if i < length xs then Inr (f (xs ! i)) else Inl IndexOutOfRangeError, s') \<and>
     pr_inv psize xs f s' \<and>
     fetch_calls s' = max (fetch_calls s) (pages_for psize (if i < length xs then Suc i else length xs))"
proof -
  obtain s' where fill: "pr_fill i s = Some (if i < length xs then Inr () else Inl IndexOutOfRangeError, s')"
    and inv': "pr_inv psize xs f s'"
    and fc': "fetch_calls s' = max (fetch_calls s) (pages_for psize (if i < length xs then Suc i else length xs))"
    using pr_fill_offset [OF inv] by blast
  have "loaded_items s' ! i = f (xs ! i)" if i: "i < length xs"
  proof -
    have p: "0 < psize" using inv by (simp add: pr_inv_def)
    have "pages_for psize (Suc i) \<le> fetch_calls s'" using fc' i by simp
    then have "Suc i \<le> fetch_calls s' * psize" using p by (simp add: pages_for_le_iff)
    then show ?thesis using inv' i by (simp add: pr_inv_def)
  qed
  then show ?thesis using fill inv' fc' by (auto simp: pr_get_def)
qed

lemma pr_iter_from_offset:
  assumes "pr_inv psize xs f s"
  shows "\<exists>s'. pr_iter_from i k s = Some (Inr (map f (take k (drop i xs))), s') \<and>
     pr_inv psize xs f s' \<and>
     fetch_calls s' = (if k = 0 \<or> length xs \<le> i then fetch_calls s
                       else max (fetch_calls s) (pages_for psize (min (i + k) (length xs))))"
  using assms
proof (induction k arbitrary: i s)
  case 0
  then show ?case by simp
next
  case (Suc k)
  note inv = Suc.prems
  have tot: "pr_total s = length xs" using inv by (simp add: pr_inv_def)
  show ?case
  proof (cases "length xs \<le> i")
    case True
    with inv tot show ?thesis by simp
  next
    case False
    then have i: "i < length xs" by simp
    obtain s1 where get: "pr_get i s = Some (Inr (f (xs ! i)), s1)" and inv1: "pr_inv psize xs f s1"
      and fc1: "fetch_calls s1 = max (fetch_calls s) (pages_for psize (Suc i))"
      using pr_get_offset [OF inv, of i] i by auto
    obtain s2 where rec: "pr_iter_from (Suc i) k s1 = Some (Inr (map f (take k (drop (Suc i) xs))), s2)"
      and inv2: "pr_inv psize xs f s2"
      and fc2: "fetch_calls s2 = (if k = 0 \<or> length xs \<le> Suc i then fetch_calls s1
                  else max (fetch_calls s1) (pages_for psize (min (Suc i + k) (length xs))))"
      using Suc.IH [OF inv1] by blast
    have res: "f (xs ! i) # map f (take k (drop (Suc i) xs)) = map f (take (Suc k) (drop i xs))"
      using i by (simp add: Cons_nth_drop_Suc [symmetric])
    have "fetch_calls s2 = max (fetch_calls s) (pages_for psize (min (i + Suc k) (length xs)))"
    proof (cases "k = 0 \<or> length xs \<le> Suc i")
      case True
      then have "min (i + Suc k) (length xs) = Suc i" using i by auto
      with True fc1 fc2 show ?thesis by simp
    next
      case False
      have "pages_for psize (Suc i) \<le> pages_for psize (min (Suc i + k) (length xs))"
        using False i by (intro pages_for_mono) simp
      with False fc1 fc2 show ?thesis by (simp add: max_def)
    qed
    with get rec inv2 res i tot show ?thesis by simp
  qed
qed

lemma pr_list_offset:
  assumes inv: "pr_inv psize xs f s"
  shows "\<exists>s'. pr_list s = Some (Inr (map f xs), s') \<and> pr_inv psize xs f s' \<and>
              fetch_calls s' = max (fetch_calls s) (pages_for psize (length xs))"
proof -
  have tot: "pr_total s = length xs" and p: "0 < psize" using inv by (auto simp: pr_inv_def)
  have "pages_for psize 0 = 0" using p by (simp add: pages_for_def)
  then show ?thesis using pr_iter_from_offset [OF inv, of 0 "length xs"]
    by (auto simp: pr_list_def tot)
qed

lemma pr_slice_to_offset:
  assumes inv: "pr_inv psize xs f s"
  shows "\<exists>s'. pr_slice_to n s = Some (Inr (py_slice_to (map f xs) n), s') \<and> pr_inv psize xs f s' \<and>
              fetch_calls s' = max (fetch_calls s) (pages_for psize (length (py_slice_to xs n)))"
proof -
  have tot: "pr_total s = length xs" and p: "0 < psize" using inv by (auto simp: pr_inv_def)
  define stop where "stop = nat (if n < 0 then int (length xs) + n else min n (int (length xs)))"
  have stop_le: "stop \<le> length xs" by (auto simp: stop_def nat_le_iff)
  have sl: "py_slice_to xs n = take stop xs" "py_slice_to (map f xs) n = map f (take stop xs)"
    by (auto simp: py_slice_to_def stop_def min_def nat_le_iff take_map)
  have z: "pages_for psize 0 = 0" using p by (simp add: pages_for_def)
  have call: "pr_slice_to n s = pr_iter_from 0 stop s"
    by (simp add: pr_slice_to_def tot stop_def)
  obtain s' where it: "pr_iter_from 0 stop s = Some (Inr (map f (take stop xs)), s')"
    and inv': "pr_inv psize xs f s'"
    and fc: "fetch_calls s' = (if stop = 0 \<or> length xs \<le> 0 then fetch_calls s
               else max (fetch_calls s) (pages_for psize (min (0 + stop) (length xs))))"
    using pr_iter_from_offset [OF inv, of 0 stop] by auto
  have "fetch_calls s' = max (fetch_calls s) (pages_for psize stop)"
    using fc stop_le z by (auto simp: min_absorb1)
  with call it inv' sl stop_le show ?thesis by (auto simp: min_absorb2)
qed

lemma pr_inv_all_loaded:
  assumes "pr_inv psize xs f s" and "pages_for psize (length xs) \<le> fetch_calls s"
  shows "loaded_items s = map f xs"
proof -
  have "length xs \<le> fetch_calls s * psize"
    using assms by (simp add: pr_inv_def pages_for_le_iff)
  then show ?thesis using assms(1) by (simp add: pr_inv_def)
qed

lemma pr_slice_offset:
  assumes inv: "pr_inv psize xs f s"
  shows "\<exists>s'. pr_slice start stop s =
           Some (if length xs < stop then Inl IndexOutOfRangeError
                 else Inr (map f (take (stop - start) (drop start xs))), s') \<and>
              pr_inv psize xs f s'"
proof -
  have tot: "pr_total s = length xs" using inv by (simp add: pr_inv_def)
  show ?thesis
    using pr_iter_from_offset [OF inv, of start "stop - start"] inv
    by (auto simp: pr_slice_def tot)
qed

subsection \<open>Frame properties for any fetch capability\<close>

lemma pr_extends_refl [simp]: "pr_extends s s"
  by (simp add: pr_extends_def)

lemma pr_extends_trans [trans]: "pr_extends s1 s2 \<Longrightarrow> pr_extends s2 s3 \<Longrightarrow> pr_extends s1 s3"
  by (auto simp: pr_extends_def)

lemma pr_extends_len: "pr_extends s s' \<Longrightarrow> pr_len s \<le> pr_len s'"
  by (auto simp: pr_extends_def pr_len_def)

lemma pr_extends_nth: "pr_extends s s' \<Longrightarrow> i < length (loaded_items s) \<Longrightarrow> loaded_items s' ! i = loaded_items s ! i"
  by (auto simp: pr_extends_def nth_append)

lemma pr_fetch_next_extends:
  assumes "pr_fetch_next c s = (r, s')"
  shows "pr_extends s s' \<and> fetch_calls s' = Suc (fetch_calls s) \<and>
         (r \<noteq> Inr () \<longrightarrow> loaded_items s' = loaded_items s \<and> next_cursor s' = next_cursor s)"
  using assms by (auto simp: pr_fetch_next_def pr_extends_def Let_def split: sum.splits option.splits)

lemma pr_fill_extends:
  assumes "pr_fill i s = Some res"
  shows "pr_extends s (snd res) \<and> (fst res = Inr () \<longrightarrow> i < length (loaded_items (snd res)))"
proof (rule pr_fill.raw_induct [where P = "\<lambda>i s res. pr_extends s (snd res) \<and>
        (fst res = Inr () \<longrightarrow> i < length (loaded_items (snd res)))", OF _ assms])
  fix fill :: "nat \<Rightarrow> ('a, 'b, 'c) paged_result \<Rightarrow> ((error + unit) \<times> ('a, 'b, 'c) paged_result) option"
    and i s res
  assume IH: "\<And>i s res. fill i s = Some res \<Longrightarrow>
        pr_extends s (snd res) \<and> (fst res = Inr () \<longrightarrow> i < length (loaded_items (snd res)))"
    and body: "(if i < length (loaded_items s) then Some (Inr (), s)
      else case next_cursor s of None \<Rightarrow> Some (Inl IndexOutOfRangeError, s)
      | Some c \<Rightarrow> (case pr_fetch_next c s of (Inl e, s') \<Rightarrow> Some (Inl e, s')
                    | (Inr _, s') \<Rightarrow> fill i s')) = Some res"
  show "pr_extends s (snd res) \<and> (fst res = Inr () \<longrightarrow> i < length (loaded_items (snd res)))"
  proof (cases "i < length (loaded_items s)")
    case True
    with body show ?thesis by auto
  next
    case False
    show ?thesis
    proof (cases "next_cursor s")
      case None
      with False body show ?thesis by auto
    next
      case (Some c)
      obtain r1 s1 where step: "pr_fetch_next c s = (r1, s1)" by fastforce
      have ext1: "pr_extends s s1" using pr_fetch_next_extends [OF step] by blast
      show ?thesis
      proof (cases r1)
        case (Inl e)
        with False Some body step ext1 show ?thesis by auto
      next
        case (Inr u)
        with False Some body step have "fill i s1 = Some res" by simp
        from IH [OF this] ext1 show ?thesis by (blast intro: pr_extends_trans)
      qed
    qed
  qed
qed

lemma pr_get_extends:
  "pr_get i s = Some (r, s') \<Longrightarrow> pr_extends s s'"
  using pr_fill_extends [of i s] by (auto simp: pr_get_def)

lemma pr_get_Inr_loaded:
  assumes "pr_get i s = Some (Inr x, s')"
  shows "i < length (loaded_items s') \<and> x = loaded_items s' ! i"
proof -
  from assms obtain r where fill: "pr_fill i s = Some (r, s')"
    and rx: "(case r of Inl e \<Rightarrow> Inl e | Inr _ \<Rightarrow> Inr (loaded_items s' ! i)) = (Inr x :: error + 'a)"
    by (auto simp: pr_get_def)
  then have "r = Inr ()" by (cases r) auto
  with fill rx show ?thesis using pr_fill_extends [OF fill] by auto
qed

lemma pr_get_loaded:
  "i < length (loaded_items s) \<Longrightarrow> pr_get i s = Some (Inr (loaded_items s ! i), s)"
  by (simp add: pr_get_def pr_fill.simps [of i s])

lemma pr_iter_from_extends:
  "pr_iter_from i k s = Some (r, s') \<Longrightarrow> pr_extends s s'"
proof (induction i k s arbitrary: r s' rule: pr_iter_from.induct)
  case (1 i s)
  then show ?case by simp
next
  case (2 i k s)
  show ?case
  proof (cases "pr_total s \<le> i")
    case True
    with "2.prems" show ?thesis by simp
  next
    case False
    then obtain r1 s1 where get: "pr_get i s = Some (r1, s1)"
      using "2.prems" by (auto split: option.splits)
    have e1: "pr_extends s s1" by (rule pr_get_extends [OF get])
    show ?thesis
    proof (cases r1)
      case (Inl e)
      with False get "2.prems" e1 show ?thesis by simp
    next
      case (Inr x)
      with False get "2.prems" obtain r2 where rec: "pr_iter_from (Suc i) k s1 = Some (r2, s')"
        by (auto split: option.splits sum.splits)
      from "2.IH" [OF False get refl Inr rec] e1 show ?thesis by (blast intro: pr_extends_trans)
    qed
  qed
qed

lemma pr_list_extends: "pr_list s = Some (r, s') \<Longrightarrow> pr_extends s s'"
  by (simp add: pr_list_def pr_iter_from_extends)

lemma pr_slice_to_extends: "pr_slice_to n s = Some (r, s') \<Longrightarrow> pr_extends s s'"
  by (simp add: pr_slice_to_def pr_iter_from_extends)

subsection \<open>Reading loaded items, and failing fetches\<close>

lemma example_listing_inv: "pr_inv 2 xs f (example_listing f xs)"
  by (simp add: pr_inv_def example_listing_def)

lemma pr_fill_fetch_fails:
  assumes "length (loaded_items s) \<le> i" "next_cursor s = Some c" "fst (pr_fetch_next c s) = Inl e"
  shows "pr_fill i s = Some (Inl e, snd (pr_fetch_next c s))"
  using assms by (cases "pr_fetch_next c s") (simp add: pr_fill.simps [of i s])

text \<open>
  Iterating over the loaded items up to the first one not loaded: the iteration ends as
  the fill loop for that item ends when that loop does not load it, with its error or not
  at all. The three ways it can end so follow: a failed page fetch, a cursor that is
  gone, a loop that never returns.
\<close>

lemma pr_iter_from_first_missing:
  assumes "i \<le> length (loaded_items s)" "length (loaded_items s) < i + k"
    "length (loaded_items s) < pr_total s"
    "pr_fill (length (loaded_items s)) s = map_option (\<lambda>(e, s'). (Inl e, s')) r"
  shows "pr_iter_from i k s = map_option (\<lambda>(e, s'). (Inl e, s')) r"
  using assms
proof (induction k arbitrary: i)
  case 0
  then show ?case by simp
next
  case (Suc k)
  show ?case
  proof (cases "i < length (loaded_items s)")
    case True
    have "pr_iter_from (Suc i) k s = map_option (\<lambda>(e, s'). (Inl e, s')) r"
      using Suc.IH [of "Suc i"] Suc.prems True by simp
    then show ?thesis using True Suc.prems pr_get_loaded [OF True]
      by (cases r) auto
  next
    case False
    then have i: "i = length (loaded_items s)" using Suc.prems by simp
    then show ?thesis using Suc.prems by (cases r) (auto simp: pr_get_def)
  qed
qed

lemma pr_iter_from_step_error:
  assumes "i \<le> length (loaded_items s)" "length (loaded_items s) < i + k"
    "length (loaded_items s) < pr_total s" "next_cursor s = Some c" "fst (pr_fetch_next c s) = Inl err"
  shows "pr_iter_from i k s = Some (Inl err, snd (pr_fetch_next c s))"
  using pr_iter_from_first_missing [OF assms(1-3), of "Some (err, snd (pr_fetch_next c s))"]
    pr_fill_fetch_fails [OF order_refl assms(4,5)] by simp

lemma pr_iter_from_exhausted:
  assumes "i \<le> length (loaded_items s)" "length (loaded_items s) < i + k"
    "length (loaded_items s) < pr_total s" "next_cursor s = None"
  shows "pr_iter_from i k s = Some (Inl IndexOutOfRangeError, s)"
proof -
  have "pr_fill (length (loaded_items s)) s = Some (Inl IndexOutOfRangeError, s)"
    using assms(4) by (simp add: pr_fill.simps)
  with pr_iter_from_first_missing [OF assms(1-3), of "Some (IndexOutOfRangeError, s)"]
  show ?thesis by simp
qed

lemma pr_iter_from_Inr:
  "pr_iter_from i k s = Some (Inr ys, s') \<Longrightarrow>
     length ys = min k (pr_total s - i) \<and> length ys \<le> length (loaded_items s') - i \<and>
     take (length ys) (drop i (loaded_items s')) = ys"
proof (induction i k s arbitrary: ys s' rule: pr_iter_from.induct)
  case (1 i s)
  then show ?case by simp
next
  case (2 i k s)
  show ?case
  proof (cases "pr_total s \<le> i")
    case True
    with "2.prems" show ?thesis by simp
  next
    case False
    then obtain r1 s1 where get: "pr_get i s = Some (r1, s1)"
      using "2.prems" by (auto split: option.splits)
    with False "2.prems" obtain x where r1: "r1 = Inr x"
      by (cases r1) auto
    with False get "2.prems" obtain zs where rec: "pr_iter_from (Suc i) k s1 = Some (Inr zs, s')"
      and ys: "ys = x # zs"
      by (auto split: option.splits sum.splits)
    have ih: "length zs = min k (pr_total s1 - Suc i) \<and> length zs \<le> length (loaded_items s') - Suc i \<and>
              take (length zs) (drop (Suc i) (loaded_items s')) = zs"
      by (rule "2.IH" [OF False get refl r1 rec])
    have e1: "pr_extends s s1" by (rule pr_get_extends [OF get])
    have e2: "pr_extends s1 s'" by (rule pr_iter_from_extends [OF rec])
    have x: "i < length (loaded_items s1)" "x = loaded_items s1 ! i"
      using pr_get_Inr_loaded [OF get [unfolded r1]] by auto
    have x': "loaded_items s' ! i = x" using pr_extends_nth [OF e2 x(1)] x(2) by simp
    have tot: "pr_total s1 = pr_total s" using e1 by (simp add: pr_extends_def)
    have i': "i < length (loaded_items s')"
      using x(1) e2 by (auto simp: pr_extends_def)
    have "drop i (loaded_items s') = x # drop (Suc i) (loaded_items s')"
      by (metis Cons_nth_drop_Suc i' x')
    moreover have m: "min (Suc k) (pr_total s - i) = Suc (min k (pr_total s - Suc i))" using False by simp
    moreover from ih tot have "length zs = min k (pr_total s - Suc i)"
      and "length zs \<le> length (loaded_items s') - Suc i"
      and "take (length zs) (drop (Suc i) (loaded_items s')) = zs" by auto
    ultimately show ?thesis using ys i' by (simp, arith)
  qed
qed

lemma pr_slice_to_Inr_loaded:
  assumes "pr_slice_to n s = Some (Inr ys, s')"
  shows "set ys \<subseteq> set (loaded_items s')"
proof -
  obtain k where "pr_iter_from 0 k s = Some (Inr ys, s')"
    using assms by (auto simp: pr_slice_to_def)
  then have "take (length ys) (loaded_items s') = ys" using pr_iter_from_Inr by fastforce
  then show ?thesis by (metis set_take_subset)
qed

lemma pr_iter_from_loaded:
  "i + min k (pr_total s - i) \<le> length (loaded_items s) \<Longrightarrow>
     pr_iter_from i k s = Some (Inr (take (min k (pr_total s - i)) (drop i (loaded_items s))), s)"
proof (induction i k s rule: pr_iter_from.induct)
  case (1 i s)
  then show ?case by simp
next
  case (2 i k s)
  show ?case
  proof (cases "pr_total s \<le> i")
    case True
    then show ?thesis by simp
  next
    case False
    then have lt: "i < length (loaded_items s)" using "2.prems" by simp
    have rec: "pr_iter_from (Suc i) k s =
        Some (Inr (take (min k (pr_total s - Suc i)) (drop (Suc i) (loaded_items s))), s)"
      using "2.IH" [OF False pr_get_loaded [OF lt] refl refl] "2.prems" False by simp
    have m: "min (Suc k) (pr_total s - i) = Suc (min k (pr_total s - Suc i))" using False by simp
    have d: "drop i (loaded_items s) = loaded_items s ! i # drop (Suc i) (loaded_items s)"
      using lt by (simp add: Cons_nth_drop_Suc)
    show ?thesis
      using False rec pr_get_loaded [OF lt] by (simp add: m d)
  qed
qed

text \<open>
  A service that keeps announcing a next page and sends no items: the fill loop never
  returns (fixpoint induction on \<open>pr_fill\<close>), and neither does an iteration that has
  to go past the loaded items.
\<close>

lemma pr_fill_stalls:
  assumes stall: "\<forall>c. \<exists>n c'. page_fetcher s (Some c) = Inr \<lparr>page_total = n, page_items = Some [], page_next = Some c'\<rparr>"
    and cur: "next_cursor s \<noteq> None" and le: "length (loaded_items s) \<le> i"
  shows "pr_fill i s = None"
proof (rule ccontr)
  assume "pr_fill i s \<noteq> None"
  then obtain res where r: "pr_fill i s = Some res" by auto
  have "(\<forall>c. \<exists>n c'. page_fetcher s (Some c) = Inr \<lparr>page_total = n, page_items = Some [], page_next = Some c'\<rparr>) \<longrightarrow>
        next_cursor s \<noteq> None \<longrightarrow> length (loaded_items s) \<le> i \<longrightarrow> False"
  proof (rule pr_fill.raw_induct [where P = "\<lambda>i s res.
        (\<forall>c. \<exists>n c'. page_fetcher s (Some c) = Inr \<lparr>page_total = n, page_items = Some [], page_next = Some c'\<rparr>) \<longrightarrow>
        next_cursor s \<noteq> None \<longrightarrow> length (loaded_items s) \<le> i \<longrightarrow> False", OF _ r])
    fix fill i s res
    assume IH: "\<And>i s res. fill i s = Some res \<Longrightarrow>
        (\<forall>c. \<exists>n c'. page_fetcher s (Some c) = Inr \<lparr>page_total = n, page_items = Some [], page_next = Some c'\<rparr>) \<longrightarrow>
        next_cursor s \<noteq> None \<longrightarrow> length (loaded_items s) \<le> i \<longrightarrow> False"
      and body: "(if i < length (loaded_items s) then Some (Inr (), s)
        else case next_cursor s of None \<Rightarrow> Some (Inl IndexOutOfRangeError, s)
        | Some c \<Rightarrow> (case pr_fetch_next c s of (Inl e, s') \<Rightarrow> Some (Inl e, s')
                      | (Inr _, s') \<Rightarrow> fill i s')) = Some res"
    show "(\<forall>c. \<exists>n c'. page_fetcher s (Some c) = Inr \<lparr>page_total = n, page_items = Some [], page_next = Some c'\<rparr>) \<longrightarrow>
        next_cursor s \<noteq> None \<longrightarrow> length (loaded_items s) \<le> i \<longrightarrow> False"
    proof (intro impI)
    assume st: "\<forall>c. \<exists>n c'. page_fetcher s (Some c) = Inr \<lparr>page_total = n, page_items = Some [], page_next = Some c'\<rparr>"
      and cu: "next_cursor s \<noteq> None" and l: "length (loaded_items s) \<le> i"
    obtain c where c: "next_cursor s = Some c" using cu by auto
    obtain n c' where pg: "page_fetcher s (Some c) = Inr \<lparr>page_total = n, page_items = Some [], page_next = Some c'\<rparr>"
      using st by blast
    let ?s1 = "s\<lparr>fetch_calls := Suc (fetch_calls s), loaded_items := loaded_items s, next_cursor := Some c'\<rparr>"
    have "pr_fetch_next c s = (Inr (), ?s1)" using pg by (simp add: pr_fetch_next_def)
    then have "fill i ?s1 = Some res" using body c l by simp
    from IH [OF this] st l show False by simp
    qed
  qed
  with stall cur le show False by blast
qed

lemma pr_iter_from_fill_None:
  assumes "i \<le> length (loaded_items s)" "length (loaded_items s) < i + k"
    "length (loaded_items s) < pr_total s" "pr_fill (length (loaded_items s)) s = None"
  shows "pr_iter_from i k s = None"
  using pr_iter_from_first_missing [OF assms(1-3), of None] assms(4) by simp

subsection \<open>Consistent listings: the operations return\<close>

lemma pr_list_all:
  assumes inv: "pr_inv psize xs f s"
  shows "\<exists>s'. pr_list s = Some (Inr (map f xs), s') \<and> pr_inv psize xs f s' \<and>
              loaded_items s' = map f xs \<and> fetch_calls s' = max (fetch_calls s) (pages_for psize (length xs))"
proof -
  obtain s' where l: "pr_list s = Some (Inr (map f xs), s')" and inv': "pr_inv psize xs f s'"
    and fc: "fetch_calls s' = max (fetch_calls s) (pages_for psize (length xs))"
    using pr_list_offset [OF inv] by blast
  have "loaded_items s' = map f xs" using pr_inv_all_loaded [OF inv'] fc by simp
  with l inv' fc show ?thesis by blast
qed

lemma pr_inv_total: "pr_inv psize xs f s \<Longrightarrow> pr_total s = length xs"
  by (simp add: pr_inv_def)

lemma api_listing_cases:
  "(\<exists>e. api_listing f xs n = Inl e) \<or> (\<exists>s. api_listing f xs n = Inr s \<and> pr_inv (nat n) xs f s)"
  using api_listing_ok [of n f xs] by (cases "n < 1") (auto simp: api_listing_def)

lemma pr_list_returns: "pr_inv psize xs f s \<Longrightarrow> \<exists>r s'. pr_list s = Some (r, s')"
  using pr_list_all by blast

lemma pr_slice_to_returns: "pr_inv psize xs f s \<Longrightarrow> \<exists>r s'. pr_slice_to n s = Some (r, s')"
  using pr_slice_to_offset by blast

subsection \<open>Fetch steps\<close>

text \<open>
  The operations change the paged result only by page fetches (fixpoint induction for the
  fill loop, computation induction for iteration), and on a consistent listing every
  fetch step keeps the invariant (rule induction).
\<close>

lemma pr_fetches_trans: "pr_fetches s1 s2 \<Longrightarrow> pr_fetches s2 s3 \<Longrightarrow> pr_fetches s1 s3"
  by (induction rule: pr_fetches.induct) (auto intro: pr_fetches_step)

lemma pr_fetches_one: "next_cursor s = Some c \<Longrightarrow> pr_fetches s (snd (pr_fetch_next c s))"
  by (rule pr_fetches_step [OF _ refl pr_fetches_refl])

lemma pr_fill_fetches:
  assumes "pr_fill i s = Some res"
  shows "pr_fetches s (snd res)"
proof (rule pr_fill.raw_induct [where P = "\<lambda>i s res. pr_fetches s (snd res)", OF _ assms])
  fix fill i s res
  assume IH: "\<And>i s res. fill i s = Some res \<Longrightarrow> pr_fetches s (snd res)"
    and body: "(if i < length (loaded_items s) then Some (Inr (), s)
      else case next_cursor s of None \<Rightarrow> Some (Inl IndexOutOfRangeError, s)
      | Some c \<Rightarrow> (case pr_fetch_next c s of (Inl e, s') \<Rightarrow> Some (Inl e, s')
                    | (Inr _, s') \<Rightarrow> fill i s')) = Some res"
  show "pr_fetches s (snd res)"
  proof (cases "i < length (loaded_items s) \<or> next_cursor s = None")
    case True
    with body have "snd res = s" by (auto split: if_splits)
    then show ?thesis using pr_fetches.pr_fetches_refl [of s] by simp
  next
    case False
    then obtain c where c: "next_cursor s = Some c" by auto
    obtain r1 s1 where step: "pr_fetch_next c s = (r1, s1)" by fastforce
    have one: "pr_fetches s s1" using pr_fetches_one [OF c] step by simp
    show ?thesis
    proof (cases r1)
      case (Inl e)
      with False c body step one show ?thesis by auto
    next
      case (Inr u)
      with False c body step have "fill i s1 = Some res" by simp
      from pr_fetches_trans [OF one IH [OF this]] show ?thesis .
    qed
  qed
qed

lemma pr_get_fetches: "pr_get i s = Some (r, s') \<Longrightarrow> pr_fetches s s'"
  using pr_fill_fetches [of i s] by (auto simp: pr_get_def)

lemma pr_iter_from_fetches: "pr_iter_from i k s = Some (r, s') \<Longrightarrow> pr_fetches s s'"
proof (induction i k s arbitrary: r s' rule: pr_iter_from.induct)
  case (1 i s)
  then show ?case by (simp add: pr_fetches_refl)
next
  case (2 i k s)
  show ?case
  proof (cases "pr_total s \<le> i")
    case True
    with "2.prems" show ?thesis by (simp add: pr_fetches_refl)
  next
    case False
    then obtain r1 s1 where get: "pr_get i s = Some (r1, s1)"
      using "2.prems" by (auto split: option.splits)
    have f1: "pr_fetches s s1" by (rule pr_get_fetches [OF get])
    show ?thesis
    proof (cases r1)
      case (Inl e)
      with False get "2.prems" f1 show ?thesis by simp
    next
      case (Inr x)
      with False get "2.prems" obtain r2 where rec: "pr_iter_from (Suc i) k s1 = Some (r2, s')"
        by (auto split: option.splits sum.splits)
      from pr_fetches_trans [OF f1 "2.IH" [OF False get refl Inr rec]] show ?thesis .
    qed
  qed
qed

lemma pr_fetches_inv:
  "pr_fetches s s' \<Longrightarrow> pr_inv psize xs f s \<Longrightarrow> pr_inv psize xs f s'"
proof (induction rule: pr_fetches.induct)
  case (pr_fetches_refl s)
  then show ?case .
next
  case (pr_fetches_step s c s1 s2)
  obtain s' where "pr_fetch_next c s = (Inr (), s')" "pr_inv psize xs f s'"
    using pr_fetch_next_offset [OF pr_fetches_step.prems pr_fetches_step.hyps(1)] by blast
  with pr_fetches_step show ?case by simp
qed

end
