(* ===== verification/Tools.thy ===== *)
theory Tools
  imports Helpers Paged_Result
begin

text \<open>
  The tool handlers of src/semanticscholar/mcp_server.py. A handler takes the client
  method it calls as a parameter (the module-level client \<open>_sch\<close> is the library's),
  builds the request from its arguments, and returns the value it hands to
  \<open>json.dumps\<close>, or the exception that escapes it. The listing handlers are split in
  two: the call to the client, and the part that consumes the paged result, which also
  returns the paged result's final state, so that what was fetched can be observed. The
  helpers they call are in \<open>Helpers\<close>.
\<close>

section \<open>Requests to the client\<close>

text \<open>
  The keyword arguments of \<open>_sch.search_paper\<close> and \<open>_sch.search_snippet\<close>, and of
  the listing calls (\<open>lr_arg\<close> is the positional argument: a paper id, an author id or
  a query).
\<close>

record search_request =
  sr_query :: string
  sr_year :: "string option"
  sr_fields_of_study :: "string list option"
  sr_publication_date_or_year :: "string option"
  sr_min_citation_count :: "int option"
  sr_limit :: int

record listing_request =
  lr_arg :: string
  lr_fields :: "string list option"
  lr_limit :: int

text \<open>\<open>fos = fields_of_study.split(",") if fields_of_study else None\<close>.\<close>

definition fields_of_study_arg :: "string option \<Rightarrow> string list option" where
  "fields_of_study_arg fos =
     (case fos of None \<Rightarrow> None | Some s \<Rightarrow> if s \<noteq> [] then Some (py_split (CHR '','') s) else None)"

definition search_request_of ::
  "int \<Rightarrow> string \<Rightarrow> string option \<Rightarrow> string option \<Rightarrow> string option \<Rightarrow> int option \<Rightarrow> int \<Rightarrow> search_request"
where
  "search_request_of cap query year_arg fos_arg pdy_arg mcc_arg limit_arg =
     \<lparr>sr_query = query, sr_year = year_arg, sr_fields_of_study = fields_of_study_arg fos_arg,
      sr_publication_date_or_year = pdy_arg, sr_min_citation_count = mcc_arg,
      sr_limit = min limit_arg cap\<rparr>"

section \<open>Tool handlers\<close>

type_synonym ('a, 'r, 'c) consumed = "((error + pyval) \<times> ('a, 'r, 'c) paged_result) option"

subsection \<open>search_papers\<close>

definition search_papers_consume :: "int \<Rightarrow> (paper, 'r, 'c) paged_result \<Rightarrow> (paper, 'r, 'c) consumed" where
  "search_papers_consume limit_arg results =
     (case pr_slice_to limit_arg results of
        None \<Rightarrow> None
      | Some (Inl e, s) \<Rightarrow> Some (Inl e, s)
      | Some (Inr ps, s) \<Rightarrow>
          Some (map_sum id (\<lambda>papers. PDict [(''total'', PInt (int (pr_total s))), (''papers'', PList papers)])
                  (py_map paper_to_dict ps), s))"

definition search_papers ::
  "(search_request \<Rightarrow> error + (paper, 'r, 'c) paged_result) \<Rightarrow> string \<Rightarrow> string option \<Rightarrow>
   string option \<Rightarrow> string option \<Rightarrow> int option \<Rightarrow> int \<Rightarrow> (error + pyval) option"
where
  "search_papers search_paper query year_arg fos_arg pdy_arg mcc_arg limit_arg =
     (case search_paper (search_request_of 100 query year_arg fos_arg pdy_arg mcc_arg limit_arg) of
        Inl e \<Rightarrow> Some (Inl e)
      | Inr results \<Rightarrow> map_option fst (search_papers_consume limit_arg results))"

subsection \<open>get_paper\<close>

definition get_paper :: "(string \<Rightarrow> error + paper) \<Rightarrow> string \<Rightarrow> error + pyval" where
  "get_paper sch_get_paper paper_id = sum_bind (sch_get_paper paper_id) paper_to_dict"

subsection \<open>get_paper_citations and get_paper_references\<close>

text \<open>
  \<open>for item in items: if item.paper: out.append({"paperId": ..., "title": ...})\<close>.
\<close>

fun linked_papers :: "('i \<Rightarrow> paper option) \<Rightarrow> 'i list \<Rightarrow> pyval list" where
  "linked_papers sel [] = []"
| "linked_papers sel (i # is) =
     (case sel i of
        None \<Rightarrow> linked_papers sel is
      | Some p \<Rightarrow> PDict [(''paperId'', paperId p), (''title'', title p)] # linked_papers sel is)"

definition get_paper_citations_consume :: "int \<Rightarrow> (citation, 'r, 'c) paged_result \<Rightarrow> (citation, 'r, 'c) consumed" where
  "get_paper_citations_consume limit_arg results =
     (case pr_list results of
        None \<Rightarrow> None
      | Some (Inl e, s) \<Rightarrow> Some (Inl e, s)
      | Some (Inr items, s) \<Rightarrow>
          Some (Inr (PDict [(''total'', PInt (int (pr_len s))),
                            (''citations'', PList (linked_papers citation.paper (py_slice_to items limit_arg)))]), s))"

definition get_paper_citations ::
  "(listing_request \<Rightarrow> error + (citation, 'r, 'c) paged_result) \<Rightarrow> string \<Rightarrow> int \<Rightarrow> (error + pyval) option"
where
  "get_paper_citations sch_get_paper_citations paper_id limit_arg =
     (case sch_get_paper_citations \<lparr>lr_arg = paper_id, lr_fields = Some [''title''], lr_limit = min limit_arg 1000\<rparr> of
        Inl e \<Rightarrow> Some (Inl e)
      | Inr results \<Rightarrow> map_option fst (get_paper_citations_consume limit_arg results))"

definition get_paper_references_consume :: "int \<Rightarrow> (reference, 'r, 'c) paged_result \<Rightarrow> (reference, 'r, 'c) consumed" where
  "get_paper_references_consume limit_arg results =
     (case pr_list results of
        None \<Rightarrow> None
      | Some (Inl e, s) \<Rightarrow> Some (Inl e, s)
      | Some (Inr items, s) \<Rightarrow>
          Some (Inr (PDict [(''total'', PInt (int (pr_len s))),
                            (''references'', PList (linked_papers reference.paper (py_slice_to items limit_arg)))]), s))"

definition get_paper_references ::
  "(listing_request \<Rightarrow> error + (reference, 'r, 'c) paged_result) \<Rightarrow> string \<Rightarrow> int \<Rightarrow> (error + pyval) option"
where
  "get_paper_references sch_get_paper_references paper_id limit_arg =
     (case sch_get_paper_references \<lparr>lr_arg = paper_id, lr_fields = Some [''title''], lr_limit = min limit_arg 1000\<rparr> of
        Inl e \<Rightarrow> Some (Inl e)
      | Inr results \<Rightarrow> map_option fst (get_paper_references_consume limit_arg results))"

subsection \<open>search_snippets\<close>

definition snippet_entry :: "snippet_search_result \<Rightarrow> pyval" where
  "snippet_entry r =
     (let d1 = [(''score'', score r)];
          d2 = (case snippet_search_result.paper r of
                  None \<Rightarrow> d1
                | Some p \<Rightarrow> dict_set d1 ''paper''
                            (PDict [(''paperId'', paperId p), (''title'', title p), (''year'', year p)]));
          d3 = (case snippet r of
                  None \<Rightarrow> d2
                | Some sn \<Rightarrow> dict_set d2 ''snippet''
                             (PDict [(''text'', snippet_text sn), (''kind'', snippetKind sn),
                                     (''section'', snippet_section sn)]))
      in PDict d3)"

definition search_snippets ::
  "(search_request \<Rightarrow> error + snippet_search_result list) \<Rightarrow> string \<Rightarrow> string option \<Rightarrow>
   string option \<Rightarrow> string option \<Rightarrow> int option \<Rightarrow> int \<Rightarrow> error + pyval"
where
  "search_snippets search_snippet query year_arg fos_arg pdy_arg mcc_arg limit_arg =
     sum_bind (search_snippet (search_request_of 1000 query year_arg fos_arg pdy_arg mcc_arg limit_arg))
       (\<lambda>results. Inr (PDict [(''results'', PList (map snippet_entry results))]))"

subsection \<open>search_authors, get_author, get_author_papers\<close>

definition search_authors_consume :: "int \<Rightarrow> (author, 'r, 'c) paged_result \<Rightarrow> (author, 'r, 'c) consumed" where
  "search_authors_consume limit_arg results =
     (case pr_list results of
        None \<Rightarrow> None
      | Some (Inl e, s) \<Rightarrow> Some (Inl e, s)
      | Some (Inr items, s) \<Rightarrow>
          Some (Inr (PDict [(''total'', PInt (int (pr_total s))),
                            (''authors'', PList (map author_to_dict (py_slice_to items limit_arg)))]), s))"

definition search_authors ::
  "(listing_request \<Rightarrow> error + (author, 'r, 'c) paged_result) \<Rightarrow> string \<Rightarrow> int \<Rightarrow> (error + pyval) option"
where
  "search_authors search_author query limit_arg =
     (case search_author \<lparr>lr_arg = query, lr_fields = None, lr_limit = min limit_arg 1000\<rparr> of
        Inl e \<Rightarrow> Some (Inl e)
      | Inr results \<Rightarrow> map_option fst (search_authors_consume limit_arg results))"

definition get_author :: "(string \<Rightarrow> error + author) \<Rightarrow> string \<Rightarrow> error + pyval" where
  "get_author sch_get_author author_id = sum_bind (sch_get_author author_id) (\<lambda>a. Inr (author_to_dict a))"

definition get_author_papers_consume :: "int \<Rightarrow> (paper, 'r, 'c) paged_result \<Rightarrow> (paper, 'r, 'c) consumed" where
  "get_author_papers_consume limit_arg results =
     (case pr_list results of
        None \<Rightarrow> None
      | Some (Inl e, s) \<Rightarrow> Some (Inl e, s)
      | Some (Inr items, s) \<Rightarrow>
          Some (map_sum id (\<lambda>papers. PDict [(''total'', PInt (int (pr_len s))), (''papers'', PList papers)])
                  (py_map paper_to_dict (py_slice_to items limit_arg)), s))"

definition get_author_papers ::
  "(listing_request \<Rightarrow> error + (paper, 'r, 'c) paged_result) \<Rightarrow> string \<Rightarrow> int \<Rightarrow> (error + pyval) option"
where
  "get_author_papers sch_get_author_papers author_id limit_arg =
     (case sch_get_author_papers \<lparr>lr_arg = author_id, lr_fields = None, lr_limit = min limit_arg 1000\<rparr> of
        Inl e \<Rightarrow> Some (Inl e)
      | Inr results \<Rightarrow> map_option fst (get_author_papers_consume limit_arg results))"

subsection \<open>get_recommendations\<close>

text \<open>The client returns a plain list here; \<open>results[:limit]\<close> is list slicing.\<close>

definition get_recommendations ::
  "(listing_request \<Rightarrow> error + paper list) \<Rightarrow> string \<Rightarrow> int \<Rightarrow> error + pyval"
where
  "get_recommendations sch_get_recommended_papers paper_id limit_arg =
     sum_bind (sch_get_recommended_papers \<lparr>lr_arg = paper_id, lr_fields = None, lr_limit = min limit_arg 500\<rparr>)
       (\<lambda>results. sum_bind (py_map paper_to_dict (py_slice_to results limit_arg))
          (\<lambda>papers. Inr (PDict [(''papers'', PList papers)])))"

section \<open>The entries of a snippet result, as a table\<close>

definition snippet_entries :: "snippet_search_result \<Rightarrow> (bool \<times> string \<times> pyval) list" where
  "snippet_entries r =
     [(True, ''score'', score r),
      (snippet_search_result.paper r \<noteq> None, ''paper'',
         (case snippet_search_result.paper r of None \<Rightarrow> PNone
          | Some p \<Rightarrow> PDict [(''paperId'', paperId p), (''title'', title p), (''year'', year p)])),
      (snippet r \<noteq> None, ''snippet'',
         (case snippet r of None \<Rightarrow> PNone
          | Some sn \<Rightarrow> PDict [(''text'', snippet_text sn), (''kind'', snippetKind sn),
                                (''section'', snippet_section sn)]))]"

section \<open>Lemmas\<close>

lemma snippet_entry_guarded: "snippet_entry r = PDict (guarded (snippet_entries r))"
  by (simp add: snippet_entry_def snippet_entries_def guarded_def split: option.splits)

lemma wf_snippet_entry: "snippet_result_wf r \<Longrightarrow> wf_pyval (snippet_entry r)"
  by (cases "snippet_search_result.paper r"; cases "snippet r")
     (simp_all add: snippet_entry_def snippet_result_wf_def)

section \<open>Properties of the handlers\<close>

subsection \<open>Requests\<close>

text \<open>
  C10. The \<open>fields_of_study\<close> list passed to the client is a faithful split of the
  argument: the pieces joined with commas give the argument back, no piece contains a
  comma, and there is one piece more than there are commas; an empty or absent argument
  passes \<open>None\<close>.
\<close>

theorem fields_of_study_split:
  assumes "fields_of_study_arg fos = Some ws"
  shows "fos = Some (py_join (CHR '','') ws) \<and> (\<forall>w\<in>set ws. CHR '','' \<notin> set w) \<and>
         length ws = Suc (count_list (py_join (CHR '','') ws) (CHR '',''))"
proof -
  obtain s where fos: "fos = Some s" and ne: "s \<noteq> []" and ws: "ws = py_split (CHR '','') s"
    using assms by (auto simp: fields_of_study_arg_def split: option.splits if_splits)
  show ?thesis
    using py_split_pieces [of _ "CHR '',''" s] length_py_split [of "CHR '',''" s]
    by (simp add: fos ws)
qed

theorem fields_of_study_split_witness:
  "fields_of_study_arg (Some ''Computer Science,Mathematics'') = Some [''Computer Science'', ''Mathematics''] \<and>
   Some ''Computer Science,Mathematics'' = Some (py_join (CHR '','') [''Computer Science'', ''Mathematics''])"
proof -
  have eq: "fields_of_study_arg (Some ''Computer Science,Mathematics'') = Some [''Computer Science'', ''Mathematics'']"
    by (simp add: fields_of_study_arg_def)
  from fields_of_study_split [OF eq] eq show ?thesis by simp
qed

subsection \<open>search_snippets and get_recommendations\<close>

text \<open>
  C21. search_snippets answers with one entry per result the client returns, in order
  (the tool does not cut the results to \<open>limit\<close> itself), each entry with the key
  \<open>score\<close>, then \<open>paper\<close> when the result has a paper and \<open>snippet\<close> when it has a
  snippet, each once.
\<close>

theorem search_snippets_entries:
  assumes "search_snippet (search_request_of 1000 query year_arg fos_arg pdy_arg mcc_arg limit_arg) = Inr rs"
  shows "search_snippets search_snippet query year_arg fos_arg pdy_arg mcc_arg limit_arg =
           Inr (PDict [(''results'', PList (map (\<lambda>r. PDict (guarded (snippet_entries r))) rs))]) \<and>
         (\<forall>r \<in> set rs. map fst (guarded (snippet_entries r)) =
            [''score''] @ (if snippet_search_result.paper r = None then [] else [''paper''])
                        @ (if snippet r = None then [] else [''snippet'']))"
  using assms by (simp add: search_snippets_def snippet_entry_guarded snippet_entries_def guarded_def)

theorem search_snippets_entries_witness:
  "search_snippets (\<lambda>_. Inr [\<lparr>snippet_search_result.paper = None, snippet = None, score = PFloat (1/2), ssr_data = PDict []\<rparr>])
     ''attention'' None None None None 10 =
   Inr (PDict [(''results'', PList [PDict [(''score'', PFloat (1/2))]])])"
proof -
  have "search_snippets (\<lambda>_. Inr [\<lparr>snippet_search_result.paper = None, snippet = None, score = PFloat (1/2), ssr_data = PDict []\<rparr>])
     ''attention'' None None None None 10 =
     Inr (PDict [(''results'', PList (map (\<lambda>r. PDict (guarded (snippet_entries r)))
        [\<lparr>snippet_search_result.paper = None, snippet = None, score = PFloat (1/2), ssr_data = PDict []\<rparr>]))])"
    using search_snippets_entries [of "\<lambda>_. Inr [\<lparr>snippet_search_result.paper = None, snippet = None, score = PFloat (1/2), ssr_data = PDict []\<rparr>]"]
    by simp
  then show ?thesis by (simp add: snippet_entries_def guarded_def)
qed

text \<open>
  C22. get_recommendations answers with \<open>min(limit, n)\<close> papers out of the \<open>n\<close> the
  client returns for a non-negative \<open>limit\<close>; a negative \<open>limit\<close>, which the tool
  passes on unchecked, drops the last \<open>-limit\<close> papers instead.
\<close>

theorem get_recommendations_count:
  assumes "sch \<lparr>lr_arg = paper_id, lr_fields = None, lr_limit = min limit_arg 500\<rparr> = Inr rs"
    and "get_recommendations sch paper_id limit_arg = Inr (PDict [(''papers'', PList ds)])"
  shows "length ds = (if limit_arg < 0 then length rs - nat (- limit_arg) else min (nat limit_arg) (length rs))"
proof -
  obtain ps where "py_map paper_to_dict (py_slice_to rs limit_arg) = Inr ps" and "ds = ps"
    using assms by (auto simp: get_recommendations_def sum_bind_eq_Inr)
  then have "length ds = length (py_slice_to rs limit_arg)"
    by (simp add: py_map_Inr_iff list_all2_lengthD)
  then show ?thesis by (auto simp: py_slice_to_def nat_add_distrib)
qed

theorem get_recommendations_count_witness:
  "(\<lambda>_. Inr [example_paper ''p1'', example_paper ''p2'', example_paper ''p3''])
     \<lparr>lr_arg = ''p0'', lr_fields = None, lr_limit = min (-1) 500\<rparr> =
     (Inr [example_paper ''p1'', example_paper ''p2'', example_paper ''p3''] :: error + paper list) \<and>
   get_recommendations (\<lambda>_. Inr [example_paper ''p1'', example_paper ''p2'', example_paper ''p3'']) ''p0'' (-1) =
     Inr (PDict [(''papers'', PList [PDict [(''paperId'', PStr ''p1''), (''title'', PStr ''On p1'')],
                                     PDict [(''paperId'', PStr ''p2''), (''title'', PStr ''On p2'')]])]) \<and>
   length [PDict [(''paperId'', PStr ''p1''), (''title'', PStr ''On p1'')],
           PDict [(''paperId'', PStr ''p2''), (''title'', PStr ''On p2'')]] = 2"
proof -
  have g: "get_recommendations (\<lambda>_. Inr [example_paper ''p1'', example_paper ''p2'', example_paper ''p3'']) ''p0'' (-1) =
     Inr (PDict [(''papers'', PList [PDict [(''paperId'', PStr ''p1''), (''title'', PStr ''On p1'')],
                                     PDict [(''paperId'', PStr ''p2''), (''title'', PStr ''On p2'')]])])"
    by (simp add: get_recommendations_def py_slice_to_def example_paper_def paper_to_dict_def set_if_def Let_def)
  show ?thesis using get_recommendations_count [OF _ g] g by simp
qed

subsection \<open>get_paper\<close>

subsection \<open>The client call of every tool\<close>

text \<open>
  C28. Every tool lets the exception of its client call escape unchanged: no retry, no
  fallback answer.
\<close>

theorem tools_propagate_client_errors:
  "search_papers (\<lambda>_. Inl e) query year_arg fos_arg pdy_arg mcc_arg limit_arg = Some (Inl e) \<and>
   get_paper (\<lambda>_. Inl e) paper_id = Inl e \<and>
   get_paper_citations (\<lambda>_. Inl e) paper_id limit_arg = Some (Inl e) \<and>
   get_paper_references (\<lambda>_. Inl e) paper_id limit_arg = Some (Inl e) \<and>
   search_snippets (\<lambda>_. Inl e) query year_arg fos_arg pdy_arg mcc_arg limit_arg = Inl e \<and>
   search_authors (\<lambda>_. Inl e) query limit_arg = Some (Inl e) \<and>
   get_author (\<lambda>_. Inl e) author_id = Inl e \<and>
   get_author_papers (\<lambda>_. Inl e) author_id limit_arg = Some (Inl e) \<and>
   get_recommendations (\<lambda>_. Inl e) paper_id limit_arg = Inl e"
  by (simp add: search_papers_def get_paper_def get_paper_citations_def get_paper_references_def
      search_snippets_def search_authors_def get_author_def get_author_papers_def get_recommendations_def)

text \<open>
  C29. Each tool that takes a \<open>limit\<close> consults the client only at one request, and that
  request carries the limit clamped to the tool's cap: 100 for search_papers, 500 for
  get_recommendations, 1000 for the others.
\<close>

theorem tools_client_request:
  "search_papers c query year_arg fos_arg pdy_arg mcc_arg limit_arg =
     search_papers (\<lambda>_. c (search_request_of 100 query year_arg fos_arg pdy_arg mcc_arg limit_arg))
       query year_arg fos_arg pdy_arg mcc_arg limit_arg \<and>
   sr_limit (search_request_of 100 query year_arg fos_arg pdy_arg mcc_arg limit_arg) = min limit_arg 100 \<and>
   search_snippets c' query year_arg fos_arg pdy_arg mcc_arg limit_arg =
     search_snippets (\<lambda>_. c' (search_request_of 1000 query year_arg fos_arg pdy_arg mcc_arg limit_arg))
       query year_arg fos_arg pdy_arg mcc_arg limit_arg \<and>
   sr_limit (search_request_of 1000 query year_arg fos_arg pdy_arg mcc_arg limit_arg) = min limit_arg 1000 \<and>
   get_paper_citations cc paper_id limit_arg =
     get_paper_citations (\<lambda>_. cc \<lparr>lr_arg = paper_id, lr_fields = Some [''title''], lr_limit = min limit_arg 1000\<rparr>)
       paper_id limit_arg \<and>
   get_paper_references cr paper_id limit_arg =
     get_paper_references (\<lambda>_. cr \<lparr>lr_arg = paper_id, lr_fields = Some [''title''], lr_limit = min limit_arg 1000\<rparr>)
       paper_id limit_arg \<and>
   search_authors ca query limit_arg =
     search_authors (\<lambda>_. ca \<lparr>lr_arg = query, lr_fields = None, lr_limit = min limit_arg 1000\<rparr>) query limit_arg \<and>
   get_author_papers cp author_id limit_arg =
     get_author_papers (\<lambda>_. cp \<lparr>lr_arg = author_id, lr_fields = None, lr_limit = min limit_arg 1000\<rparr>) author_id limit_arg \<and>
   get_recommendations cm paper_id limit_arg =
     get_recommendations (\<lambda>_. cm \<lparr>lr_arg = paper_id, lr_fields = None, lr_limit = min limit_arg 500\<rparr>) paper_id limit_arg"
  by (simp add: search_papers_def search_request_of_def get_paper_citations_def get_paper_references_def
      search_snippets_def search_authors_def get_author_papers_def get_recommendations_def)

end
