(* ===== verification/Paged_Contract.thy ===== *)
theory Paged_Contract
  imports Paged_Result
begin

text \<open>
  The contract the specification states for the paged result (its section on acceptance
  properties), proved of the model in \<open>Paged_Result\<close>: \<open>get\<close> returns for every index
  below the total of a consistent listing and fails past it, iteration is finite and
  restartable, slices of loaded items fetch nothing, the example of five items in pages of
  two costs three fetches, and fetch, decoding and response errors surface unchanged with
  the loaded items untouched. The properties marked "whatever the fetch capability does"
  hold for every capability, not only for a consistent listing.
\<close>

section \<open>The example of the specification\<close>

text \<open>
  The listing of the specification's example: five items in pages of two, behind the
  cursors \<open>None\<close>, \<open>"c1"\<close>, \<open>"c2"\<close>.
\<close>

definition spec_fetcher :: "(string, string) fetcher" where
  "spec_fetcher c =
     (case c of
        None \<Rightarrow> Inr \<lparr>page_total = Some 5, page_items = Some [''p1'', ''p2''], page_next = Some ''c1''\<rparr>
      | Some k \<Rightarrow>
          (if k = ''c1'' then Inr \<lparr>page_total = Some 5, page_items = Some [''p3'', ''p4''], page_next = Some ''c2''\<rparr>
           else if k = ''c2'' then Inr \<lparr>page_total = Some 5, page_items = Some [''p5''], page_next = None\<rparr>
           else Inl ''unknown cursor''))"

section \<open>The contract\<close>

text \<open>
  The tool handlers rely on these facts; the properties of the handlers that follow from
  them are stated in \<open>Tool_Paging\<close>.
\<close>

text \<open>
  For a consistent listing, \<open>get(i)\<close> with \<open>i < total\<close> returns the \<open>i\<close>-th item
  of the listing, and fetches exactly the pages up to the one holding it that are not yet
  loaded: none when it is already loaded.
\<close>

theorem pr_get_total:
  assumes "pr_inv psize xs f s" "i < pr_total s"
  shows "\<exists>s'. pr_get i s = Some (Inr (f (xs ! i)), s') \<and> pr_inv psize xs f s' \<and>
              fetch_calls s' = max (fetch_calls s) (pages_for psize (Suc i))"
proof -
  have "i < length xs" using assms by (simp add: pr_inv_def)
  then show ?thesis using pr_get_offset [OF assms(1), of i] by simp
qed

theorem pr_get_total_witness:
  "pr_inv 2 [''a'', ''b'', ''c''] id (example_listing id [''a'', ''b'', ''c'']) \<and>
   2 < pr_total (example_listing id [''a'', ''b'', ''c'']) \<and>
   (\<exists>s'. pr_get 2 (example_listing id [''a'', ''b'', ''c'']) = Some (Inr ''c'', s') \<and> fetch_calls s' = 2)"
proof -
  have inv: "pr_inv 2 [''a'', ''b'', ''c''] id (example_listing id [''a'', ''b'', ''c''])"
    by (rule example_listing_inv)
  have lt: "2 < pr_total (example_listing id [''a'', ''b'', ''c''])" by (simp add: example_listing_def)
  have pg: "max (fetch_calls (example_listing id [''a'', ''b'', ''c''])) (pages_for 2 (Suc 2)) = 2"
    by (simp add: example_listing_def pages_for_def)
  have c: "id ([''a'', ''b'', ''c''] ! 2) = ''c''" by simp
  show ?thesis using pr_get_total [OF inv lt] inv lt
    by (simp only: pg c) blast
qed

text \<open>
  For a consistent listing, \<open>get(i)\<close> with \<open>i \<ge> total\<close> fails with
  \<open>IndexOutOfRangeError\<close> however many pages are loaded, after loading the rest of the
  listing.
\<close>

theorem pr_get_beyond_total:
  assumes "pr_inv psize xs f s" "pr_total s \<le> i"
  shows "\<exists>s'. pr_get i s = Some (Inl IndexOutOfRangeError, s') \<and> pr_len s' = pr_total s"
proof -
  have n: "\<not> i < length xs" using assms by (simp add: pr_inv_def)
  obtain s' where g: "pr_get i s = Some (Inl IndexOutOfRangeError, s')" and inv': "pr_inv psize xs f s'"
    and fc: "fetch_calls s' = max (fetch_calls s) (pages_for psize (length xs))"
    using pr_get_offset [OF assms(1), of i] n by auto
  have "loaded_items s' = map f xs" using pr_inv_all_loaded [OF inv'] fc by simp
  then show ?thesis using g assms(1) by (simp add: pr_len_def pr_inv_def)
qed

theorem pr_get_beyond_total_witness:
  "pr_inv 2 [''a'', ''b'', ''c''] id (example_listing id [''a'', ''b'', ''c'']) \<and>
   pr_total (example_listing id [''a'', ''b'', ''c'']) \<le> 3 \<and>
   (\<exists>s'. pr_get 3 (example_listing id [''a'', ''b'', ''c'']) = Some (Inl IndexOutOfRangeError, s') \<and> pr_len s' = 3)"
proof -
  have inv: "pr_inv 2 [''a'', ''b'', ''c''] id (example_listing id [''a'', ''b'', ''c''])"
    by (rule example_listing_inv)
  have le: "pr_total (example_listing id [''a'', ''b'', ''c'']) \<le> 3"
    and t: "pr_total (example_listing id [''a'', ''b'', ''c'']) = 3" by (simp_all add: example_listing_def)
  show ?thesis using pr_get_beyond_total [OF inv le] inv le by (simp only: t)
qed

text \<open>
  Whatever the fetch capability does, a completed \<open>list(results)\<close> yields
  \<open>total\<close> items, and iterating again yields the same items with no fetch and no
  change of state.
\<close>

theorem pr_list_restartable:
  assumes "pr_list s = Some (Inr ys, s')"
  shows "length ys = pr_total s \<and> pr_list s' = Some (Inr ys, s')"
proof -
  have l: "length ys = pr_total s" "length ys \<le> length (loaded_items s')"
    and ys: "take (length ys) (drop 0 (loaded_items s')) = ys"
    using pr_iter_from_Inr [of 0 "pr_total s" s ys s'] assms by (auto simp: pr_list_def)
  have "pr_total s' = pr_total s"
    using pr_list_extends [OF assms] by (simp add: pr_extends_def)
  then show ?thesis
    using l ys pr_iter_from_loaded [of 0 "pr_total s'" s'] by (simp add: pr_list_def)
qed

theorem pr_list_restartable_witness:
  "pr_list (example_listing id [''a'', ''b'', ''c'']) =
     Some (Inr [''a'', ''b'', ''c''], (example_listing id [''a'', ''b'', ''c''])\<lparr>loaded_items := [''a'', ''b'', ''c''],
        next_cursor := None, fetch_calls := 2\<rparr>) \<and>
   pr_list ((example_listing id [''a'', ''b'', ''c''])\<lparr>loaded_items := [''a'', ''b'', ''c''],
        next_cursor := None, fetch_calls := 2\<rparr>) =
     Some (Inr [''a'', ''b'', ''c''], (example_listing id [''a'', ''b'', ''c''])\<lparr>loaded_items := [''a'', ''b'', ''c''],
        next_cursor := None, fetch_calls := 2\<rparr>)"
proof -
  have l: "pr_list (example_listing id [''a'', ''b'', ''c'']) =
     Some (Inr [''a'', ''b'', ''c''], (example_listing id [''a'', ''b'', ''c''])\<lparr>loaded_items := [''a'', ''b'', ''c''],
        next_cursor := None, fetch_calls := 2\<rparr>)"
    by (simp add: example_listing_def pr_list_def pr_get_def pr_fill.simps pr_fetch_next_def
        offset_fetcher_def numeral_eq_Suc)
  show ?thesis using pr_list_restartable [OF l] l by simp
qed

text \<open>
  Whatever the fetch capability does, a slice within the loaded items is those
  items, in order, with no fetch and no change of state.
\<close>

theorem pr_slice_loaded_no_fetch:
  assumes "start \<le> stop" "stop \<le> length (loaded_items s)" "stop \<le> pr_total s"
  shows "pr_slice start stop s = Some (Inr (take (stop - start) (drop start (loaded_items s))), s)"
  using assms pr_iter_from_loaded [of start "stop - start" s] by (simp add: pr_slice_def min_absorb1)

theorem pr_slice_loaded_no_fetch_witness:
  "0 \<le> (2::nat) \<and> 2 \<le> length (loaded_items (example_listing id [''a'', ''b''])) \<and>
   2 \<le> pr_total (example_listing id [''a'', ''b'']) \<and>
   pr_slice 0 2 (example_listing id [''a'', ''b'']) = Some (Inr [''a'', ''b''], example_listing id [''a'', ''b''])"
proof -
  have a: "0 \<le> (2::nat)" "2 \<le> length (loaded_items (example_listing id [''a'', ''b'']))"
    "2 \<le> pr_total (example_listing id [''a'', ''b''])" by (simp_all add: example_listing_def)
  show ?thesis using pr_slice_loaded_no_fetch [OF a] a by (simp add: example_listing_def)
qed

text \<open>
  The specification's example: five items in pages of two behind the cursors
  \<open>None\<close>, \<open>"c1"\<close>, \<open>"c2"\<close>; \<open>slice(0, 5)\<close> returns the five items in order after
  exactly three fetches, and a following \<open>slice(0, 2)\<close> fetches nothing.
\<close>

theorem pr_slice_spec_example:
  "\<exists>s s'. pr_create spec_fetcher (\<lambda>r. Inr r) = Inr s \<and>
     pr_slice 0 5 s = Some (Inr [''p1'', ''p2'', ''p3'', ''p4'', ''p5''], s') \<and> fetch_calls s' = 3 \<and>
     pr_slice 0 2 s' = Some (Inr [''p1'', ''p2''], s')"
  by (simp add: pr_create_def spec_fetcher_def pr_slice_def pr_get_def pr_fill.simps pr_fetch_next_def
      numeral_eq_Suc)

text \<open>
  A fetch that fails while \<open>get(i)\<close> needs a further page surfaces as
  \<open>RemoteFetchError\<close> with the capability's message, not retried, and no item is
  appended.
\<close>

theorem pr_get_fetch_error:
  assumes "pr_len s \<le> i" "next_cursor s = Some c" "page_fetcher s (Some c) = Inl e"
  shows "pr_get i s = Some (Inl (RemoteFetchError e), s\<lparr>fetch_calls := Suc (fetch_calls s)\<rparr>)"
  using assms pr_fill_fetch_fails [of s i c]
  by (simp add: pr_get_def pr_len_def pr_fetch_next_def)

theorem pr_get_fetch_error_witness:
  "pr_len ((example_listing id [''a'', ''b'', ''c'', ''d'', ''e''])\<lparr>page_fetcher := \<lambda>_. Inl ''503 Service Unavailable''\<rparr>) \<le> 3 \<and>
   next_cursor ((example_listing id [''a'', ''b'', ''c'', ''d'', ''e''])\<lparr>page_fetcher := \<lambda>_. Inl ''503 Service Unavailable''\<rparr>) = Some 2 \<and>
   page_fetcher ((example_listing id [''a'', ''b'', ''c'', ''d'', ''e''])\<lparr>page_fetcher := \<lambda>_. Inl ''503 Service Unavailable''\<rparr>) (Some 2) =
     Inl ''503 Service Unavailable'' \<and>
   (\<exists>s'. pr_get 3 ((example_listing id [''a'', ''b'', ''c'', ''d'', ''e''])\<lparr>page_fetcher := \<lambda>_. Inl ''503 Service Unavailable''\<rparr>) =
      Some (Inl (RemoteFetchError ''503 Service Unavailable''), s') \<and> pr_len s' = 2)"
proof -
  let ?s = "(example_listing id [''a'', ''b'', ''c'', ''d'', ''e''])\<lparr>page_fetcher := \<lambda>_. Inl ''503 Service Unavailable''\<rparr>"
  have a: "pr_len ?s \<le> 3" "next_cursor ?s = Some 2" "page_fetcher ?s (Some 2) = Inl ''503 Service Unavailable''"
    by (simp_all add: example_listing_def pr_len_def)
  show ?thesis using pr_get_fetch_error [OF a] a by (simp add: example_listing_def pr_len_def)
qed

text \<open>
  A page with an item the constructor rejects surfaces as \<open>DecodingError\<close> for the
  \<open>get\<close> that needed it, and the items already loaded are untouched (no part of the
  page is appended).
\<close>

theorem pr_get_decoding_error:
  assumes "pr_len s \<le> i" "next_cursor s = Some c" "page_fetcher s (Some c) = Inr pg"
    "page_items pg = Some rs" "decode_all (item_decoder s) rs = Inl m"
  shows "pr_get i s = Some (Inl (DecodingError m), s\<lparr>fetch_calls := Suc (fetch_calls s)\<rparr>)"
  using assms pr_fill_fetch_fails [of s i c]
  by (simp add: pr_get_def pr_len_def pr_fetch_next_def)

theorem pr_get_decoding_error_witness:
  "pr_len ((example_listing id [''a'', ''b'', ''c'', ''d'', ''e''])\<lparr>item_decoder := \<lambda>r. if r = ''c'' then Inl ''malformed'' else Inr r\<rparr>) \<le> 3 \<and>
   next_cursor ((example_listing id [''a'', ''b'', ''c'', ''d'', ''e''])\<lparr>item_decoder := \<lambda>r. if r = ''c'' then Inl ''malformed'' else Inr r\<rparr>) = Some 2 \<and>
   page_fetcher ((example_listing id [''a'', ''b'', ''c'', ''d'', ''e''])\<lparr>item_decoder := \<lambda>r. if r = ''c'' then Inl ''malformed'' else Inr r\<rparr>) (Some 2) =
     Inr \<lparr>page_total = Some 5, page_items = Some [''c'', ''d''], page_next = Some 4\<rparr> \<and>
   page_items \<lparr>page_total = Some (5::nat), page_items = Some [''c'', ''d''], page_next = Some (4::nat)\<rparr> = Some [''c'', ''d''] \<and>
   decode_all (item_decoder ((example_listing id [''a'', ''b'', ''c'', ''d'', ''e''])\<lparr>item_decoder := \<lambda>r. if r = ''c'' then Inl ''malformed'' else Inr r\<rparr>)) [''c'', ''d''] =
     Inl ''malformed'' \<and>
   (\<exists>s'. pr_get 3 ((example_listing id [''a'', ''b'', ''c'', ''d'', ''e''])\<lparr>item_decoder := \<lambda>r. if r = ''c'' then Inl ''malformed'' else Inr r\<rparr>) =
      Some (Inl (DecodingError ''malformed''), s') \<and> pr_len s' = 2)"
proof -
  let ?s = "(example_listing id [''a'', ''b'', ''c'', ''d'', ''e''])\<lparr>item_decoder := \<lambda>r. if r = ''c'' then Inl ''malformed'' else Inr r\<rparr>"
  let ?pg = "\<lparr>page_total = Some (5::nat), page_items = Some [''c'', ''d''], page_next = Some (4::nat)\<rparr>"
  have a: "pr_len ?s \<le> 3" "next_cursor ?s = Some 2" "page_fetcher ?s (Some 2) = Inr ?pg"
    "page_items ?pg = Some [''c'', ''d'']" "decode_all (item_decoder ?s) [''c'', ''d''] = Inl ''malformed''"
    by (simp_all add: example_listing_def pr_len_def offset_fetcher_def)
  show ?thesis using pr_get_decoding_error [OF a] a by (simp add: example_listing_def pr_len_def)
qed

text \<open>
  Construction fails with \<open>InvalidResponseError\<close> exactly when the first page lacks
  its total or its item list.
\<close>

theorem pr_create_invalid_response:
  assumes "f None = Inr pg"
  shows "pr_create f d = Inl InvalidResponseError \<longleftrightarrow> page_total pg = None \<or> page_items pg = None"
  using assms by (auto simp: pr_create_def split: option.splits sum.splits)

theorem pr_create_invalid_response_witness:
  "(\<lambda>_. Inr \<lparr>page_total = None, page_items = Some [], page_next = None\<rparr>) None =
     (Inr \<lparr>page_total = None, page_items = Some [], page_next = None\<rparr> :: string + (string, nat) page) \<and>
   pr_create (\<lambda>_. Inr \<lparr>page_total = None, page_items = Some [], page_next = None\<rparr>) (\<lambda>r. Inr r) =
     (Inl InvalidResponseError :: error + (string, string, nat) paged_result)"
  using pr_create_invalid_response [of "\<lambda>_. Inr \<lparr>page_total = None, page_items = Some [], page_next = None\<rparr>"
      "\<lparr>page_total = None, page_items = Some [], page_next = None\<rparr> :: (string, nat) page" "\<lambda>r. Inr r"]
  by simp

end
