(* ===== verification/Tool_Paging.thy ===== *)
theory Tool_Paging
  imports Tools Paged_Contract
begin

text \<open>
  The listing tools of src/semanticscholar/mcp_server.py against the paged result: how
  the slicing of \<open>search_papers\<close> and the \<open>list(results)\<close> of the other listing tools
  decide what is fetched, and what escapes the tool when a fetch or a page fails or the
  service serves fewer items than it reports. The
  facts about the paged result these rest on are in \<open>Paged_Result\<close> and
  \<open>Paged_Contract\<close>; the examples here are the objects the witnesses use.
\<close>

section \<open>The abstract answers\<close>

text \<open>
  What a listing tool promises, as a function of the whole listing only: the number of
  items as the total and the converted first \<open>limit\<close> items. The paged result is
  abstracted to the list of all its items (on a consistent listing, \<open>map f xs\<close>).
\<close>

definition papers_answer :: "int \<Rightarrow> paper list \<Rightarrow> error + pyval" where
  "papers_answer limit_arg ps =
     map_sum id (\<lambda>ds. PDict [(''total'', PInt (int (length ps))), (''papers'', PList ds)])
       (py_map paper_to_dict (py_slice_to ps limit_arg))"

definition linked_answer :: "string \<Rightarrow> ('i \<Rightarrow> paper option) \<Rightarrow> int \<Rightarrow> 'i list \<Rightarrow> error + pyval" where
  "linked_answer key sel limit_arg items =
     Inr (PDict [(''total'', PInt (int (length items))), (key, PList (linked_papers sel (py_slice_to items limit_arg)))])"

definition authors_answer :: "int \<Rightarrow> author list \<Rightarrow> error + pyval" where
  "authors_answer limit_arg as =
     Inr (PDict [(''total'', PInt (int (length as))), (''authors'', PList (map author_to_dict (py_slice_to as limit_arg)))])"

section \<open>Lemmas\<close>

lemma linked_papers_map_filter:
  "linked_papers sel xs = map (\<lambda>p. PDict [(''paperId'', paperId p), (''title'', title p)]) (List.map_filter sel xs)"
  by (induction xs) (auto simp: map_filter_simps split: option.splits)

lemma search_papers_consume_returns:
  "pr_inv psize xs f s \<Longrightarrow> \<exists>r s'. search_papers_consume limit_arg s = Some (r, s')"
  using pr_slice_to_offset [of psize xs f s limit_arg] by (auto simp: search_papers_consume_def)

lemma get_author_papers_consume_returns:
  "pr_inv psize xs f s \<Longrightarrow> \<exists>r s'. get_author_papers_consume limit_arg s = Some (r, s')"
  using pr_list_all [of psize xs f s] by (auto simp: get_author_papers_consume_def)

lemma nat_min_int: "0 \<le> n \<Longrightarrow> nat (min n (int t)) = min (nat n) t"
  by auto

section \<open>The listing tools against the paged result\<close>

text \<open>
  C15. Whatever the fetch capability does, when the first \<open>limit\<close> papers (or all
  \<open>total\<close> of them) are already loaded, search_papers answers from them, in order, with
  no fetch and no change to the paged result.
\<close>

theorem search_papers_consume_loaded:
  assumes "0 \<le> limit_arg" "min (nat limit_arg) (pr_total s) \<le> pr_len s"
  shows "search_papers_consume limit_arg s =
           Some (map_sum id (\<lambda>ps. PDict [(''total'', PInt (int (pr_total s))), (''papers'', PList ps)])
                   (py_map paper_to_dict (take (min (nat limit_arg) (pr_total s)) (loaded_items s))), s)"
  using assms pr_iter_from_loaded [of 0 "min (nat limit_arg) (pr_total s)" s]
  by (simp add: search_papers_consume_def pr_slice_to_def nat_min_int pr_len_def)

theorem search_papers_consume_loaded_witness:
  "0 \<le> (2::int) \<and>
   min (nat 2) (pr_total (example_listing example_paper [''p1'', ''p2'', ''p3''])) \<le>
     pr_len (example_listing example_paper [''p1'', ''p2'', ''p3'']) \<and>
   search_papers_consume 2 (example_listing example_paper [''p1'', ''p2'', ''p3'']) =
     Some (Inr (PDict [(''total'', PInt 3),
       (''papers'', PList [PDict [(''paperId'', PStr ''p1''), (''title'', PStr ''On p1'')],
                           PDict [(''paperId'', PStr ''p2''), (''title'', PStr ''On p2'')]])]),
       example_listing example_paper [''p1'', ''p2'', ''p3''])"
proof -
  have a: "0 \<le> (2::int)" "min (nat 2) (pr_total (example_listing example_paper [''p1'', ''p2'', ''p3''])) \<le>
     pr_len (example_listing example_paper [''p1'', ''p2'', ''p3''])"
    by (simp_all add: example_listing_def pr_len_def)
  have r: "map_sum id (\<lambda>ps. PDict [(''total'', PInt (int (pr_total (example_listing example_paper [''p1'', ''p2'', ''p3''])))),
             (''papers'', PList ps)])
           (py_map paper_to_dict (take (min (nat 2) (pr_total (example_listing example_paper [''p1'', ''p2'', ''p3''])))
              (loaded_items (example_listing example_paper [''p1'', ''p2'', ''p3''])))) =
     Inr (PDict [(''total'', PInt 3),
       (''papers'', PList [PDict [(''paperId'', PStr ''p1''), (''title'', PStr ''On p1'')],
                           PDict [(''paperId'', PStr ''p2''), (''title'', PStr ''On p2'')]])])"
    by (simp add: example_listing_def example_paper_def paper_to_dict_def set_if_def Let_def)
  show ?thesis using search_papers_consume_loaded [OF a] a by (simp only: r)
qed

text \<open>
  C16. search_authors' answer depends only on the listing, not on how much of it was
  loaded before: from any state of a consistent listing, it reports the listing's total
  and the first \<open>limit\<close> authors, and leaves the whole listing loaded.
\<close>

theorem search_authors_consume_any_state:
  assumes "pr_inv psize xs f s"
  shows "\<exists>s'. search_authors_consume limit_arg s =
           Some (Inr (PDict [(''total'', PInt (int (length xs))),
                             (''authors'', PList (map author_to_dict (py_slice_to (map f xs) limit_arg)))]), s') \<and>
         loaded_items s' = map f xs"
proof -
  obtain s' where l: "pr_list s = Some (Inr (map f xs), s')" and inv': "pr_inv psize xs f s'"
    and all: "loaded_items s' = map f xs"
    using pr_list_all [OF assms] by blast
  have "pr_total s' = length xs" using inv' by (simp add: pr_inv_def)
  with l all show ?thesis by (simp add: search_authors_consume_def)
qed

theorem search_authors_consume_any_state_witness:
  "pr_inv 2 [''a1'', ''a2'', ''a3''] example_author (example_listing example_author [''a1'', ''a2'', ''a3'']) \<and>
   (\<exists>s'. search_authors_consume 1 (example_listing example_author [''a1'', ''a2'', ''a3'']) =
      Some (Inr (PDict [(''total'', PInt 3),
        (''authors'', PList [PDict [(''authorId'', PStr ''a1''), (''name'', PStr ''Author a1''),
                                    (''paperCount'', PInt 0)]])]), s') \<and>
      loaded_items s' = map example_author [''a1'', ''a2'', ''a3''])"
proof -
  have inv: "pr_inv 2 [''a1'', ''a2'', ''a3''] example_author (example_listing example_author [''a1'', ''a2'', ''a3''])"
    by (rule example_listing_inv)
  have r: "PDict [(''total'', PInt (int (length [''a1'', ''a2'', ''a3'']))),
      (''authors'', PList (map author_to_dict (py_slice_to (map example_author [''a1'', ''a2'', ''a3'']) 1)))] =
    PDict [(''total'', PInt 3),
        (''authors'', PList [PDict [(''authorId'', PStr ''a1''), (''name'', PStr ''Author a1''),
                                    (''paperCount'', PInt 0)]])]"
    by (simp add: example_author_def author_to_dict_def set_if_def Let_def)
  have "\<exists>s'. search_authors_consume 1 (example_listing example_author [''a1'', ''a2'', ''a3'']) =
      Some (Inr (PDict [(''total'', PInt 3),
        (''authors'', PList [PDict [(''authorId'', PStr ''a1''), (''name'', PStr ''Author a1''),
                                    (''paperCount'', PInt 0)]])]), s') \<and>
      loaded_items s' = map example_author [''a1'', ''a2'', ''a3'']"
    using search_authors_consume_any_state [OF inv, of 1] by (simp only: r)
  with inv show ?thesis by blast
qed

text \<open>
  C17. When a page search_papers needs cannot be fetched, the fetch error escapes the tool
  unchanged, after one attempt, and no paper is appended to the paged result.
\<close>

theorem search_papers_consume_fetch_error:
  assumes "next_cursor s = Some c" "page_fetcher s (Some c) = Inl e"
    "int (pr_len s) < limit_arg" "pr_len s < pr_total s"
  shows "search_papers_consume limit_arg s =
           Some (Inl (RemoteFetchError e), s\<lparr>fetch_calls := Suc (fetch_calls s)\<rparr>)"
proof -
  have "pr_slice_to limit_arg s = Some (Inl (RemoteFetchError e), s\<lparr>fetch_calls := Suc (fetch_calls s)\<rparr>)"
    using assms pr_iter_from_step_error [of 0 s "nat (min limit_arg (int (pr_total s)))" c "RemoteFetchError e"]
    by (simp add: pr_slice_to_def pr_len_def pr_fetch_next_def)
  then show ?thesis by (simp add: search_papers_consume_def)
qed

theorem search_papers_consume_fetch_error_witness:
  "next_cursor ((example_listing example_paper [''p1'', ''p2'', ''p3'', ''p4'', ''p5''])\<lparr>page_fetcher := \<lambda>_. Inl ''503 Service Unavailable''\<rparr>) = Some 2 \<and>
   page_fetcher ((example_listing example_paper [''p1'', ''p2'', ''p3'', ''p4'', ''p5''])\<lparr>page_fetcher := \<lambda>_. Inl ''503 Service Unavailable''\<rparr>) (Some 2) =
     Inl ''503 Service Unavailable'' \<and>
   int (pr_len ((example_listing example_paper [''p1'', ''p2'', ''p3'', ''p4'', ''p5''])\<lparr>page_fetcher := \<lambda>_. Inl ''503 Service Unavailable''\<rparr>)) < 3 \<and>
   pr_len ((example_listing example_paper [''p1'', ''p2'', ''p3'', ''p4'', ''p5''])\<lparr>page_fetcher := \<lambda>_. Inl ''503 Service Unavailable''\<rparr>) <
     pr_total ((example_listing example_paper [''p1'', ''p2'', ''p3'', ''p4'', ''p5''])\<lparr>page_fetcher := \<lambda>_. Inl ''503 Service Unavailable''\<rparr>) \<and>
   search_papers_consume 3 ((example_listing example_paper [''p1'', ''p2'', ''p3'', ''p4'', ''p5''])\<lparr>page_fetcher := \<lambda>_. Inl ''503 Service Unavailable''\<rparr>) =
     Some (Inl (RemoteFetchError ''503 Service Unavailable''),
           (example_listing example_paper [''p1'', ''p2'', ''p3'', ''p4'', ''p5''])\<lparr>page_fetcher := \<lambda>_. Inl ''503 Service Unavailable'', fetch_calls := 2\<rparr>)"
proof -
  let ?s = "(example_listing example_paper [''p1'', ''p2'', ''p3'', ''p4'', ''p5''])\<lparr>page_fetcher := \<lambda>_. Inl ''503 Service Unavailable''\<rparr>"
  have a: "next_cursor ?s = Some 2" "page_fetcher ?s (Some 2) = Inl ''503 Service Unavailable''"
    "int (pr_len ?s) < 3" "pr_len ?s < pr_total ?s"
    by (simp_all add: example_listing_def pr_len_def)
  show ?thesis using search_papers_consume_fetch_error [OF a] a by (simp add: example_listing_def)
qed

text \<open>
  C18. get_author_papers reads the whole listing (\<open>list(results)\<close>), so a page that
  does not decode aborts the tool with \<open>DecodingError\<close> whatever \<open>limit\<close> is, even when
  the papers it answers with are all on pages already loaded.
\<close>

theorem get_author_papers_consume_decoding_error:
  assumes "next_cursor s = Some c" "page_fetcher s (Some c) = Inr pg" "page_items pg = Some rs"
    "decode_all (item_decoder s) rs = Inl m" "pr_len s < pr_total s"
  shows "get_author_papers_consume limit_arg s =
           Some (Inl (DecodingError m), s\<lparr>fetch_calls := Suc (fetch_calls s)\<rparr>)"
proof -
  have "pr_list s = Some (Inl (DecodingError m), s\<lparr>fetch_calls := Suc (fetch_calls s)\<rparr>)"
    using assms pr_iter_from_step_error [of 0 s "pr_total s" c "DecodingError m"]
    by (simp add: pr_list_def pr_len_def pr_fetch_next_def)
  then show ?thesis by (simp add: get_author_papers_consume_def)
qed

theorem get_author_papers_consume_decoding_error_witness:
  "next_cursor ((example_listing example_paper [''p1'', ''p2'', ''p3'', ''p4'', ''p5''])
      \<lparr>item_decoder := \<lambda>r. if r = ''p3'' then Inl ''missing title'' else Inr (example_paper r)\<rparr>) = Some 2 \<and>
   page_fetcher ((example_listing example_paper [''p1'', ''p2'', ''p3'', ''p4'', ''p5''])
      \<lparr>item_decoder := \<lambda>r. if r = ''p3'' then Inl ''missing title'' else Inr (example_paper r)\<rparr>) (Some 2) =
     Inr \<lparr>page_total = Some 5, page_items = Some [''p3'', ''p4''], page_next = Some 4\<rparr> \<and>
   page_items \<lparr>page_total = Some (5::nat), page_items = Some [''p3'', ''p4''], page_next = Some (4::nat)\<rparr> =
     Some [''p3'', ''p4''] \<and>
   decode_all (item_decoder ((example_listing example_paper [''p1'', ''p2'', ''p3'', ''p4'', ''p5''])
      \<lparr>item_decoder := \<lambda>r. if r = ''p3'' then Inl ''missing title'' else Inr (example_paper r)\<rparr>)) [''p3'', ''p4''] =
     Inl ''missing title'' \<and>
   pr_len ((example_listing example_paper [''p1'', ''p2'', ''p3'', ''p4'', ''p5''])
      \<lparr>item_decoder := \<lambda>r. if r = ''p3'' then Inl ''missing title'' else Inr (example_paper r)\<rparr>) <
   pr_total ((example_listing example_paper [''p1'', ''p2'', ''p3'', ''p4'', ''p5''])
      \<lparr>item_decoder := \<lambda>r. if r = ''p3'' then Inl ''missing title'' else Inr (example_paper r)\<rparr>) \<and>
   (\<exists>s'. get_author_papers_consume 1 ((example_listing example_paper [''p1'', ''p2'', ''p3'', ''p4'', ''p5''])
      \<lparr>item_decoder := \<lambda>r. if r = ''p3'' then Inl ''missing title'' else Inr (example_paper r)\<rparr>) =
     Some (Inl (DecodingError ''missing title''), s') \<and> pr_len s' = 2)"
proof -
  let ?s = "(example_listing example_paper [''p1'', ''p2'', ''p3'', ''p4'', ''p5''])
      \<lparr>item_decoder := \<lambda>r. if r = ''p3'' then Inl ''missing title'' else Inr (example_paper r)\<rparr>"
  let ?pg = "\<lparr>page_total = Some (5::nat), page_items = Some [''p3'', ''p4''], page_next = Some (4::nat)\<rparr>"
  have a: "next_cursor ?s = Some 2" "page_fetcher ?s (Some 2) = Inr ?pg" "page_items ?pg = Some [''p3'', ''p4'']"
    "decode_all (item_decoder ?s) [''p3'', ''p4''] = Inl ''missing title''" "pr_len ?s < pr_total ?s"
    by (simp_all add: example_listing_def pr_len_def offset_fetcher_def)
  show ?thesis using get_author_papers_consume_decoding_error [OF a, of 1] a
    by (simp add: example_listing_def pr_len_def)
qed

text \<open>
  C19. get_paper_references against a consistent service, with a positive \<open>limit\<close>: the
  client is asked for pages of \<open>min(limit, 1000)\<close>, every page is loaded, \<open>len(results)\<close>
  is reported as the total, and the answer lists, in order, the cited papers of the first
  \<open>limit\<close> references, skipping references without a paper.
\<close>

theorem get_paper_references_listing:
  assumes "0 < limit_arg"
  shows "get_paper_references (\<lambda>req. api_listing mk xs (lr_limit req)) paper_id limit_arg =
           Some (Inr (PDict [(''total'', PInt (int (length xs))),
             (''references'', PList (map (\<lambda>p. PDict [(''paperId'', paperId p), (''title'', title p)])
                                     (List.map_filter reference.paper (take (nat limit_arg) (map mk xs)))))]))"
proof -
  have pos: "0 < min limit_arg 1000" using assms by simp
  obtain s where api: "api_listing mk xs (min limit_arg 1000) = Inr s"
    and inv: "pr_inv (nat (min limit_arg 1000)) xs mk s"
    using api_listing_ok [OF pos, of mk xs] by blast
  obtain s' where l: "pr_list s = Some (Inr (map mk xs), s')" and all: "loaded_items s' = map mk xs"
    using pr_list_all [OF inv] by blast
  show ?thesis using api l all assms
    by (simp add: get_paper_references_def get_paper_references_consume_def pr_len_def linked_papers_map_filter)
qed

theorem get_paper_references_listing_witness:
  "0 < (2::int) \<and>
   get_paper_references (\<lambda>req. api_listing example_reference [''r1'', [], ''r3''] (lr_limit req)) ''p0'' 2 =
     Some (Inr (PDict [(''total'', PInt 3),
       (''references'', PList [PDict [(''paperId'', PStr ''r1''), (''title'', PStr ''On r1'')]])]))"
  using get_paper_references_listing [of 2 example_reference "[''r1'', [], ''r3'']" "''p0''"]
  by (simp add: example_reference_def example_paper_def map_filter_simps)

text \<open>
  C20. A service that keeps announcing a next page but sends no items, while fewer items
  are loaded than the total it reported, makes get_paper_citations never return: its
  \<open>list(results)\<close> waits for an item that never comes, whatever \<open>limit\<close> is.
\<close>

theorem get_paper_citations_consume_diverges:
  assumes "\<forall>c. \<exists>n c'. page_fetcher s (Some c) = Inr \<lparr>page_total = n, page_items = Some [], page_next = Some c'\<rparr>"
    "next_cursor s \<noteq> None" "pr_len s < pr_total s"
  shows "get_paper_citations_consume limit_arg s = None"
proof -
  have "pr_fill (length (loaded_items s)) s = None" using pr_fill_stalls [OF assms(1,2)] by simp
  then have "pr_list s = None"
    using pr_iter_from_fill_None [of 0 s "pr_total s"] assms(3) by (simp add: pr_list_def pr_len_def)
  then show ?thesis by (simp add: get_paper_citations_consume_def)
qed

theorem get_paper_citations_consume_diverges_witness:
  "(\<forall>c. \<exists>n c'. page_fetcher ((example_listing example_citation [''c1'', ''c2'', ''c3''])
       \<lparr>page_fetcher := \<lambda>_. Inr \<lparr>page_total = Some 3, page_items = Some [], page_next = Some 2\<rparr>\<rparr>) (Some c) =
       Inr \<lparr>page_total = n, page_items = Some [], page_next = Some c'\<rparr>) \<and>
   next_cursor ((example_listing example_citation [''c1'', ''c2'', ''c3''])
       \<lparr>page_fetcher := \<lambda>_. Inr \<lparr>page_total = Some 3, page_items = Some [], page_next = Some 2\<rparr>\<rparr>) \<noteq> None \<and>
   pr_len ((example_listing example_citation [''c1'', ''c2'', ''c3''])
       \<lparr>page_fetcher := \<lambda>_. Inr \<lparr>page_total = Some 3, page_items = Some [], page_next = Some 2\<rparr>\<rparr>) <
   pr_total ((example_listing example_citation [''c1'', ''c2'', ''c3''])
       \<lparr>page_fetcher := \<lambda>_. Inr \<lparr>page_total = Some 3, page_items = Some [], page_next = Some 2\<rparr>\<rparr>) \<and>
   get_paper_citations_consume 1 ((example_listing example_citation [''c1'', ''c2'', ''c3''])
       \<lparr>page_fetcher := \<lambda>_. Inr \<lparr>page_total = Some 3, page_items = Some [], page_next = Some 2\<rparr>\<rparr>) = None"
proof -
  let ?s = "(example_listing example_citation [''c1'', ''c2'', ''c3''])
       \<lparr>page_fetcher := \<lambda>_. Inr \<lparr>page_total = Some 3, page_items = Some [], page_next = Some (2::nat)\<rparr>\<rparr>"
  have a: "\<forall>c. \<exists>n c'. page_fetcher ?s (Some c) = Inr \<lparr>page_total = n, page_items = Some [], page_next = Some c'\<rparr>"
    "next_cursor ?s \<noteq> None" "pr_len ?s < pr_total ?s"
    by (simp_all add: example_listing_def pr_len_def)
  show ?thesis using get_paper_citations_consume_diverges [OF a, of 1] a by simp
qed

text \<open>
  C32. A service that reports more items than it serves (its last page carries no next
  cursor while fewer than \<open>total\<close> items are loaded) makes get_author_papers, which
  reads \<open>list(results)\<close>, raise \<open>IndexOutOfRangeError\<close> whatever the limit, and
  search_papers raise it as soon as the limit asks for more than the items served.
\<close>

theorem paper_listings_short_service:
  assumes "next_cursor s = None" "pr_len s < pr_total s"
  shows "get_author_papers_consume limit_arg s = Some (Inl IndexOutOfRangeError, s) \<and>
         (int (pr_len s) < limit_arg \<longrightarrow> search_papers_consume limit_arg s = Some (Inl IndexOutOfRangeError, s))"
proof
  have "pr_list s = Some (Inl IndexOutOfRangeError, s)"
    using pr_iter_from_exhausted [of 0 s "pr_total s"] assms by (simp add: pr_list_def pr_len_def)
  then show "get_author_papers_consume limit_arg s = Some (Inl IndexOutOfRangeError, s)"
    by (simp add: get_author_papers_consume_def)
next
  show "int (pr_len s) < limit_arg \<longrightarrow> search_papers_consume limit_arg s = Some (Inl IndexOutOfRangeError, s)"
  proof
    assume l: "int (pr_len s) < limit_arg"
    have "pr_slice_to limit_arg s = Some (Inl IndexOutOfRangeError, s)"
      using pr_iter_from_exhausted [of 0 s "nat (min limit_arg (int (pr_total s)))"] assms l
      by (simp add: pr_slice_to_def pr_len_def)
    then show "search_papers_consume limit_arg s = Some (Inl IndexOutOfRangeError, s)"
      by (simp add: search_papers_consume_def)
  qed
qed

theorem paper_listings_short_service_witness:
  "next_cursor ((example_listing example_paper [''p1'', ''p2'', ''p3''])\<lparr>next_cursor := None\<rparr>) = None \<and>
   pr_len ((example_listing example_paper [''p1'', ''p2'', ''p3''])\<lparr>next_cursor := None\<rparr>) <
     pr_total ((example_listing example_paper [''p1'', ''p2'', ''p3''])\<lparr>next_cursor := None\<rparr>) \<and>
   int (pr_len ((example_listing example_paper [''p1'', ''p2'', ''p3''])\<lparr>next_cursor := None\<rparr>)) < 3 \<and>
   get_author_papers_consume 1 ((example_listing example_paper [''p1'', ''p2'', ''p3''])\<lparr>next_cursor := None\<rparr>) =
     Some (Inl IndexOutOfRangeError, (example_listing example_paper [''p1'', ''p2'', ''p3''])\<lparr>next_cursor := None\<rparr>) \<and>
   search_papers_consume 3 ((example_listing example_paper [''p1'', ''p2'', ''p3''])\<lparr>next_cursor := None\<rparr>) =
     Some (Inl IndexOutOfRangeError, (example_listing example_paper [''p1'', ''p2'', ''p3''])\<lparr>next_cursor := None\<rparr>)"
proof -
  let ?s = "(example_listing example_paper [''p1'', ''p2'', ''p3''])\<lparr>next_cursor := None\<rparr>"
  have a: "next_cursor ?s = None" "pr_len ?s < pr_total ?s" "int (pr_len ?s) < 3"
    by (simp_all add: example_listing_def pr_len_def)
  have "get_author_papers_consume 1 ?s = Some (Inl IndexOutOfRangeError, ?s)"
    using paper_listings_short_service [OF a(1,2), of 1] by blast
  moreover have "search_papers_consume 3 ?s = Some (Inl IndexOutOfRangeError, ?s)"
    using paper_listings_short_service [OF a(1,2), of 3] a(3) by blast
  ultimately show ?thesis using a by blast
qed

text \<open>
  C23. The paper listing tools keep the paged result consistent: from a state that holds
  whole pages of a consistent listing, search_papers and get_author_papers leave a state
  that still does, whatever their answer.
\<close>

theorem paper_listings_keep_inv:
  assumes inv: "pr_inv psize xs f s"
  shows "(\<forall>r s'. search_papers_consume limit_arg s = Some (r, s') \<longrightarrow> pr_inv psize xs f s') \<and>
         (\<forall>r s'. get_author_papers_consume limit_arg s = Some (r, s') \<longrightarrow> pr_inv psize xs f s')"
proof -
  obtain s1 where sl: "pr_slice_to limit_arg s = Some (Inr (py_slice_to (map f xs) limit_arg), s1)"
    and inv1: "pr_inv psize xs f s1"
    using pr_slice_to_offset [OF inv, of limit_arg] by blast
  obtain s2 where l: "pr_list s = Some (Inr (map f xs), s2)" and inv2: "pr_inv psize xs f s2"
    using pr_list_all [OF inv] by blast
  show ?thesis
    using sl inv1 l inv2 by (simp add: search_papers_consume_def get_author_papers_consume_def)
qed

theorem paper_listings_keep_inv_witness:
  "pr_inv 2 [''p1'', ''p2'', ''p3''] example_paper (example_listing example_paper [''p1'', ''p2'', ''p3'']) \<and>
   (\<exists>r s'. search_papers_consume 1 (example_listing example_paper [''p1'', ''p2'', ''p3'']) = Some (r, s') \<and>
      pr_inv 2 [''p1'', ''p2'', ''p3''] example_paper s') \<and>
   (\<exists>r s'. get_author_papers_consume 1 (example_listing example_paper [''p1'', ''p2'', ''p3'']) = Some (r, s') \<and>
      pr_inv 2 [''p1'', ''p2'', ''p3''] example_paper s')"
proof -
  have inv: "pr_inv 2 [''p1'', ''p2'', ''p3''] example_paper (example_listing example_paper [''p1'', ''p2'', ''p3''])"
    by (rule example_listing_inv)
  obtain r1 s1 where a: "search_papers_consume 1 (example_listing example_paper [''p1'', ''p2'', ''p3'']) = Some (r1, s1)"
    using pr_slice_to_offset [OF inv, of 1] by (auto simp: search_papers_consume_def)
  obtain r2 s2 where b: "get_author_papers_consume 1 (example_listing example_paper [''p1'', ''p2'', ''p3'']) = Some (r2, s2)"
    using pr_list_all [OF inv] by (auto simp: get_author_papers_consume_def)
  have "pr_inv 2 [''p1'', ''p2'', ''p3''] example_paper s1 \<and> pr_inv 2 [''p1'', ''p2'', ''p3''] example_paper s2"
    using paper_listings_keep_inv [OF inv, of 1] a b by blast
  with inv a b show ?thesis by blast
qed

text \<open>
  C25. Against a consistent service every listing tool returns, for every \<open>limit\<close>: a
  non-positive one is refused by the service, any other ends once the pages needed are
  loaded.
\<close>

theorem listing_tools_return:
  "(\<exists>v. search_papers (\<lambda>req. api_listing mk xs (sr_limit req)) query year_arg fos_arg pdy_arg mcc_arg limit_arg = Some v) \<and>
   (\<exists>v. get_paper_citations (\<lambda>req. api_listing mc cs (lr_limit req)) paper_id limit_arg = Some v) \<and>
   (\<exists>v. get_paper_references (\<lambda>req. api_listing mr rs (lr_limit req)) paper_id limit_arg = Some v) \<and>
   (\<exists>v. search_authors (\<lambda>req. api_listing ma as (lr_limit req)) query limit_arg = Some v) \<and>
   (\<exists>v. get_author_papers (\<lambda>req. api_listing mk xs (lr_limit req)) author_id limit_arg = Some v)"
proof (intro conjI)
  show "\<exists>v. search_papers (\<lambda>req. api_listing mk xs (sr_limit req)) query year_arg fos_arg pdy_arg mcc_arg limit_arg = Some v"
    using api_listing_cases [of mk xs "min limit_arg 100"]
    by (auto simp: search_papers_def search_request_of_def search_papers_consume_def
        dest!: pr_slice_to_returns [where n = limit_arg] split: sum.splits)
  show "\<exists>v. get_paper_citations (\<lambda>req. api_listing mc cs (lr_limit req)) paper_id limit_arg = Some v"
    using api_listing_cases [of mc cs "min limit_arg 1000"]
    by (auto simp: get_paper_citations_def get_paper_citations_consume_def dest!: pr_list_returns split: sum.splits)
  show "\<exists>v. get_paper_references (\<lambda>req. api_listing mr rs (lr_limit req)) paper_id limit_arg = Some v"
    using api_listing_cases [of mr rs "min limit_arg 1000"]
    by (auto simp: get_paper_references_def get_paper_references_consume_def dest!: pr_list_returns split: sum.splits)
  show "\<exists>v. search_authors (\<lambda>req. api_listing ma as (lr_limit req)) query limit_arg = Some v"
    using api_listing_cases [of ma as "min limit_arg 1000"]
    by (auto simp: search_authors_def search_authors_consume_def dest!: pr_list_returns split: sum.splits)
  show "\<exists>v. get_author_papers (\<lambda>req. api_listing mk xs (lr_limit req)) author_id limit_arg = Some v"
    using api_listing_cases [of mk xs "min limit_arg 1000"]
    by (auto simp: get_author_papers_def get_author_papers_consume_def dest!: pr_list_returns split: sum.splits)
qed

text \<open>
  C26. Whatever the fetch capability does, the paper listing tools change the paged result
  only by fetching pages with its cursor: the state they leave is reached by fetch steps.
\<close>

theorem paper_listings_only_fetch:
  "(search_papers_consume limit_arg s = Some (r, s') \<longrightarrow> pr_fetches s s') \<and>
   (get_author_papers_consume limit_arg s = Some (r, s') \<longrightarrow> pr_fetches s s')"
  by (auto simp: search_papers_consume_def get_author_papers_consume_def pr_slice_to_def pr_list_def
      intro: pr_iter_from_fetches split: option.splits sum.splits)

theorem paper_listings_only_fetch_witness:
  "(\<exists>r s'. search_papers_consume 3 (example_listing example_paper [''p1'', ''p2'', ''p3'']) = Some (r, s') \<and>
      pr_fetches (example_listing example_paper [''p1'', ''p2'', ''p3'']) s') \<and>
   (\<exists>r s'. get_author_papers_consume 1 (example_listing example_paper [''p1'', ''p2'', ''p3'']) = Some (r, s') \<and>
      pr_fetches (example_listing example_paper [''p1'', ''p2'', ''p3'']) s')"
proof -
  have inv: "pr_inv 2 [''p1'', ''p2'', ''p3''] example_paper (example_listing example_paper [''p1'', ''p2'', ''p3''])"
    by (rule example_listing_inv)
  obtain r1 s1 where a: "search_papers_consume 3 (example_listing example_paper [''p1'', ''p2'', ''p3'']) = Some (r1, s1)"
    using search_papers_consume_returns [OF inv, of 3] by blast
  obtain r2 s2 where b: "get_author_papers_consume 1 (example_listing example_paper [''p1'', ''p2'', ''p3'']) = Some (r2, s2)"
    using get_author_papers_consume_returns [OF inv, of 1] by blast
  have "pr_fetches (example_listing example_paper [''p1'', ''p2'', ''p3'']) s1"
    using paper_listings_only_fetch [of 3 "example_listing example_paper [''p1'', ''p2'', ''p3'']" r1 s1] a by blast
  moreover have "pr_fetches (example_listing example_paper [''p1'', ''p2'', ''p3'']) s2"
    using paper_listings_only_fetch [of 1 "example_listing example_paper [''p1'', ''p2'', ''p3'']" r2 s2] b by blast
  ultimately show ?thesis using a b by blast
qed

text \<open>
  C30. Every listing tool implements its abstract answer: from any state of a consistent
  listing, however much of it is loaded, search_papers and get_author_papers answer with
  \<open>papers_answer\<close>, the citation and reference tools with \<open>linked_answer\<close>, and
  search_authors with \<open>authors_answer\<close> of the whole listing, although they read the
  total from \<open>results.total\<close> or from \<open>len(results)\<close> and slice lazily or eagerly.
\<close>

theorem listing_consumers_refine:
  assumes ps: "pr_inv p1 xs f s" and cs: "pr_inv p2 ys g t" and rs: "pr_inv p3 zs h u"
    and au: "pr_inv p4 ws k v"
  shows "map_option fst (search_papers_consume limit_arg s) = Some (papers_answer limit_arg (map f xs)) \<and>
         map_option fst (get_author_papers_consume limit_arg s) = Some (papers_answer limit_arg (map f xs)) \<and>
         map_option fst (get_paper_citations_consume limit_arg t) =
           Some (linked_answer ''citations'' citation.paper limit_arg (map g ys)) \<and>
         map_option fst (get_paper_references_consume limit_arg u) =
           Some (linked_answer ''references'' reference.paper limit_arg (map h zs)) \<and>
         map_option fst (search_authors_consume limit_arg v) = Some (authors_answer limit_arg (map k ws))"
proof -
  obtain s1 where sl: "pr_slice_to limit_arg s = Some (Inr (py_slice_to (map f xs) limit_arg), s1)"
    and i1: "pr_inv p1 xs f s1"
    using pr_slice_to_offset [OF ps, of limit_arg] by blast
  obtain s2 where l2: "pr_list s = Some (Inr (map f xs), s2)" and a2: "loaded_items s2 = map f xs"
    using pr_list_all [OF ps] by blast
  obtain t' where l3: "pr_list t = Some (Inr (map g ys), t')" and a3: "loaded_items t' = map g ys"
    using pr_list_all [OF cs] by blast
  obtain u' where l4: "pr_list u = Some (Inr (map h zs), u')" and a4: "loaded_items u' = map h zs"
    using pr_list_all [OF rs] by blast
  obtain v' where l5: "pr_list v = Some (Inr (map k ws), v')" and i5: "pr_inv p4 ws k v'"
    using pr_list_all [OF au] by blast
  show ?thesis
    using sl pr_inv_total [OF i1] l2 a2 l3 a3 l4 a4 l5 pr_inv_total [OF i5]
    by (simp add: search_papers_consume_def get_author_papers_consume_def get_paper_citations_consume_def
        get_paper_references_consume_def search_authors_consume_def papers_answer_def linked_answer_def
        authors_answer_def pr_len_def)
qed

theorem listing_consumers_refine_witness:
  "pr_inv 2 [''p1'', ''p2'', ''p3''] example_paper (example_listing example_paper [''p1'', ''p2'', ''p3'']) \<and>
   pr_inv 2 [''c1'', [], ''c3''] example_citation (example_listing example_citation [''c1'', [], ''c3'']) \<and>
   pr_inv 2 [''r1''] example_reference (example_listing example_reference [''r1'']) \<and>
   pr_inv 2 [''a1'', ''a2'', ''a3''] example_author (example_listing example_author [''a1'', ''a2'', ''a3'']) \<and>
   map_option fst (search_papers_consume 1 (example_listing example_paper [''p1'', ''p2'', ''p3''])) =
     Some (Inr (PDict [(''total'', PInt 3), (''papers'', PList [PDict [(''paperId'', PStr ''p1''), (''title'', PStr ''On p1'')]])])) \<and>
   map_option fst (get_author_papers_consume 1 (example_listing example_paper [''p1'', ''p2'', ''p3''])) =
     Some (Inr (PDict [(''total'', PInt 3), (''papers'', PList [PDict [(''paperId'', PStr ''p1''), (''title'', PStr ''On p1'')]])])) \<and>
   map_option fst (get_paper_citations_consume 2 (example_listing example_citation [''c1'', [], ''c3''])) =
     Some (Inr (PDict [(''total'', PInt 3), (''citations'', PList [PDict [(''paperId'', PStr ''c1''), (''title'', PStr ''On c1'')]])])) \<and>
   map_option fst (get_paper_references_consume 1 (example_listing example_reference [''r1''])) =
     Some (Inr (PDict [(''total'', PInt 1), (''references'', PList [PDict [(''paperId'', PStr ''r1''), (''title'', PStr ''On r1'')]])])) \<and>
   map_option fst (search_authors_consume 1 (example_listing example_author [''a1'', ''a2'', ''a3''])) =
     Some (Inr (PDict [(''total'', PInt 3), (''authors'', PList [PDict [(''authorId'', PStr ''a1''), (''name'', PStr ''Author a1''), (''paperCount'', PInt 0)]])]))"
proof -
  have i: "pr_inv 2 [''p1'', ''p2'', ''p3''] example_paper (example_listing example_paper [''p1'', ''p2'', ''p3''])"
    "pr_inv 2 [''c1'', [], ''c3''] example_citation (example_listing example_citation [''c1'', [], ''c3''])"
    "pr_inv 2 [''r1''] example_reference (example_listing example_reference [''r1''])"
    "pr_inv 2 [''a1'', ''a2'', ''a3''] example_author (example_listing example_author [''a1'', ''a2'', ''a3''])"
    by (rule example_listing_inv)+
  have pa: "papers_answer 1 (map example_paper [''p1'', ''p2'', ''p3'']) =
     Inr (PDict [(''total'', PInt 3), (''papers'', PList [PDict [(''paperId'', PStr ''p1''), (''title'', PStr ''On p1'')]])])"
    by (simp add: papers_answer_def example_paper_def paper_to_dict_def set_if_def Let_def)
  have ca: "linked_answer ''citations'' citation.paper 2 (map example_citation [''c1'', [], ''c3'']) =
     Inr (PDict [(''total'', PInt 3), (''citations'', PList [PDict [(''paperId'', PStr ''c1''), (''title'', PStr ''On c1'')]])])"
    by (simp add: linked_answer_def example_citation_def example_paper_def)
  have ra: "linked_answer ''references'' reference.paper 1 (map example_reference [''r1'']) =
     Inr (PDict [(''total'', PInt 1), (''references'', PList [PDict [(''paperId'', PStr ''r1''), (''title'', PStr ''On r1'')]])])"
    by (simp add: linked_answer_def example_reference_def example_paper_def)
  have aa: "authors_answer 1 (map example_author [''a1'', ''a2'', ''a3'']) =
     Inr (PDict [(''total'', PInt 3), (''authors'', PList [PDict [(''authorId'', PStr ''a1''), (''name'', PStr ''Author a1''), (''paperCount'', PInt 0)]])])"
    by (simp add: authors_answer_def example_author_def author_to_dict_def set_if_def Let_def)
  have r1: "map_option fst (search_papers_consume 1 (example_listing example_paper [''p1'', ''p2'', ''p3''])) = Some (papers_answer 1 (map example_paper [''p1'', ''p2'', ''p3'']))"
    and r2: "map_option fst (get_author_papers_consume 1 (example_listing example_paper [''p1'', ''p2'', ''p3''])) = Some (papers_answer 1 (map example_paper [''p1'', ''p2'', ''p3'']))"
    using listing_consumers_refine [OF i, of 1] by blast+
  have r3: "map_option fst (get_paper_citations_consume 2 (example_listing example_citation [''c1'', [], ''c3''])) =
      Some (linked_answer ''citations'' citation.paper 2 (map example_citation [''c1'', [], ''c3'']))"
    using listing_consumers_refine [OF i, of 2] by blast
  have r45: "map_option fst (get_paper_references_consume 1 (example_listing example_reference [''r1''])) =
      Some (linked_answer ''references'' reference.paper 1 (map example_reference [''r1'']))"
    "map_option fst (search_authors_consume 1 (example_listing example_author [''a1'', ''a2'', ''a3''])) = Some (authors_answer 1 (map example_author [''a1'', ''a2'', ''a3'']))"
    using listing_consumers_refine [OF i, of 1] by blast+
  show ?thesis using i r1 r2 r3 r45 pa ca ra aa by simp
qed

end
