(* ===== verification/Spec2Isabelle.thy ===== *)
theory Spec2Isabelle
  imports Tool_Paging
begin

text \<open>
  \<^bold>\<open>A verification of the Semantic Scholar MCP tool layer.\<close>

  The program is a FastMCP server, src/semanticscholar/mcp_server.py, whose nine tools
  (\<open>search_papers\<close>, \<open>get_paper\<close>, \<open>get_paper_citations\<close>, \<open>get_paper_references\<close>,
  \<open>search_snippets\<close>, \<open>search_authors\<close>, \<open>get_author\<close>, \<open>get_author_papers\<close>,
  \<open>get_recommendations\<close>) call the \<open>semanticscholar\<close> client library, turn the objects
  it returns into plain dicts with \<open>_paper_to_dict\<close> and \<open>_author_to_dict\<close> (abstracts cut by
  \<open>_truncate\<close>) and answer with their JSON text. The listing tools receive a paginated
  result that fetches further pages on demand while the tool iterates or slices it.
  src/semanticscholar/SnippetSearchResult.py holds the \<open>Snippet\<close> and
  \<open>SnippetSearchResult\<close> objects built from the raw snippet-search payload.

  \<^bold>\<open>Theories.\<close>
  \<^item> \<open>Py_Prelude\<close>: the Python values (\<open>pyval\<close>), truthiness, dicts as insertion-ordered
    association lists (\<open>dict_set\<close>), \<open>in\<close> and \<open>[]\<close> on any value (\<open>py_contains\<close>,
    \<open>py_getitem\<close>), slicing \<open>xs[:n]\<close> (\<open>py_slice_to\<close>), \<open>str.split\<close> (\<open>py_split\<close>), and
    exceptions as the datatype \<open>error\<close> in results of type \<open>error + 'a\<close>, and the
    well-formedness \<open>wf_pyval\<close> of values (each dict key once, at every depth).
  \<^item> \<open>Objects\<close>: the client's \<open>Paper\<close>, \<open>Author\<close>, citation and reference items and dates
    as records of the attributes the tools read; \<open>Snippet\<close> and \<open>SnippetSearchResult\<close>
    (src/semanticscholar/SnippetSearchResult.py) with their constructors
    (\<open>snippet_init\<close>, \<open>snippet_search_result_init\<close>); \<open>str(date)\<close> (\<open>date_isoformat\<close>);
    the example objects the witnesses use.
  \<^item> \<open>Paged_Result\<close>: the client's paginated result, modelled from the specification
    because its class is not among the sources. The state is the record \<open>paged_result\<close>
    (total, loaded items, next cursor, the fetch and decode capabilities, and a count of
    fetches); \<open>pr_create\<close> is the query, \<open>pr_fetch_next\<close> one page fetch, \<open>pr_fill\<close> the
    loop behind \<open>results[i]\<close>, and \<open>pr_get\<close>, \<open>pr_len\<close>, \<open>pr_iter_from\<close>, \<open>pr_list\<close>,
    \<open>pr_slice\<close>, \<open>pr_slice_to\<close> are indexing, \<open>len\<close>, iteration, \<open>list(results)\<close>,
    \<open>slice\<close> and \<open>results[:n]\<close>. \<open>offset_fetcher\<close> is a consistent offset-paginated
    service over a fixed list and \<open>api_listing\<close> the query against it; \<open>pr_inv\<close> says a
    state holds whole pages of that list, \<open>pr_extends\<close> that one state only adds to another,
    and the inductive \<open>pr_fetches\<close> that one is reached from the other by page fetches.
  \<^item> \<open>Paged_Contract\<close>: the acceptance properties of the specification proved of that model:
    \<open>get\<close> returns below the total and fails past it, iteration is restartable, slices of
    loaded items fetch nothing, the five-item example costs three fetches, and fetch,
    decoding and response errors surface unchanged.
  \<^item> \<open>Helpers\<close>: \<open>_truncate\<close>, \<open>_paper_to_dict\<close> and \<open>_author_to_dict\<close> of
    src/semanticscholar/mcp_server.py, each a chain of conditional assignments, also
    given as a table of guarded entries (\<open>guarded\<close>) against which their keys and
    entries are proved.
  \<^item> \<open>Tools\<close>: each of the nine handlers of mcp_server.py, as a function of the client
    method it calls; the listing handlers split into the request and a \<open>*_consume\<close> part
    that returns the paged result's final state with the answer, so the pages a handler
    fetches can be stated.
  \<^item> \<open>Tool_Paging\<close> and this theory: the listing handlers against the paged result.

  \<^bold>\<open>What is shown.\<close>
  \<^item> Listing tools against a consistent service (C1-C3, C15, C16, C19, C23, C25, C30):
    every listing tool implements an abstract answer that depends on the whole listing
    only (\<open>papers_answer\<close>, \<open>linked_answer\<close>, \<open>authors_answer\<close>), from any state of the
    listing and whichever of \<open>results.total\<close> and \<open>len(results)\<close> it reads;
    \<open>search_papers\<close> answers with the service's total and the first \<open>limit\<close> papers,
    fetching only the pages those are on, and nothing when they are loaded; the other
    tools read \<open>list(results)\<close>, so they fetch every page, report \<open>len(results)\<close> or the
    total, skip items without a paper and answer the same whatever was loaded before;
    every listing tool returns for every \<open>limit\<close>; the paper tools keep the paged result
    a prefix of whole pages.
  \<^item> Any service (C4, C17, C18, C20, C26, C32): consumption only extends the paged result,
    and only by fetch steps (the inductive relation \<open>pr_fetches\<close>); a failed fetch or an
    undecodable page escapes the tool unchanged, with nothing appended, and because of
    \<open>list(results)\<close> even a page past the answer's papers aborts the author-papers tool;
    a service that announces pages without items makes the citation tool diverge, and one
    that reports more items than it serves makes \<open>get_author_papers\<close> raise
    \<open>IndexOutOfRangeError\<close> for every limit and \<open>search_papers\<close> for every limit past
    the items served.
  \<^item> Helpers (C5-C9): \<open>_truncate\<close> on every kind of value including the \<open>TypeError\<close> it
    raises, the keys and the 303-character abstract bound of \<open>_paper_to_dict\<close>, the
    entries of \<open>_author_to_dict\<close>.
  \<^item> Round trips (C10, C11): the comma-joined fields of study, the ISO publication date.
  \<^item> Snippet objects and the non-paged tools (C12-C14, C21, C22, C24, C27, C31): each
    constructor on a dict (the paper and the snippet are absent exactly when the payload
    holds \<open>None\<close> for them) and on every other kind of payload, the entries of
    \<open>search_snippets\<close> from the raw payload on, and the number of papers of
    \<open>get_recommendations\<close>, negative limits included; composed with
    \<open>SnippetSearchResult(item)\<close> over the service's raw items, \<open>search_snippets\<close> never
    raises on well-formed dict items (\<open>wf_pyval\<close>: each key once at every depth, as a
    Python dict) and answers with one well-formed entry per item.
  \<^item> The client call (C28, C29): every tool lets the client's exception escape, and each
    tool with a \<open>limit\<close> consults the client only at the request carrying
    \<open>min(limit, cap)\<close>.

  The paged-result lemmas are proved by induction on the pages still to fetch (exact state
  after any fill, get, iteration or slice on a consistent service), by fixpoint induction
  (\<open>pr_fill.raw_induct\<close>) for the facts about any service (every operation keeps the
  loaded prefix and proceeds by fetch steps; a service that never sends items makes the
  fill loop diverge); one induction on the iteration's steps (\<open>pr_iter_from_first_missing\<close>)
  shows that an iteration reaching the first item not loaded ends as the fill loop for it
  does, which gives the failed-fetch, exhausted-cursor and divergence cases; and rule
  induction on \<open>pr_fetches\<close> gives the invariant \<open>pr_inv\<close> of a consistent listing.

  \<^bold>\<open>Non-termination.\<close> A service that hands out a next cursor forever makes the fill loop
  run forever; \<open>pr_fill\<close> is therefore a \<open>partial_function (option)\<close> whose value \<open>None\<close>
  is "does not return", and every theorem about a consistent service states the
  \<open>Some\<close> result, so it also proves that the handler returns.

  \<^bold>\<open>Not modelled.\<close> The HTTP client and the service itself (only as the abstract fetch
  capability and the consistent service \<open>api_listing\<close>), JSON serialisation (a handler's
  value is the one handed to \<open>json.dumps\<close>; \<open>wf_pyval\<close> states what makes it a JSON
  object), FastMCP registration and transport, the module-level client construction
  from \<open>S2_API_KEY\<close>, and the tests (their scenarios are witnesses). \<open>Paper\<close>,
  \<open>Author\<close>, \<open>Tldr\<close>, the citation and reference items and \<open>datetime\<close> are classes of
  the client library, not of this repository: only the attributes the tool layer reads
  are modelled, and the paper constructor is a parameter. Float scores are reals; the
  client's own validation of arguments is outside the sources; the consistent service
  \<open>api_listing\<close> assumes the remote refuses a page size below 1 with a fetch error, which
  neither the specification nor the sources state, and only the non-positive-limit case
  of C25 rests on it. Every function and class
  of the two source files is modelled; the lines of mcp_server.py left out are imports,
  the \<open>@mcp.tool()\<close> decorators and docstrings, the \<open>json.dumps\<close> calls and
  \<open>main()\<close>, which have no behaviour beyond the library calls named above.
\<close>

section \<open>The listing tools against the paginated service\<close>

text \<open>
  C1. search_papers on a query whose results are \<open>xs\<close>, with a positive \<open>limit\<close>:
  the client is asked for pages of \<open>min(limit, 100)\<close> papers, and the tool answers with
  the service's total and the dicts of the first \<open>limit\<close> papers, in order (or the first
  exception a paper's conversion raises).
\<close>

theorem search_papers_listing:
  assumes "0 < limit_arg"
  shows "search_papers (\<lambda>req. api_listing mk xs (sr_limit req)) query year_arg fos_arg pdy_arg mcc_arg limit_arg =
           Some (map_sum id (\<lambda>ds. PDict [(''total'', PInt (int (length xs))), (''papers'', PList ds)])
                   (py_map paper_to_dict (take (nat limit_arg) (map mk xs))))"
proof -
  have pos: "0 < min limit_arg 100" using assms by simp
  obtain s where api: "api_listing mk xs (min limit_arg 100) = Inr s"
    and inv: "pr_inv (nat (min limit_arg 100)) xs mk s"
    using api_listing_ok [OF pos, of mk xs] by blast
  obtain s' where sl: "pr_slice_to limit_arg s = Some (Inr (py_slice_to (map mk xs) limit_arg), s')"
    and inv': "pr_inv (nat (min limit_arg 100)) xs mk s'"
    using pr_slice_to_offset [OF inv, of limit_arg] by blast
  have "pr_total s' = length xs" using inv' by (simp add: pr_inv_def)
  then show ?thesis
    using api sl assms
    by (simp add: search_papers_def search_request_of_def search_papers_consume_def)
qed

theorem search_papers_listing_witness:
  "0 < (1::int) \<and>
   search_papers (\<lambda>req. api_listing example_paper [''p1'', ''p2''] (sr_limit req)) ''graphs'' None None None None 1 =
     Some (Inr (PDict [(''total'', PInt 2),
                       (''papers'', PList [PDict [(''paperId'', PStr ''p1''), (''title'', PStr ''On p1'')]])]))"
  using search_papers_listing [of 1 example_paper "[''p1'', ''p2'']" "''graphs''" None None None None]
  by (simp add: example_paper_def paper_to_dict_def set_if_def Let_def)

text \<open>
  C2. search_papers consumes the paged result lazily: from a freshly created result it
  fetches exactly the pages that hold the first \<open>min(limit, total)\<close> papers, and no more
  (the first page, fetched by the query, counted).
\<close>

theorem search_papers_consume_pages:
  assumes inv: "pr_inv psize xs f s" and fresh: "fetch_calls s = 1" and lim: "0 \<le> limit_arg"
  shows "\<exists>r s'. search_papers_consume limit_arg s = Some (r, s') \<and>
           fetch_calls s' = max 1 (pages_for psize (min (nat limit_arg) (length xs)))"
proof -
  obtain s' where sl: "pr_slice_to limit_arg s = Some (Inr (py_slice_to (map f xs) limit_arg), s')"
    and fc: "fetch_calls s' = max (fetch_calls s) (pages_for psize (length (py_slice_to xs limit_arg)))"
    using pr_slice_to_offset [OF inv, of limit_arg] by blast
  have "length (py_slice_to xs limit_arg) = min (nat limit_arg) (length xs)"
    using lim by simp
  with sl fc fresh show ?thesis by (simp add: search_papers_consume_def)
qed

theorem search_papers_consume_pages_witness:
  "pr_inv 2 [''p1'', ''p2'', ''p3''] example_paper (example_listing example_paper [''p1'', ''p2'', ''p3'']) \<and>
   fetch_calls (example_listing example_paper [''p1'', ''p2'', ''p3'']) = 1 \<and> 0 \<le> (1::int) \<and>
   (\<exists>r s'. search_papers_consume 1 (example_listing example_paper [''p1'', ''p2'', ''p3'']) = Some (r, s') \<and>
      fetch_calls s' = 1)"
proof -
  have inv: "pr_inv 2 [''p1'', ''p2'', ''p3''] example_paper (example_listing example_paper [''p1'', ''p2'', ''p3''])"
    by (simp add: pr_inv_def example_listing_def)
  have fresh: "fetch_calls (example_listing example_paper [''p1'', ''p2'', ''p3'']) = 1"
    by (simp add: example_listing_def)
  have lim: "0 \<le> (1::int)" by simp
  have pg: "max 1 (pages_for 2 (min (nat 1) (length [''p1'', ''p2'', ''p3'']))) = 1"
    by (simp add: pages_for_def)
  show ?thesis
    using inv fresh lim search_papers_consume_pages [OF inv fresh lim] by (simp only: pg simp_thms)
qed

text \<open>
  C3. get_paper_citations consumes the whole listing: \<open>list(results)\<close> fetches every
  page whatever \<open>limit\<close> is, after which \<open>len(results)\<close>, reported as the total, is
  the number of citations; the answer holds the citing papers among the first
  \<open>limit\<close> items.
\<close>

theorem get_paper_citations_consume_all_pages:
  assumes inv: "pr_inv psize xs f s" and fresh: "fetch_calls s = 1"
  shows "\<exists>s'. get_paper_citations_consume limit_arg s =
           Some (Inr (PDict [(''total'', PInt (int (length xs))),
                             (''citations'', PList (linked_papers citation.paper (py_slice_to (map f xs) limit_arg)))]), s') \<and>
           fetch_calls s' = max 1 (pages_for psize (length xs))"
proof -
  obtain s' where l: "pr_list s = Some (Inr (map f xs), s')" and all: "loaded_items s' = map f xs"
    and fc: "fetch_calls s' = max (fetch_calls s) (pages_for psize (length xs))"
    using pr_list_all [OF inv] by blast
  from all have "pr_len s' = length xs" by (simp add: pr_len_def)
  with l fc fresh show ?thesis by (simp add: get_paper_citations_consume_def)
qed

theorem get_paper_citations_consume_all_pages_witness:
  "pr_inv 2 [''c1'', [], ''c3''] example_citation (example_listing example_citation [''c1'', [], ''c3'']) \<and>
   fetch_calls (example_listing example_citation [''c1'', [], ''c3'']) = 1 \<and>
   (\<exists>s'. get_paper_citations_consume 1 (example_listing example_citation [''c1'', [], ''c3'']) =
      Some (Inr (PDict [(''total'', PInt 3),
                        (''citations'', PList [PDict [(''paperId'', PStr ''c1''), (''title'', PStr ''On c1'')]])]), s') \<and>
      fetch_calls s' = 2)"
proof -
  have inv: "pr_inv 2 [''c1'', [], ''c3''] example_citation (example_listing example_citation [''c1'', [], ''c3''])"
    by (simp add: pr_inv_def example_listing_def)
  have fresh: "fetch_calls (example_listing example_citation [''c1'', [], ''c3'']) = 1"
    by (simp add: example_listing_def)
  have pg: "max 1 (pages_for 2 (length [''c1'', [], ''c3''])) = 2"
    by (simp add: pages_for_def)
  have res: "PDict [(''total'', PInt (int (length [''c1'', [], ''c3'']))),
                    (''citations'', PList (linked_papers citation.paper
                        (py_slice_to (map example_citation [''c1'', [], ''c3'']) 1)))] =
             PDict [(''total'', PInt 3),
                    (''citations'', PList [PDict [(''paperId'', PStr ''c1''), (''title'', PStr ''On c1'')]])]"
    by (simp add: example_citation_def example_paper_def)
  show ?thesis
    using inv fresh get_paper_citations_consume_all_pages [OF inv fresh, of 1]
    by (simp only: pg res simp_thms)
qed

text \<open>
  C4. Whatever the fetch capability does, search_papers' consumption of the paged result
  keeps the total, the capability and every item already loaded, in place.
\<close>

theorem search_papers_consume_extends:
  assumes "search_papers_consume limit_arg s = Some (r, s')"
  shows "pr_extends s s'"
proof -
  obtain r0 where "pr_slice_to limit_arg s = Some (r0, s')"
    using assms by (auto simp: search_papers_consume_def split: option.splits sum.splits)
  then show ?thesis by (rule pr_slice_to_extends)
qed

theorem search_papers_consume_extends_witness:
  "\<exists>r s'. search_papers_consume 3 (example_listing example_paper [''p1'', ''p2'', ''p3'']) = Some (r, s') \<and>
          pr_extends (example_listing example_paper [''p1'', ''p2'', ''p3'']) s'"
proof -
  have inv: "pr_inv 2 [''p1'', ''p2'', ''p3''] example_paper (example_listing example_paper [''p1'', ''p2'', ''p3''])"
    by (simp add: pr_inv_def example_listing_def)
  obtain r s' where "search_papers_consume 3 (example_listing example_paper [''p1'', ''p2'', ''p3'']) = Some (r, s')"
    using pr_slice_to_offset [OF inv, of 3]
    by (auto simp: search_papers_consume_def)
  with search_papers_consume_extends show ?thesis by blast
qed

section \<open>From the snippet-search payload to the tool's answer\<close>

text \<open>
  C24. A raw snippet-search result with a snippet dict and no paper, built by
  \<open>SnippetSearchResult(data)\<close> and rendered by search_snippets, gives the entry with
  the payload's score and the snippet's \<open>text\<close>, \<open>snippetKind\<close> (renamed \<open>kind\<close>) and
  \<open>section\<close>, \<open>None\<close> where the payload lacks them; the other snippet keys are dropped.
\<close>

theorem snippet_payload_entry:
  assumes "dict_get d ''paper'' = PNone" "dict_get d ''snippet'' = PDict sd"
    "snippet_search_result_init mk (PDict d) = Inr r"
  shows "snippet_entry r =
           PDict [(''score'', dict_get d ''score''),
                  (''snippet'', PDict [(''text'', dict_get sd ''text''), (''kind'', dict_get sd ''snippetKind''),
                                       (''section'', dict_get sd ''section'')])]"
  using assms
  by (auto simp: snippet_search_result_init_def init_object_dict snippet_init_def snippet_entry_def
      sum_bind_eq_Inr)

theorem snippet_payload_entry_witness:
  "dict_get [(''score'', PFloat (9/10)), (''snippet'', PDict [(''text'', PStr ''we propose''), (''snippetKind'', PStr ''body'')])] ''paper'' = PNone \<and>
   dict_get [(''score'', PFloat (9/10)), (''snippet'', PDict [(''text'', PStr ''we propose''), (''snippetKind'', PStr ''body'')])] ''snippet'' =
     PDict [(''text'', PStr ''we propose''), (''snippetKind'', PStr ''body'')] \<and>
   (\<exists>r. snippet_search_result_init (\<lambda>_. Inr (example_paper ''p1''))
          (PDict [(''score'', PFloat (9/10)), (''snippet'', PDict [(''text'', PStr ''we propose''), (''snippetKind'', PStr ''body'')])]) = Inr r \<and>
        snippet_entry r =
          PDict [(''score'', PFloat (9/10)),
                 (''snippet'', PDict [(''text'', PStr ''we propose''), (''kind'', PStr ''body''), (''section'', PNone)])])"
proof -
  let ?d = "[(''score'', PFloat (9/10)), (''snippet'', PDict [(''text'', PStr ''we propose''), (''snippetKind'', PStr ''body'')])]"
  have a: "dict_get ?d ''paper'' = PNone" "dict_get ?d ''snippet'' = PDict [(''text'', PStr ''we propose''), (''snippetKind'', PStr ''body'')]"
    by (simp_all add: dict_get_def)
  obtain r where r: "snippet_search_result_init (\<lambda>_. Inr (example_paper ''p1'')) (PDict ?d) = Inr r"
    by (simp add: snippet_search_result_init_def init_object_dict dict_get_def snippet_init_def)
  have "snippet_entry r =
          PDict [(''score'', dict_get ?d ''score''),
                 (''snippet'', PDict [(''text'', dict_get [(''text'', PStr ''we propose''), (''snippetKind'', PStr ''body'')] ''text''),
                                      (''kind'', dict_get [(''text'', PStr ''we propose''), (''snippetKind'', PStr ''body'')] ''snippetKind''),
                                      (''section'', dict_get [(''text'', PStr ''we propose''), (''snippetKind'', PStr ''body'')] ''section'')])]"
    using snippet_payload_entry [OF a r] .
  with a r show ?thesis by (auto simp: dict_get_def)
qed

text \<open>
  C31. The snippet pipeline end to end: when the service's result items are well-formed
  dicts whose \<open>snippet\<close> is \<open>None\<close> or a dict, and the paper constructor accepts every
  well-formed value, building each item with \<open>SnippetSearchResult(item)\<close> and rendering
  the results with search_snippets never raises and answers with one well-formed entry
  per item.
\<close>

theorem snippet_payloads_answer_wf:
  assumes "\<forall>v \<in> set raw. \<exists>d. v = PDict d \<and> wf_pyval v \<and>
             (dict_get d ''snippet'' = PNone \<or> (\<exists>sd. dict_get d ''snippet'' = PDict sd))"
    and "\<forall>v. wf_pyval v \<longrightarrow> (\<exists>p. mk v = Inr p \<and> list_all wf_pyval [paperId p, title p, year p])"
  shows "\<exists>es. search_snippets (\<lambda>_. py_map (snippet_search_result_init mk) raw)
                 query year_arg fos_arg pdy_arg mcc_arg limit_arg = Inr (PDict [(''results'', PList es)]) \<and>
              length es = length raw \<and> wf_pyval (PDict [(''results'', PList es)])"
proof -
  have "\<exists>r. snippet_search_result_init mk v = Inr r \<and> snippet_result_wf r" if v: "v \<in> set raw" for v
  proof -
    from bspec [OF assms(1) v] obtain d where "v = PDict d" "wf_pyval (PDict d)"
      "dict_get d ''snippet'' = PNone \<or> (\<exists>sd. dict_get d ''snippet'' = PDict sd)"
      by (elim exE conjE) simp
    with snippet_search_result_init_wf [OF _ _ assms(2)] show ?thesis by simp
  qed
  then obtain rs where rs: "py_map (snippet_search_result_init mk) raw = Inr rs"
    and len: "length rs = length raw" and wf: "\<forall>r\<in>set rs. snippet_result_wf r"
    using py_map_all_Inr [of raw "snippet_search_result_init mk" snippet_result_wf] by blast
  have "\<forall>e\<in>set (map snippet_entry rs). wf_pyval e" using wf wf_snippet_entry by auto
  then show ?thesis using rs len by (simp add: search_snippets_def)
qed

theorem snippet_payloads_answer_wf_witness:
  "wf_pyval (PDict [(''score'', PFloat (9/10)), (''snippet'', PDict [(''text'', PStr ''we propose'')])]) \<and>
   dict_get [(''score'', PFloat (9/10)), (''snippet'', PDict [(''text'', PStr ''we propose'')])] ''snippet'' =
     PDict [(''text'', PStr ''we propose'')] \<and>
   (\<exists>es. search_snippets
       (\<lambda>_. py_map (snippet_search_result_init (\<lambda>_. Inr (example_paper ''p1'')))
              [PDict [(''score'', PFloat (9/10)), (''snippet'', PDict [(''text'', PStr ''we propose'')])]])
       ''attention'' None None None None 10 = Inr (PDict [(''results'', PList es)]) \<and>
     length es = 1 \<and> wf_pyval (PDict [(''results'', PList es)]))"
proof -
  let ?d = "[(''score'', PFloat (9/10)), (''snippet'', PDict [(''text'', PStr ''we propose'')])]"
  have a: "\<forall>v \<in> set [PDict ?d]. \<exists>d. v = PDict d \<and> wf_pyval v \<and>
             (dict_get d ''snippet'' = PNone \<or> (\<exists>sd. dict_get d ''snippet'' = PDict sd))"
    by (simp add: dict_get_def)
  have b: "\<forall>v. wf_pyval v \<longrightarrow> (\<exists>p. (\<lambda>_. Inr (example_paper ''p1'')) v = (Inr p :: error + paper) \<and>
             list_all wf_pyval [paperId p, title p, year p])"
    by (simp add: example_paper_def)
  have "\<exists>es. search_snippets (\<lambda>_. py_map (snippet_search_result_init (\<lambda>_. Inr (example_paper ''p1''))) [PDict ?d])
         ''attention'' None None None None 10 = Inr (PDict [(''results'', PList es)]) \<and>
         length es = length [PDict ?d] \<and> wf_pyval (PDict [(''results'', PList es)])"
    by (rule snippet_payloads_answer_wf [OF a b])
  then show ?thesis by (simp add: dict_get_def)
qed

end
